(* ===== verification/Prelude.thy ===== *)
theory Prelude
  imports Main "HOL-Library.Word" "HOL-Library.State_Monad"
begin

text \<open>
  Shared vocabulary of the development: machine integer types, the lemma collections, the
  proof rules for programs in the state monad (frames and weakest preconditions), and the
  facts on words and lists that the components share.
\<close>

unbundle bit_operations_syntax

section \<open>Types and collections\<close>

type_synonym byte = "8 word"
type_synonym u16 = "16 word"
type_synonym u32 = "32 word"

named_theorems wp_simps "weakest preconditions of the monad's operations"
named_theorems ring_simps "index arithmetic of the ring buffers"

section \<open>Programs in the state monad\<close>

text \<open>
  \<open>wp m Q s\<close> says that running \<open>m\<close> in \<open>s\<close> ends in a result and a state that satisfy
  \<open>Q\<close>. Every program is a total function, so there is one such pair.
\<close>

definition wp :: "('s, 'a) state \<Rightarrow> ('a \<Rightarrow> 's \<Rightarrow> bool) \<Rightarrow> 's \<Rightarrow> bool" where
  "wp m Q s = (case run_state m s of (r, s') \<Rightarrow> Q r s')"

lemma wp_return [wp_simps]: "wp (State_Monad.return x) Q = Q x"
  by (simp add: wp_def fun_eq_iff)

lemma wp_bind [wp_simps]: "wp (State_Monad.bind m f) Q = wp m (\<lambda>x. wp (f x) Q)"
  by (simp add: wp_def fun_eq_iff split: prod.split)

lemma wp_get [wp_simps]: "wp State_Monad.get Q = (\<lambda>s. Q s s)"
  by (simp add: wp_def fun_eq_iff)

lemma run_state_update [simp]: "run_state (State_Monad.update f) s = ((), f s)"
  by (simp add: State_Monad.update_def)

lemma wp_update [wp_simps]: "wp (State_Monad.update f) Q = (\<lambda>s. Q () (f s))"
  by (simp add: wp_def fun_eq_iff)

lemma wp_if [wp_simps]:
  "wp (if b then m else n) Q = (\<lambda>s. (b \<longrightarrow> wp m Q s) \<and> (\<not> b \<longrightarrow> wp n Q s))"
  by auto

lemma wp_case_option [wp_simps]:
  "wp (case x of None \<Rightarrow> m | Some y \<Rightarrow> f y) Q =
     (\<lambda>s. (x = None \<longrightarrow> wp m Q s) \<and> (\<forall>y. x = Some y \<longrightarrow> wp (f y) Q s))"
  by (cases x) auto

lemma wp_case_sum [wp_simps]:
  "wp (case x of Inl y \<Rightarrow> f y | Inr z \<Rightarrow> g z) Q =
     (\<lambda>s. (\<forall>y. x = Inl y \<longrightarrow> wp (f y) Q s) \<and> (\<forall>z. x = Inr z \<longrightarrow> wp (g z) Q s))"
  by (cases x) auto

lemma wp_case_prod [wp_simps]: "wp (case x of (a, b) \<Rightarrow> f a b) Q = wp (f (fst x) (snd x)) Q"
  by (cases x) auto

lemma wp_Let [wp_simps]: "wp (Let x f) Q = wp (f x) Q"
  by simp

lemma wp_True [simp]: "wp m (\<lambda>_ _. True) s"
  by (simp add: wp_def split: prod.split)

lemma wp_mono: "wp m Q s \<Longrightarrow> (\<And>r s'. Q r s' \<Longrightarrow> Q' r s') \<Longrightarrow> wp m Q' s"
  by (auto simp: wp_def split: prod.splits)

lemma wp_conj: "wp m (\<lambda>r s'. Q r s' \<and> Q' r s') s = (wp m Q s \<and> wp m Q' s)"
  by (auto simp: wp_def split: prod.splits)

lemma wp_both:
  "wp m Q s \<Longrightarrow> wp m Q' s \<Longrightarrow> (\<And>r s'. Q r s' \<Longrightarrow> Q' r s' \<Longrightarrow> P r s') \<Longrightarrow> wp m P s"
  by (auto simp: wp_def split: prod.splits)

lemma wpI: "(\<And>r s'. run_state m s = (r, s') \<Longrightarrow> Q r s') \<Longrightarrow> wp m Q s"
  by (auto simp: wp_def split: prod.splits)

lemma wpD: "wp m Q s \<Longrightarrow> run_state m s = (r, s') \<Longrightarrow> Q r s'"
  by (auto simp: wp_def)

lemma wp_frame: "state_io_rel R m \<Longrightarrow> (\<And>r s'. R s s' \<Longrightarrow> Q r s') \<Longrightarrow> wp m Q s"
  by (auto intro!: wpI dest: state_io_relD)

text \<open>
  A frame is a reflexive and transitive relation between the state before and the state
  after; a program stays inside it when each of its steps does.
\<close>

locale frame_rel =
  fixes R :: "'s \<Rightarrow> 's \<Rightarrow> bool"
  assumes refl: "R s s"
    and trans: "R s t \<Longrightarrow> R t u \<Longrightarrow> R s u"
begin

lemma return: "state_io_rel R (State_Monad.return x)"
  by (rule state_io_relI) (auto intro: refl)

lemma get: "state_io_rel R State_Monad.get"
  by (rule state_io_relI) (auto intro: refl)

lemma bind:
  "state_io_rel R m \<Longrightarrow> (\<And>x. state_io_rel R (f x)) \<Longrightarrow> state_io_rel R (State_Monad.bind m f)"
  by (rule state_io_relI) (auto split: prod.splits dest!: state_io_relD intro: trans)

lemma cond: "state_io_rel R m \<Longrightarrow> state_io_rel R n \<Longrightarrow> state_io_rel R (if b then m else n)"
  by simp

lemma case_option:
  "state_io_rel R m \<Longrightarrow> (\<And>y. state_io_rel R (f y)) \<Longrightarrow>
     state_io_rel R (case x of None \<Rightarrow> m | Some y \<Rightarrow> f y)"
  by (cases x) auto

lemma case_sum:
  "(\<And>y. state_io_rel R (f y)) \<Longrightarrow> (\<And>z. state_io_rel R (g z)) \<Longrightarrow>
     state_io_rel R (case x of Inl y \<Rightarrow> f y | Inr z \<Rightarrow> g z)"
  by (cases x) auto

lemma case_prod:
  "(\<And>a b. state_io_rel R (f a b)) \<Longrightarrow> state_io_rel R (case x of (a, b) \<Rightarrow> f a b)"
  by (cases x) auto

lemma Let: "(\<And>y. state_io_rel R (f y)) \<Longrightarrow> state_io_rel R (Let x f)"
  by simp

lemma update: "(\<And>s. R s (f s)) \<Longrightarrow> state_io_rel R (State_Monad.update f)"
  by (rule state_io_relI) auto

lemmas rules = return get bind cond case_option case_sum case_prod Let

end

section \<open>Words\<close>

lemma unat_and_mask8 [ring_simps]: "unat (w AND 255 :: u32) = unat w mod 256"
proof -
  have "w AND 255 = take_bit 8 w"
    by (simp add: take_bit_eq_mask mask_eq_exp_minus_1)
  then show ?thesis
    by (simp add: take_bit_eq_mod unat_mod_distrib)
qed

lemma unat_plus_mod256 [ring_simps]: "unat (a + b :: u32) mod 256 = (unat a + unat b) mod 256"
proof -
  have "(unat a + unat b) mod 2 ^ 32 mod 256 = (unat a + unat b) mod (256::nat)"
    by (rule mod_mod_cancel) (simp add: dvd_def)
  then show ?thesis
    by (simp add: unat_word_ariths)
qed

lemma ring_index:
  "(h::nat) < 256 \<Longrightarrow> i < 256 \<Longrightarrow> (h + i) mod 256 = (if h + i < 256 then h + i else h + i - 256)"
  by (auto simp: mod_if)

lemma unat_of_nat_small: "n < 2 ^ 32 \<Longrightarrow> unat (of_nat n :: u32) = n"
  by (simp add: unat_of_nat take_bit_eq_mod)

section \<open>Lists\<close>

text \<open>\<open>write_at xs p ys\<close> is \<open>memcpy\<close> of \<open>ys\<close> to offset \<open>p\<close> of the array \<open>xs\<close>.\<close>

definition write_at :: "'a list \<Rightarrow> nat \<Rightarrow> 'a list \<Rightarrow> 'a list" where
  "write_at xs p ys = take p xs @ ys @ drop (p + length ys) xs"

lemma length_write_at [simp]: "p + length ys \<le> length xs \<Longrightarrow> length (write_at xs p ys) = length xs"
  by (simp add: write_at_def)

lemma nth_write_at:
  "p + length ys \<le> length xs \<Longrightarrow> i < length xs \<Longrightarrow>
     write_at xs p ys ! i = (if p \<le> i \<and> i < p + length ys then ys ! (i - p) else xs ! i)"
  by (auto simp: write_at_def nth_append min_def)

lemma write_at_Nil [simp]: "write_at xs p [] = xs"
  by (simp add: write_at_def)

end
