(* ===== verification/Linked_List.thy ===== *)
theory Linked_List
  imports Prelude
begin

text \<open>
  \<open>common/linked_list.c\<close>: intrusive circular doubly linked lists, at the level of pointers. A
  heap maps the address of each \<open>struct linked_list\<close> to its two links; address 0 is the null
  pointer. A failed \<open>assert\<close> is \<open>None\<close>. The list operations are shown to refine operations on
  sequences, which is how the components above use them.
\<close>

section \<open>The operations\<close>

type_synonym addr = nat

abbreviation (input) "NULL \<equiv> (0::addr)"

record linked_list =
  nxt :: "addr \<Rightarrow> addr"
  prv :: "addr \<Rightarrow> addr"

definition set_next :: "addr \<Rightarrow> addr \<Rightarrow> linked_list \<Rightarrow> linked_list" where
  "set_next a b h = h\<lparr>nxt := (nxt h)(a := b)\<rparr>"

definition set_prev :: "addr \<Rightarrow> addr \<Rightarrow> linked_list \<Rightarrow> linked_list" where
  "set_prev a b h = h\<lparr>prv := (prv h)(a := b)\<rparr>"

definition linked_list_init :: "addr \<Rightarrow> linked_list \<Rightarrow> linked_list" where
  "linked_list_init l h = set_prev l l (set_next l l h)"

definition linked_list_insert :: "addr \<Rightarrow> addr \<Rightarrow> linked_list \<Rightarrow> linked_list option" where
  "linked_list_insert l e h =
     (if \<not> (prv h l \<noteq> NULL \<and> nxt h l \<noteq> NULL) then None
      else if prv h e \<noteq> nxt h e then None
      else
        let h = set_prev e l h;
            h = set_next e (nxt h l) h;
            h = set_next l e h
        in Some (set_prev (nxt h e) e h))"

definition linked_list_remove :: "addr \<Rightarrow> linked_list \<Rightarrow> linked_list option" where
  "linked_list_remove e h =
     (if \<not> (prv h e \<noteq> NULL \<and> nxt h e \<noteq> NULL) then None
      else
        let h = set_next (prv h e) (nxt h e) h;
            h = set_prev (nxt h e) (prv h e) h;
            h = set_next e NULL h
        in Some (set_prev e NULL h))"

definition linked_list_empty :: "addr \<Rightarrow> linked_list \<Rightarrow> bool option" where
  "linked_list_empty l h =
     (if \<not> (prv h l \<noteq> NULL \<and> nxt h l \<noteq> NULL) then None else Some (nxt h l = l))"

definition linked_list_take :: "addr \<Rightarrow> addr \<Rightarrow> linked_list \<Rightarrow> linked_list option" where
  "linked_list_take t s h =
     (case linked_list_empty s h of
        None \<Rightarrow> None
      | Some True \<Rightarrow> Some h
      | Some False \<Rightarrow>
          let h = set_prev (nxt h s) t h;
              h = set_next (prv h s) (nxt h t) h;
              h = set_prev (nxt h t) (prv h s) h;
              h = set_next t (nxt h s) h
          in Some (linked_list_init s h))"

text \<open>The traversal \<open>for (elem = list->next; elem != list; elem = elem->next)\<close>.\<close>

primrec walk :: "nat \<Rightarrow> addr \<Rightarrow> addr \<Rightarrow> linked_list \<Rightarrow> addr list option" where
  "walk 0 l a h = None"
| "walk (Suc n) l a h =
     (if a = l then Some [] else map_option ((#) a) (walk n l (nxt h a) h))"

lemma set_simps [simp]:
  "nxt (set_next a b h) = (nxt h)(a := b)" "prv (set_next a b h) = prv h"
  "prv (set_prev a b h) = (prv h)(a := b)" "nxt (set_prev a b h) = nxt h"
  by (simp_all add: set_next_def set_prev_def)

section \<open>Lists as sequences\<close>

text \<open>\<open>chain h a xs b\<close>: following the links from \<open>a\<close> visits \<open>xs\<close> and then \<open>b\<close>, and back.\<close>

fun chain :: "linked_list \<Rightarrow> addr \<Rightarrow> addr list \<Rightarrow> addr \<Rightarrow> bool" where
  "chain h a [] b \<longleftrightarrow> nxt h a = b \<and> prv h b = a"
| "chain h a (x # xs) b \<longleftrightarrow> nxt h a = x \<and> prv h x = a \<and> chain h x xs b"

definition dll :: "linked_list \<Rightarrow> addr \<Rightarrow> addr list \<Rightarrow> bool" where
  "dll h l xs \<longleftrightarrow> chain h l xs l \<and> distinct (l # xs) \<and> NULL \<notin> set (l # xs)"

lemma chain_append: "chain h a (xs @ y # ys) b \<longleftrightarrow> chain h a xs y \<and> chain h y ys b"
  by (induction xs arbitrary: a) auto

lemma chain_cong:
  assumes "\<And>x. x \<in> insert a (set xs) \<Longrightarrow> nxt h' x = nxt h x"
    and "\<And>x. x \<in> insert b (set xs) \<Longrightarrow> prv h' x = prv h x"
  shows "chain h' a xs b = chain h a xs b"
  using assms by (induction xs arbitrary: a) auto

lemma chain_head_prev: "chain h a xs b \<Longrightarrow> prv h b = last (a # xs)"
  by (induction xs arbitrary: a) auto

lemma chain_head_next: "chain h a xs b \<Longrightarrow> nxt h a = hd (xs @ [b])"
  by (cases xs) auto

lemma dll_ends:
  assumes "dll h l xs"
  shows "nxt h l = hd (xs @ [l])" and "prv h l = last (l # xs)"
    and "nxt h l \<noteq> NULL" and "prv h l \<noteq> NULL"
proof -
  have "set (xs @ [l]) \<subseteq> set (l # xs)" and "last (l # xs) \<in> set (l # xs)"
    using last_in_set [of "l # xs"] by auto
  moreover have "hd (xs @ [l]) \<in> set (xs @ [l])"
    by (rule list.set_sel(1)) simp
  ultimately have "hd (xs @ [l]) \<in> set (l # xs)" "last (l # xs) \<in> set (l # xs)"
    by blast+
  with assms chain_head_next [of h l xs l] chain_head_prev [of h l xs l]
  show "nxt h l = hd (xs @ [l])" "prv h l = last (l # xs)" "nxt h l \<noteq> NULL" "prv h l \<noteq> NULL"
    unfolding dll_def by metis+
qed

text \<open>A list is not affected by writes to the links of nodes outside it.\<close>

lemma dll_frame:
  assumes "dll h l xs" and "\<And>x. x \<in> set (l # xs) \<Longrightarrow> nxt h' x = nxt h x \<and> prv h' x = prv h x"
  shows "dll h' l xs"
  using assms chain_cong [of l xs h' h l] by (auto simp: dll_def)

section \<open>The operations on sequences\<close>

lemma init_dll: "l \<noteq> NULL \<Longrightarrow> dll (linked_list_init l h) l []"
  by (simp add: dll_def linked_list_init_def)

lemma empty_dll:
  assumes "dll h l xs"
  shows "linked_list_empty l h = Some (xs = [])"
proof -
  have "(hd (xs @ [l]) = l) = (xs = [])"
    using assms by (cases xs) (auto simp: dll_def)
  then show ?thesis
    using dll_ends [OF assms] by (simp add: linked_list_empty_def)
qed

lemma insert_dll:
  assumes "dll h l xs" and e: "e \<notin> set (l # xs)" "e \<noteq> NULL" "prv h e = nxt h e"
  shows "\<exists>h'. linked_list_insert l e h = Some h' \<and> dll h' l (e # xs) \<and>
    (\<forall>a. a \<notin> set (l # e # xs) \<longrightarrow> nxt h' a = nxt h a \<and> prv h' a = prv h a)"
proof -
  define n where "n = hd (xs @ [l])"
  define h' where "h' = set_prev n e (set_next l e (set_next e n (set_prev e l h)))"
  note ends = dll_ends [OF assms(1), folded n_def]
  have n: "n \<in> set (xs @ [l])"
    unfolding n_def by (rule hd_in_set) simp
  have result: "linked_list_insert l e h = Some h'"
    using ends e by (simp add: linked_list_insert_def Let_def h'_def)
  have "chain h' e xs l"
  proof (cases xs)
    case (Cons x ys)
    have "chain h' x ys l = chain h x ys l"
      by (rule chain_cong) (use assms(1) e Cons in \<open>auto simp: h'_def n_def dll_def\<close>)
    then show ?thesis using Cons assms(1) e by (auto simp: h'_def n_def dll_def)
  qed (use e in \<open>simp add: h'_def n_def\<close>)
  then have "dll h' l (e # xs)"
    using assms(1) e n by (auto simp: dll_def h'_def)
  then show ?thesis
    using result n by (auto simp: h'_def)
qed

text \<open>Bypassing \<open>e\<close> on a chain through \<open>e\<close>, from its predecessor \<open>p\<close> to its successor \<open>n\<close>.\<close>

lemma chain_bypass:
  assumes "chain h a xs e" and "chain h e ys b" and dist: "distinct (a # xs @ e # ys)"
    and b: "b \<notin> set (xs @ e # ys)" and pn: "prv h e = p" "nxt h e = n"
    and upd: "nxt h' = (nxt h)(p := n, e := NULL)" "prv h' = (prv h)(n := p, e := NULL)"
  shows "chain h' a (xs @ ys) b"
proof -
  have p: "p = last (a # xs)" and n: "n = hd (ys @ [b])"
    unfolding pn [symmetric] by (rule chain_head_prev [OF assms(1)], rule chain_head_next [OF assms(2)])
  have "p \<in> set (a # xs)" unfolding p by (rule last_in_set) simp
  then have p_out: "p \<noteq> e" "p \<notin> set ys" using dist by auto
  have "n \<in> set (ys @ [b])" unfolding n by (rule hd_in_set) simp
  then have n_out: "n \<noteq> e" "n \<notin> set xs" using dist b by auto
  have right: "chain h' p ys b"
  proof (cases ys)
    case (Cons y zs)
    have "chain h' y zs b = chain h y zs b"
      by (rule chain_cong) (use dist b n p_out Cons in \<open>auto simp: upd\<close>)
    then show ?thesis using Cons assms(2) n p_out n_out by (simp add: upd)
  qed (use n n_out p_out in \<open>simp add: upd\<close>)
  show ?thesis
  proof (cases xs rule: rev_cases)
    case (snoc us u)
    have "chain h' a us u = chain h a us u"
      by (rule chain_cong) (use dist p n_out snoc in \<open>auto simp: upd\<close>)
    then show ?thesis using right assms(1) p snoc by (simp add: chain_append)
  qed (use right p in simp)
qed

lemma remove_dll:
  assumes "dll h l (xs @ e # ys)"
  shows "\<exists>h'. linked_list_remove e h = Some h' \<and> dll h' l (xs @ ys) \<and> nxt h' e = NULL \<and> prv h' e = NULL \<and>
    (\<forall>a. a \<notin> set (l # xs @ e # ys) \<longrightarrow> nxt h' a = nxt h a \<and> prv h' a = prv h a)"
proof -
  obtain p n where p: "prv h e = p" and n: "nxt h e = n" by blast
  define h' where "h' = set_prev e NULL (set_next e NULL (set_prev n p (set_next p n h)))"
  have links: "chain h l xs e" "chain h e ys l" and dist: "distinct (l # xs @ e # ys)"
    and nn: "NULL \<notin> set (l # xs @ e # ys)"
    using assms by (auto simp: dll_def chain_append)
  have ends: "p = last (l # xs)" "n = hd (ys @ [l])"
    unfolding p [symmetric] n [symmetric] by (rule chain_head_prev [OF links(1)], rule chain_head_next [OF links(2)])
  have mem: "p \<in> set (l # xs)" "n \<in> set (ys @ [l])"
    unfolding ends by (rule last_in_set, simp, rule hd_in_set, simp)
  then have pn: "p \<noteq> e" "n \<noteq> e" "p \<noteq> NULL" "n \<noteq> NULL"
    using dist nn by auto
  then have result: "linked_list_remove e h = Some h'"
    by (simp add: linked_list_remove_def Let_def h'_def p n)
  have upd: "nxt h' = (nxt h)(p := n, e := NULL)" "prv h' = (prv h)(n := p, e := NULL)"
    by (simp_all add: h'_def)
  have "chain h' l (xs @ ys) l"
    by (rule chain_bypass [OF links dist _ p n upd]) (use dist in auto)
  then have "dll h' l (xs @ ys)"
    using dist nn by (simp add: dll_def)
  moreover have "nxt h' a = nxt h a \<and> prv h' a = prv h a" if "a \<notin> set (l # xs @ e # ys)" for a
    using that mem by (auto simp: upd)
  ultimately show ?thesis
    using result by (simp add: upd)
qed

lemma remove_self: "nxt h e = e \<Longrightarrow> prv h e = e \<Longrightarrow> e \<noteq> NULL \<Longrightarrow>
    \<exists>h'. linked_list_remove e h = Some h' \<and> nxt h' e = NULL \<and> prv h' e = NULL \<and>
      (\<forall>a. a \<noteq> e \<longrightarrow> nxt h' a = nxt h a \<and> prv h' a = prv h a)"
  by (auto simp: linked_list_remove_def Let_def)

lemma walk_chain:
  "chain h a xs l \<Longrightarrow> l \<notin> set xs \<Longrightarrow> length xs < n \<Longrightarrow> walk n l (nxt h a) h = Some xs"
proof (induction xs arbitrary: a n)
  case Nil
  then show ?case by (cases n) auto
next
  case (Cons x xs)
  then obtain m where "n = Suc m" by (cases n) auto
  with Cons.prems Cons.IH [of x m] show ?case by auto
qed

lemma take_dll:
  assumes t: "dll h t xs" and s: "dll h s ys" and disj: "set (t # xs) \<inter> set (s # ys) = {}"
  shows "\<exists>h'. linked_list_take t s h = Some h' \<and> dll h' t (ys @ xs) \<and> dll h' s []"
proof (cases ys rule: rev_cases)
  case Nil
  then show ?thesis
    using s t by (simp add: linked_list_take_def empty_dll [OF s])
next
  case (snoc us z)
  define y n where "y = hd ys" and "n = hd (xs @ [t])"
  define h' where "h' = linked_list_init s
    (set_next t y (set_prev n z (set_next z n (set_prev y t h))))"
  have y: "y \<in> set ys" and n: "n \<in> set (xs @ [t])"
    unfolding y_def n_def by (rule hd_in_set, simp add: snoc, rule hd_in_set, simp)
  have links: "nxt h s = y" "prv h s = z" "nxt h t = n"
    using dll_ends [OF s] dll_ends [OF t] snoc by (simp_all add: y_def n_def hd_append)
  have out: "a \<noteq> s \<and> a \<notin> set ys" if "a \<in> set (xs @ [t])" for a
    using that disj by auto
  have neq: "y \<noteq> t" "y \<noteq> s" "z \<noteq> t" "z \<noteq> s" "n \<noteq> s" "n \<noteq> y" "n \<noteq> z" "s \<noteq> t"
    using y s snoc out [OF n] out [of t] by (auto simp: dll_def)
  moreover have "linked_list_empty s h = Some False"
    using empty_dll [OF s] snoc by simp
  ultimately have result: "linked_list_take t s h = Some h'"
    using links by (simp add: linked_list_take_def Let_def h'_def)
  have upd: "nxt h' = (nxt h)(z := n, t := y, s := s)" "prv h' = (prv h)(y := t, n := z, s := s)"
    by (simp_all add: h'_def linked_list_init_def)
  have right: "chain h' z xs t"
  proof (cases xs)
    case (Cons x vs)
    have "chain h' x vs t = chain h x vs t"
      by (rule chain_cong) (use t out snoc Cons y in \<open>auto simp: upd dll_def n_def\<close>)
    then show ?thesis
      using t Cons neq by (auto simp: upd dll_def n_def)
  qed (use neq in \<open>auto simp: upd n_def\<close>)
  have "chain h' t us z"
  proof (cases us)
    case (Cons u vs)
    have u: "y = u" "distinct (s # u # vs @ [z])" "t \<notin> set (u # vs @ [z])" "n \<notin> set (u # vs @ [z])"
      using s out [OF n] out [of t] snoc Cons by (simp_all add: dll_def y_def)
    then have "chain h' u vs z = chain h u vs z"
      by (intro chain_cong) (auto simp: upd)
    moreover have "chain h u vs z"
      using s snoc Cons by (simp add: dll_def chain_append)
    ultimately show ?thesis
      using Cons u(1) neq by (simp add: upd)
  qed (use snoc neq in \<open>auto simp: upd y_def\<close>)
  with right have "dll h' t (ys @ xs)"
    using s t disj snoc by (auto simp: dll_def chain_append)
  moreover have "dll h' s []"
    using s by (simp add: dll_def upd)
  ultimately show ?thesis using result by blast
qed

section \<open>The interface\<close>

text \<open>
  What the clients of the lists rely on: \<open>rep h l xs\<close> says that the list at \<open>l\<close> holds \<open>xs\<close>,
  \<open>loose h e\<close> that \<open>e\<close> may be inserted. Insertion is at the head.
\<close>

locale intrusive_list =
  fixes rep :: "'h \<Rightarrow> addr \<Rightarrow> addr list \<Rightarrow> bool"
    and loose :: "'h \<Rightarrow> addr \<Rightarrow> bool"
    and ins :: "addr \<Rightarrow> addr \<Rightarrow> 'h \<Rightarrow> 'h option"
    and rem :: "addr \<Rightarrow> 'h \<Rightarrow> 'h option"
  assumes rep_distinct: "rep h l xs \<Longrightarrow> distinct (l # xs) \<and> NULL \<notin> set (l # xs)"
    and ins_law: "rep h l xs \<Longrightarrow> e \<notin> set (l # xs) \<Longrightarrow> e \<noteq> NULL \<Longrightarrow> loose h e \<Longrightarrow>
      \<exists>h'. ins l e h = Some h' \<and> rep h' l (e # xs) \<and>
        (\<forall>m zs. rep h m zs \<longrightarrow> set (m # zs) \<inter> set (l # e # xs) = {} \<longrightarrow> rep h' m zs) \<and>
        (\<forall>a. a \<notin> set (l # e # xs) \<longrightarrow> loose h' a = loose h a)"
    and rem_law: "rep h l (xs @ e # ys) \<Longrightarrow>
      \<exists>h'. rem e h = Some h' \<and> rep h' l (xs @ ys) \<and> loose h' e \<and>
        (\<forall>m zs. rep h m zs \<longrightarrow> set (m # zs) \<inter> set (l # xs @ e # ys) = {} \<longrightarrow> rep h' m zs) \<and>
        (\<forall>a. a \<notin> set (l # xs @ e # ys) \<longrightarrow> loose h' a = loose h a)"
begin

text \<open>Moving an element from one list to the head of another.\<close>

lemma move:
  assumes "rep h a (xs @ e # ys)" and "rep h b zs" and "set (a # xs @ e # ys) \<inter> set (b # zs) = {}"
  shows "\<exists>h1 h2. rem e h = Some h1 \<and> ins b e h1 = Some h2 \<and> rep h2 a (xs @ ys) \<and> rep h2 b (e # zs)"
proof -
  obtain h1 where h1: "rem e h = Some h1" "rep h1 a (xs @ ys)" "loose h1 e" "rep h1 b zs"
    using rem_law [OF assms(1)] assms(2,3) by (auto simp: Int_commute)
  have "e \<noteq> NULL" "e \<notin> set (b # zs)" "e \<notin> set (a # xs @ ys)"
    using rep_distinct [OF assms(1)] assms(3) by auto
  with h1 ins_law [OF h1(4), of e] obtain h2 where h2: "ins b e h1 = Some h2" "rep h2 b (e # zs)"
    and "\<forall>m ws. rep h1 m ws \<longrightarrow> set (m # ws) \<inter> set (b # e # zs) = {} \<longrightarrow> rep h2 m ws"
    by blast
  moreover have "set (a # xs @ ys) \<inter> set (b # e # zs) = {}"
    using assms(3) \<open>e \<notin> set (a # xs @ ys)\<close> by auto
  ultimately have "rep h2 a (xs @ ys)"
    using h1(2) by blast
  with h1(1) h2 show ?thesis by blast
qed

text \<open>Inserting several elements one after the other leaves them in reverse order.\<close>

primrec ins_all :: "addr \<Rightarrow> addr list \<Rightarrow> 'h \<Rightarrow> 'h option" where
  "ins_all l [] h = Some h"
| "ins_all l (e # es) h = (case ins l e h of None \<Rightarrow> None | Some h' \<Rightarrow> ins_all l es h')"

lemma ins_all_reverses:
  "rep h l xs \<Longrightarrow> distinct es \<Longrightarrow> set es \<inter> set (l # xs) = {} \<Longrightarrow> NULL \<notin> set es \<Longrightarrow>
    \<forall>e \<in> set es. loose h e \<Longrightarrow> \<exists>h'. ins_all l es h = Some h' \<and> rep h' l (rev es @ xs)"
proof (induction es arbitrary: h xs)
  case (Cons e es)
  then obtain h' where h': "ins l e h = Some h'" "rep h' l (e # xs)"
      "\<forall>a. a \<notin> set (l # e # xs) \<longrightarrow> loose h' a = loose h a"
    using ins_law [OF Cons.prems(1), of e] by auto
  moreover have "set es \<inter> set (l # e # xs) = {}" "\<forall>x \<in> set es. loose h' x"
    using Cons.prems h'(3) by auto
  ultimately show ?case
    using Cons.IH [OF h'(2)] Cons.prems by simp
qed simp

end

definition unlinked :: "linked_list \<Rightarrow> addr \<Rightarrow> bool" where
  "unlinked h e \<longleftrightarrow> prv h e = nxt h e"

interpretation ll: intrusive_list dll unlinked linked_list_insert linked_list_remove
proof
  show "dll h l xs \<Longrightarrow> distinct (l # xs) \<and> NULL \<notin> set (l # xs)" for h l xs
    by (simp add: dll_def)
  have frame: "dll h' m zs"
    if "dll h m zs" "set (m # zs) \<inter> S = {}" "\<forall>a. a \<notin> S \<longrightarrow> nxt h' a = nxt h a \<and> prv h' a = prv h a"
    for h h' m zs S
    by (rule dll_frame [OF that(1)]) (use that(2,3) in blast)
  show "\<exists>h'. linked_list_insert l e h = Some h' \<and> dll h' l (e # xs) \<and>
      (\<forall>m zs. dll h m zs \<longrightarrow> set (m # zs) \<inter> set (l # e # xs) = {} \<longrightarrow> dll h' m zs) \<and>
      (\<forall>a. a \<notin> set (l # e # xs) \<longrightarrow> unlinked h' a = unlinked h a)"
    if "dll h l xs" "e \<notin> set (l # xs)" "e \<noteq> NULL" "unlinked h e" for h l xs e
    using insert_dll [OF that(1-3)] that(4) frame unfolding unlinked_def by metis
  show "\<exists>h'. linked_list_remove e h = Some h' \<and> dll h' l (xs @ ys) \<and> unlinked h' e \<and>
      (\<forall>m zs. dll h m zs \<longrightarrow> set (m # zs) \<inter> set (l # xs @ e # ys) = {} \<longrightarrow> dll h' m zs) \<and>
      (\<forall>a. a \<notin> set (l # xs @ e # ys) \<longrightarrow> unlinked h' a = unlinked h a)"
    if "dll h l (xs @ e # ys)" for h l xs e ys
    using remove_dll [OF that] frame unfolding unlinked_def by metis
qed

text \<open>C39: moving a node between two lists (\<open>linked_list_remove\<close>, then \<open>linked_list_insert\<close>, as
  \<open>seat_add_client\<close> does) passes the asserts of both operations, takes the node out of the
  one sequence wherever it stood there, and puts it at the head of the other.\<close>

theorem linked_list_moves:
  assumes "dll h a (xs @ e # ys)" and "dll h b zs" and "set (a # xs @ e # ys) \<inter> set (b # zs) = {}"
  shows "\<exists>h1 h2. linked_list_remove e h = Some h1 \<and> linked_list_insert b e h1 = Some h2 \<and>
    dll h2 a (xs @ ys) \<and> dll h2 b (e # zs)"
  using assms by (rule ll.move)

text \<open>C40: \<open>linked_list_take\<close> moves all nodes of the source list, in order, in front of those of
  the target and leaves the source empty, and a traversal of the target then visits exactly
  these nodes.\<close>

theorem linked_list_take_all:
  assumes "dll h t xs" and "dll h s ys" and "set (t # xs) \<inter> set (s # ys) = {}"
    and "length xs + length ys < n"
  shows "\<exists>h'. linked_list_take t s h = Some h' \<and> linked_list_empty s h' = Some True \<and>
    dll h' t (ys @ xs) \<and> walk n t (nxt h' t) h' = Some (ys @ xs)"
proof -
  obtain h' where h': "linked_list_take t s h = Some h'" "dll h' t (ys @ xs)" "dll h' s []"
    using take_dll [OF assms(1-3)] by blast
  moreover have "walk n t (nxt h' t) h' = Some (ys @ xs)"
    by (rule walk_chain) (use h'(2) assms(4) in \<open>auto simp: dll_def\<close>)
  ultimately show ?thesis using empty_dll by fastforce
qed

text \<open>Two lists, at 1 with the nodes 2 and 3, and at 4 with the node 5.\<close>

definition sample_lists :: linked_list where
  "sample_lists = \<lparr>nxt = (\<lambda>_. NULL)(1 := 2, 2 := 3, 3 := 1, 4 := 5, 5 := 4),
     prv = (\<lambda>_. NULL)(1 := 3, 2 := 1, 3 := 2, 4 := 5, 5 := 4)\<rparr>"

lemma sample_lists: "dll sample_lists 1 [2, 3]" "dll sample_lists 4 [5]"
  by (simp_all add: dll_def sample_lists_def)

theorem linked_list_moves_witness:
  "\<exists>h1 h2. linked_list_remove 3 sample_lists = Some h1 \<and> linked_list_insert 4 3 h1 = Some h2 \<and>
    dll h2 1 [2] \<and> dll h2 4 [3, 5]"
  using linked_list_moves [of sample_lists 1 "[2]" 3 "[]" 4 "[5]"] sample_lists by simp

theorem linked_list_take_all_witness:
  "\<exists>h'. linked_list_take 1 4 sample_lists = Some h' \<and> linked_list_empty 4 h' = Some True \<and>
    dll h' 1 [5, 2, 3] \<and> walk 4 1 (nxt h' 1) h' = Some [5, 2, 3]"
  using linked_list_take_all [OF sample_lists, of 4] by simp

end
