(* ===== verification/Kernel.thy ===== *)
theory Kernel
  imports Prelude
begin

text \<open>
  The operating system as the program sees it. The kernel and the C library's allocator are
  not part of the repository, so they are a parameter: a \<open>kernel\<close> answers each call from the
  history of all calls so far. The program's own share of that interface is the record
  \<open>os\<close>: the variable \<open>errno\<close>, the history, and two flags that stay set once set
  (\<open>aborted\<close>: an \<open>assert\<close> failed or \<open>abort\<close> was called; \<open>stuck\<close>: a retry loop used up its
  fuel). Every other state of the program extends \<open>os\<close>. Log output is not recorded.
  Compile-time choices are those of Linux.
\<close>

section \<open>Errno values\<close>

text \<open>The values of Linux (\<open>errno.h\<close>, \<open>errno-base.h\<close>).\<close>

abbreviation (input) "EPERM \<equiv> (1::int)"
abbreviation (input) "ENOENT \<equiv> (2::int)"
abbreviation (input) "ESRCH \<equiv> (3::int)"
abbreviation (input) "EINTR \<equiv> (4::int)"
abbreviation (input) "EIO \<equiv> (5::int)"
abbreviation (input) "EBADF \<equiv> (9::int)"
abbreviation (input) "ECHILD \<equiv> (10::int)"
abbreviation (input) "EAGAIN \<equiv> (11::int)"
abbreviation (input) "ENOMEM \<equiv> (12::int)"
abbreviation (input) "EACCES \<equiv> (13::int)"
abbreviation (input) "EBUSY \<equiv> (16::int)"
abbreviation (input) "EINVAL \<equiv> (22::int)"
abbreviation (input) "EMFILE \<equiv> (24::int)"
abbreviation (input) "EPIPE \<equiv> (32::int)"
abbreviation (input) "ENOSYS \<equiv> (38::int)"
abbreviation (input) "EPROTO \<equiv> (71::int)"
abbreviation (input) "EBADMSG \<equiv> (74::int)"
abbreviation (input) "EOVERFLOW \<equiv> (75::int)"
abbreviation (input) "ENOTCONN \<equiv> (107::int)"
abbreviation (input) "EALREADY \<equiv> (114::int)"

section \<open>Calls and answers\<close>

datatype oflag = O_RDWR | O_NOCTTY | O_NOFOLLOW | O_CLOEXEC | O_NONBLOCK

datatype ioctl =
    VT_OPENQRY
  | VT_GETSTATE
  | VT_SETMODE bool \<comment> \<open>\<open>VT_PROCESS\<close> with the two signals, or \<open>VT_AUTO\<close>\<close>
  | VT_ACTIVATE int
  | VT_RELDISP int
  | KDSKBMODE bool \<comment> \<open>\<open>K_ENABLE\<close> or \<open>K_DISABLE\<close>\<close>
  | KDSETMODE bool \<comment> \<open>\<open>KD_GRAPHICS\<close> or \<open>KD_TEXT\<close>\<close>
  | DRM_IOCTL_SET_MASTER
  | DRM_IOCTL_DROP_MASTER
  | DRM_IOCTL_AUTH_MAGIC
  | EVIOCREVOKE
  | HIDIOCREVOKE

abbreviation (input) "VT_ACKACQ \<equiv> (2::int)"

datatype fcntl = F_GETFD | F_SETFD int | F_GETFL | F_SETFL int

abbreviation (input) "FD_CLOEXEC \<equiv> (1::int)"
abbreviation (input) "O_NONBLOCK_FLAG \<equiv> (2048::int)"

text \<open>The calls that only the client library, the log and the launcher make.\<close>

datatype ipc_call =
    Connect int string
  | Socketpair
  | Poll_in int int \<comment> \<open>descriptor polled for input, time-out\<close>
  | Clock_gettime
  | Isatty int

datatype proc_call =
    Fork
  | Execve string "string list"
  | Execvp string "string list" "string \<times> string" \<comment> \<open>with the variable set just before\<close>
  | Waitpid int bool \<comment> \<open>with \<open>WNOHANG\<close> or not\<close>
  | Kill int int
  | Getuid
  | Getgid
  | Setuid int
  | Setgid int
  | Exit int

datatype syscall =
    Sys_open string "oflag list"
  | Sys_close int
  | Sys_dup int
  | Sys_ioctl int ioctl
  | Sys_realpath string
  | Sys_calloc
  | Sys_strdup string
  | Sys_sendmsg int "byte list" "byte list" \<comment> \<open>socket, gathered bytes, bytes of the passed fds\<close>
  | Sys_recvmsg int nat \<comment> \<open>socket, room in the vectors\<close>
  | Sys_accept int
  | Sys_peercred int
  | Sys_geteuid
  | Sys_fcntl int fcntl
  | Sys_shutdown int
  | Sys_pipe
  | Sys_read int nat
  | Sys_write int "byte list"
  | Sys_poll "(int \<times> u16) list" \<comment> \<open>descriptors and wanted events\<close>
  | Sys_realloc
  | Sys_getenv string
  | Sys_pipe2
  | Sys_pthread_create
  | Sys_pthread_cancel
  | Sys_pthread_join
  | Sys_vt_waitevent int
  | Sys_socket
  | Sys_bind int string
  | Sys_listen int nat
  | Sys_chmod string nat
  | Sys_chown string int int
  | Sys_lstat string
  | Sys_unlink string
  | Sys_getpwnam string
  | Sys_getgrnam string
  | Sys_ipc ipc_call
  | Sys_proc proc_call
  | Sys_sigaction int bool \<comment> \<open>the program's handler, or the default action\<close>

text \<open>
  A control message as \<open>recvmsg\<close> hands it over, and an answer: the returned value
  (\<open>-1\<close> for a failure or a null pointer), the \<open>errno\<close> of a failure, and what the call stores
  through its pointer arguments.
\<close>

record cmsg =
  cmsg_level :: int
  cmsg_type :: int
  cmsg_data :: "byte list"

abbreviation (input) "SOL_SOCKET \<equiv> (1::int)"
abbreviation (input) "SCM_RIGHTS \<equiv> (1::int)"

record sysret =
  sr_val :: int
  sr_errno :: int
  sr_out :: int
  sr_str :: string
  sr_data :: "byte list"
  sr_cmsgs :: "cmsg list"
  sr_cred :: "int \<times> int \<times> int"
  sr_ints :: "int list"

type_synonym history = "(syscall \<times> sysret) list"

text \<open>
  \<open>answer\<close> is the kernel; \<open>retry_fuel\<close> bounds the rounds of the program's retry loops;
  \<open>has_hidiocrevoke\<close> says whether the headers define \<open>HIDIOCREVOKE\<close>.
\<close>

record kernel =
  answer :: "history \<Rightarrow> syscall \<Rightarrow> sysret"
  retry_fuel :: nat
  has_hidiocrevoke :: bool

record os =
  errno :: int
  trace :: history \<comment> \<open>newest call first\<close>
  aborted :: bool
  stuck :: bool

definition sys :: "kernel \<Rightarrow> syscall \<Rightarrow> ('a os_scheme, sysret) state" where
  "sys k c = do {
     w \<leftarrow> State_Monad.get;
     let r = answer k (trace w) c;
     State_Monad.update (\<lambda>w. w\<lparr>trace := (c, r) # trace w,
       errno := (if sr_val r = -1 then sr_errno r else errno w)\<rparr>);
     State_Monad.return r
   }"

definition sys_val :: "kernel \<Rightarrow> syscall \<Rightarrow> ('a os_scheme, int) state" where
  "sys_val k c = do { r \<leftarrow> sys k c; State_Monad.return (sr_val r) }"

definition set_errno :: "int \<Rightarrow> ('a os_scheme, unit) state" where
  "set_errno e = State_Monad.update (\<lambda>w. w\<lparr>errno := e\<rparr>)"

definition get_errno :: "('a os_scheme, int) state" where
  "get_errno = do { w \<leftarrow> State_Monad.get; State_Monad.return (errno w) }"

definition abort_now :: "('a os_scheme, unit) state" where
  "abort_now = State_Monad.update (\<lambda>w. w\<lparr>aborted := True\<rparr>)"

definition set_stuck :: "('a os_scheme, unit) state" where
  "set_stuck = State_Monad.update (\<lambda>w. w\<lparr>stuck := True\<rparr>)"

text \<open>Call each of a list of descriptors' \<open>close\<close>, ignoring the results as the code does.\<close>

primrec close_all :: "kernel \<Rightarrow> int list \<Rightarrow> ('a os_scheme, unit) state" where
  "close_all k [] = State_Monad.return ()"
| "close_all k (fd # fds) = do { _ \<leftarrow> sys_val k (Sys_close fd); close_all k fds }"

section \<open>Frames\<close>

text \<open>
  \<open>os_step w w'\<close>: only \<open>errno\<close>, the history (which grows) and the \<open>stuck\<close> flag (which is
  not reset) differ. \<open>os_calls w w'\<close> adds that no loop ran out of fuel on the way.
\<close>

definition os_step :: "'a os_scheme \<Rightarrow> 'a os_scheme \<Rightarrow> bool" where
  "os_step w w' \<longleftrightarrow> os.more w' = os.more w \<and> aborted w' = aborted w \<and>
     (\<exists>t. trace w' = t @ trace w) \<and> (stuck w \<longrightarrow> stuck w')"

definition os_calls :: "'a os_scheme \<Rightarrow> 'a os_scheme \<Rightarrow> bool" where
  "os_calls w w' \<longleftrightarrow> os_step w w' \<and> stuck w' = stuck w"

interpretation step: frame_rel os_step
  by unfold_locales (auto simp: os_step_def)

interpretation calls: frame_rel os_calls
  by unfold_locales (auto simp: os_step_def os_calls_def)

lemma os_calls_imp_step: "os_calls w w' \<Longrightarrow> os_step w w'"
  by (simp add: os_calls_def)

lemma io_calls_imp_step: "state_io_rel os_calls m \<Longrightarrow> state_io_rel os_step m"
  by (auto simp: state_io_rel_def os_calls_def)

lemma os_step_eq:
  "os_step w w' \<Longrightarrow> w' = w\<lparr>errno := errno w', trace := trace w', stuck := stuck w'\<rparr>"
  by (cases w; cases w') (simp add: os_step_def)

text \<open>
  The collections \<open>calls_frame\<close> and \<open>step_frame\<close> gather one frame fact per operation; the
  proof of the next one is \<open>rules\<close> of the locale over these facts.
\<close>

named_theorems calls_frame "operations that only make system calls"
named_theorems step_frame "operations that only make system calls, loops included"

lemma sys_calls [calls_frame]: "state_io_rel os_calls (sys k c)"
  unfolding sys_def
  by (intro calls.rules calls.update) (auto simp: os_calls_def os_step_def)

lemma sys_val_calls [calls_frame]: "state_io_rel os_calls (sys_val k c)"
  unfolding sys_val_def by (intro calls.rules calls_frame)

lemma set_errno_calls [calls_frame]: "state_io_rel os_calls (set_errno e)"
  unfolding set_errno_def by (intro calls.update) (auto simp: os_calls_def os_step_def)

lemma get_errno_calls [calls_frame]: "state_io_rel os_calls get_errno"
  unfolding get_errno_def by (intro calls.rules)

lemma close_all_calls [calls_frame]: "state_io_rel os_calls (close_all k fds)"
  by (induction fds) (auto intro!: calls.rules calls_frame)

lemma set_stuck_step [step_frame]: "state_io_rel os_step set_stuck"
  unfolding set_stuck_def by (intro step.update) (auto simp: os_step_def)

lemma wp_sys [wp_simps]:
  "wp (sys k c) Q = (\<lambda>w. let r = answer k (trace w) c in
     Q r (w\<lparr>trace := (c, r) # trace w,
            errno := (if sr_val r = -1 then sr_errno r else errno w)\<rparr>))"
  by (simp add: sys_def wp_simps Let_def)

lemma wp_sys_val [wp_simps]:
  "wp (sys_val k c) Q = (\<lambda>w. let r = answer k (trace w) c in
     Q (sr_val r) (w\<lparr>trace := (c, r) # trace w,
            errno := (if sr_val r = -1 then sr_errno r else errno w)\<rparr>))"
  by (simp add: sys_val_def wp_simps Let_def)

lemma wp_set_errno [wp_simps]: "wp (set_errno e) Q = (\<lambda>w. Q () (w\<lparr>errno := e\<rparr>))"
  by (simp add: set_errno_def wp_simps)

lemma wp_get_errno [wp_simps]: "wp get_errno Q = (\<lambda>w. Q (errno w) w)"
  by (simp add: get_errno_def wp_simps)

lemma wp_abort_now [wp_simps]: "wp abort_now Q = (\<lambda>w. Q () (w\<lparr>aborted := True\<rparr>))"
  by (simp add: abort_now_def wp_simps)

lemma wp_set_stuck [wp_simps]: "wp set_stuck Q = (\<lambda>w. Q () (w\<lparr>stuck := True\<rparr>))"
  by (simp add: set_stuck_def wp_simps)

text \<open>\<open>close_all\<close> closes exactly the given descriptors, in order.\<close>

lemma close_all_trace:
  "map fst (trace (snd (run_state (close_all k fds) w))) =
     rev (map Sys_close fds) @ map fst (trace w)"
proof (induction fds arbitrary: w)
  case (Cons fd fds)
  then show ?case
    by (simp add: sys_val_def sys_def Let_def)
qed simp

section \<open>Interrupted calls\<close>

text \<open>
  A system call repeated while it is interrupted. The source loops without a bound; the
  model gives up after \<open>retry_fuel\<close> interruptions and says so in \<open>stuck\<close>.
\<close>

definition interrupted_ret :: sysret where
  "interrupted_ret = \<lparr>sr_val = -1, sr_errno = EINTR, sr_out = 0, sr_str = [], sr_data = [],
     sr_cmsgs = [], sr_cred = (0, 0, 0), sr_ints = []\<rparr>"

primrec retry_eintr :: "nat \<Rightarrow> kernel \<Rightarrow> syscall \<Rightarrow> ('a os_scheme, sysret) state" where
  "retry_eintr 0 k c = do { set_stuck; State_Monad.return interrupted_ret }"
| "retry_eintr (Suc n) k c = do {
     r \<leftarrow> sys k c;
     e \<leftarrow> get_errno;
     if sr_val r = -1 \<and> e = EINTR then retry_eintr n k c else State_Monad.return r
   }"

lemma retry_eintr_step [step_frame]: "state_io_rel os_step (retry_eintr n k c)"
  by (induction n) (auto intro!: step.rules step_frame calls_frame [THEN io_calls_imp_step])

text \<open>
  \<open>eintrs k c n h\<close>: from the history \<open>h\<close> on, the call \<open>c\<close> is interrupted \<open>n\<close> times in a row.
  \<open>patient\<close> says that no call is interrupted \<open>retry_fuel\<close> times in a row.
\<close>

primrec eintrs :: "kernel \<Rightarrow> syscall \<Rightarrow> nat \<Rightarrow> history \<Rightarrow> bool" where
  "eintrs k c 0 h = True"
| "eintrs k c (Suc n) h = (let r = answer k h c in
     sr_val r = -1 \<and> sr_errno r = EINTR \<and> eintrs k c n ((c, r) # h))"

definition patient :: "kernel \<Rightarrow> bool" where
  "patient k \<longleftrightarrow> (\<forall>c h. \<not> eintrs k c (retry_fuel k) h)"

lemma patientI:
  assumes "\<And>h c. \<not> (sr_val (answer k h c) = -1 \<and> sr_errno (answer k h c) = EINTR)"
    and "0 < retry_fuel k"
  shows "patient k"
proof -
  obtain n where "retry_fuel k = Suc n" using assms(2) by (cases "retry_fuel k") auto
  with assms(1) show ?thesis by (auto simp: patient_def Let_def)
qed

lemma retry_result:
  "wp (retry_eintr n k c) (\<lambda>r w'. sr_val r \<noteq> -1 \<longrightarrow> (\<exists>h. r = answer k h c)) w"
proof (induction n arbitrary: w)
  case 0
  then show ?case by (simp add: wp_simps interrupted_ret_def)
next
  case (Suc n)
  then show ?case by (auto simp: wp_simps Let_def)
qed

lemma retry_stuck:
  "\<not> eintrs k c n (trace w) \<Longrightarrow> wp (retry_eintr n k c) (\<lambda>r w'. stuck w' = stuck w) w"
proof (induction n arbitrary: w)
  case (Suc n)
  show ?case
  proof (cases "let r = answer k (trace w) c in sr_val r = -1 \<and> sr_errno r = EINTR")
    case True
    with Suc.prems Suc.IH [of "w\<lparr>trace := (c, answer k (trace w) c) # trace w, errno := EINTR\<rparr>"]
    show ?thesis by (simp add: wp_simps Let_def)
  next
    case False
    then show ?thesis by (auto simp: wp_simps Let_def)
  qed
qed simp

section \<open>Which calls a part makes\<close>

definition only_calls :: "(syscall \<Rightarrow> bool) \<Rightarrow> 'a os_scheme \<Rightarrow> 'a os_scheme \<Rightarrow> bool" where
  "only_calls P w w' \<longleftrightarrow> (\<exists>t. trace w' = t @ trace w \<and> (\<forall>(c, r) \<in> set t. P c))"

interpretation only: frame_rel "only_calls P" for P
proof
  show "only_calls P w w" for w :: "'a os_scheme" by (simp add: only_calls_def)
  show "only_calls P u v \<Longrightarrow> only_calls P v w \<Longrightarrow> only_calls P u w" for u v w :: "'a os_scheme"
    unfolding only_calls_def by (elim exE conjE) (rule exI, auto)
qed

lemma only_sys: "P c \<Longrightarrow> state_io_rel (only_calls P) (sys k c)" "P c \<Longrightarrow> state_io_rel (only_calls P) (sys_val k c)"
  unfolding sys_val_def sys_def by (intro only.rules only.update; simp add: only_calls_def Let_def)+

lemma only_other:
  "state_io_rel (only_calls P) get_errno" "state_io_rel (only_calls P) (set_errno e)" "state_io_rel (only_calls P) set_stuck"
  unfolding get_errno_def set_errno_def set_stuck_def by (intro only.rules only.update; simp add: only_calls_def)+

lemma wp_only:
  "state_io_rel (only_calls P) m \<Longrightarrow> (\<And>r w' t. trace w' = t @ trace w \<Longrightarrow> \<forall>(c, r) \<in> set t. P c \<Longrightarrow> Q r w') \<Longrightarrow> wp m Q w"
  by (erule wp_frame) (auto simp: only_calls_def)

lemma wp_call: "(\<And>r w'. trace w' = (c, r) # trace w \<Longrightarrow> Q (sr_val r) w') \<Longrightarrow> wp (sys_val k c) Q w"
  by (simp add: wp_simps Let_def)

lemma wp_call_sys: "(\<And>r w'. trace w' = (c, r) # trace w \<Longrightarrow> Q r w') \<Longrightarrow> wp (sys k c) Q w"
  by (simp add: wp_simps Let_def)

section \<open>Sample kernels\<close>

text \<open>
  Concrete kernels, on which the hypotheses of the theorems are shown to hold: \<open>sample_kernel\<close>
  succeeds with the value 0 unless the given function says otherwise.
\<close>

definition ret :: "int \<Rightarrow> sysret" where
  "ret v = \<lparr>sr_val = v, sr_errno = 0, sr_out = 0, sr_str = [], sr_data = [], sr_cmsgs = [],
     sr_cred = (0, 0, 0), sr_ints = []\<rparr>"

definition ret_fail :: "int \<Rightarrow> sysret" where
  "ret_fail e = (ret (-1))\<lparr>sr_errno := e\<rparr>"

definition sample_kernel :: "(history \<Rightarrow> syscall \<Rightarrow> sysret option) \<Rightarrow> kernel" where
  "sample_kernel f = \<lparr>answer = (\<lambda>h c. case f h c of Some r \<Rightarrow> r | None \<Rightarrow> ret 0),
     retry_fuel = 300, has_hidiocrevoke = True\<rparr>"

definition start_os :: os where
  "start_os = \<lparr>errno = 0, trace = [], aborted = False, stuck = False\<rparr>"

lemma sample_simps [simp]:
  "sr_val (ret v) = v" "sr_errno (ret v) = 0" "sr_data (ret v) = []" "sr_cmsgs (ret v) = []"
  "sr_val (ret_fail e) = -1" "sr_errno (ret_fail e) = e"
  "retry_fuel (sample_kernel f) = 300"
  "answer (sample_kernel f) h c = (case f h c of Some r \<Rightarrow> r | None \<Rightarrow> ret 0)"
  by (simp_all add: ret_def ret_fail_def sample_kernel_def)

end
