(* ===== verification/Getopt.thy ===== *)
theory Getopt
  imports Prelude
begin

text \<open>
  What the programs use of the C library for their command line and for numbers: \<open>getopt\<close>
  with the reordering of the GNU library, \<open>atoi\<close>, \<open>strncpy\<close> into an array of fixed size, the
  conversion \<open>%d\<close> of \<open>printf\<close> with a minimal number of digits, and division.
\<close>

section \<open>getopt\<close>

text \<open>Whether the option string has the option, and whether the option takes an argument.\<close>

fun takes_arg :: "string \<Rightarrow> char \<Rightarrow> bool option" where
  "takes_arg [] c = None"
| "takes_arg (d # ds) c =
     (if d = c \<and> c \<noteq> CHR '':'' then Some (take 1 ds = '':'') else takes_arg ds c)"

text \<open>
  The options with their arguments in the order in which repeated calls return them, and the
  operands that are left. The second argument is the rest of the word being read. An unknown
  option and a missing argument give the option \<open>?\<close>.
\<close>

function getopt :: "string \<Rightarrow> string \<Rightarrow> string list \<Rightarrow> (char \<times> string) list \<times> string list" where
  "getopt os [] [] = ([], [])"
| "getopt os [] (a # as) =
     (if a = ''--'' then ([], as)
      else if take 1 a = ''-'' \<and> a \<noteq> ''-'' then getopt os (tl a) as
      else let (opts, rest) = getopt os [] as in (opts, a # rest))"
| "getopt os (c # cs) as = (case takes_arg os c of
     None \<Rightarrow> let (opts, rest) = getopt os cs as in ((CHR ''?'', []) # opts, rest)
   | Some False \<Rightarrow> let (opts, rest) = getopt os cs as in ((c, []) # opts, rest)
   | Some True \<Rightarrow>
       if cs \<noteq> [] then let (opts, rest) = getopt os [] as in ((c, cs) # opts, rest)
       else (case as of
         [] \<Rightarrow> ([(CHR ''?'', [])], [])
       | a # as' \<Rightarrow> let (opts, rest) = getopt os [] as' in ((c, a) # opts, rest)))"
  by pat_completeness auto
termination
  by (relation "measure (\<lambda>(os, cs, as). length cs + sum_list (map (\<lambda>a. Suc (length a)) as))") auto

text \<open>Every option that is returned is one of the option string, or \<open>?\<close>.\<close>

lemma getopt_known:
  "(c, arg) \<in> set (fst (getopt os cs as)) \<Longrightarrow> c = CHR ''?'' \<or> takes_arg os c \<noteq> None"
proof (induction os cs as rule: getopt.induct)
  case (3 os c' cs as)
  then show ?case
    by (auto split: option.splits bool.splits list.splits prod.splits if_splits)
qed (auto split: prod.splits if_splits)

section \<open>Numbers and arrays\<close>

text \<open>
  \<open>atoi\<close>: blanks, a sign, digits. The value is clamped to the range of \<open>long\<close> and then
  truncated to \<open>int\<close>, as the GNU library does.
\<close>

definition is_blank :: "char \<Rightarrow> bool" where
  "is_blank c \<longleftrightarrow> c = CHR '' '' \<or> (9 \<le> (of_char c :: nat) \<and> (of_char c :: nat) \<le> 13)"

definition digit_of :: "char \<Rightarrow> int option" where
  "digit_of c = (let n = (of_char c :: nat) in if 48 \<le> n \<and> n \<le> 57 then Some (int n - 48) else None)"

fun digits_value :: "int \<Rightarrow> string \<Rightarrow> int" where
  "digits_value n [] = n"
| "digits_value n (c # cs) = (case digit_of c of None \<Rightarrow> n | Some d \<Rightarrow> digits_value (10 * n + d) cs)"

definition atoi :: "string \<Rightarrow> int" where
  "atoi s = (let t = dropWhile is_blank s;
       v = (if take 1 t = ''-'' then - digits_value 0 (tl t)
            else digits_value 0 (if take 1 t = ''+'' then tl t else t))
     in sint (of_int (max (- (2 ^ 63)) (min (2 ^ 63 - 1) v)) :: 32 word))"

text \<open>The string that an array of \<open>n\<close> bytes holds after \<open>strncpy\<close> and a final null byte.\<close>

definition strncpy :: "nat \<Rightarrow> string \<Rightarrow> string" where
  "strncpy n s = take (n - 1) s"

text \<open>The decimal digits of a number, and \<open>%0nd\<close> of \<open>printf\<close>.\<close>

function digits :: "nat \<Rightarrow> string" where
  "digits n = (if n < 10 then [char_of (48 + n)] else digits (n div 10) @ [char_of (48 + n mod 10)])"
  by pat_completeness auto
termination by (relation "measure id") auto

declare digits.simps [simp del]

definition printf_d :: "nat \<Rightarrow> int \<Rightarrow> string" where
  "printf_d width i =
     (let ds = digits (nat (abs i)); sign = (if i < 0 then ''-'' else [])
      in sign @ replicate (width - length sign - length ds) (CHR ''0'') @ ds)"

text \<open>Division of C rounds towards zero.\<close>

definition c_div :: "int \<Rightarrow> int \<Rightarrow> int" where
  "c_div a b = (if a < 0 then - ((- a) div b) else a div b)"

definition c_mod :: "int \<Rightarrow> int \<Rightarrow> int" where
  "c_mod a b = a - c_div a b * b"

text \<open>A number that was printed is read back.\<close>

lemma digit_of_char: "n < 10 \<Longrightarrow> digit_of (char_of (48 + n)) = Some (int n)"
  by (simp add: digit_of_def Let_def)

lemma digits_value_append:
  "\<forall>c \<in> set cs. digit_of c \<noteq> None \<Longrightarrow> digits_value v (cs @ ds) = digits_value (digits_value v cs) ds"
  by (induction cs arbitrary: v) auto

lemma digits_ok: "\<forall>c \<in> set (digits n). digit_of c \<noteq> None"
proof (induction n rule: digits.induct)
  case (1 n)
  then show ?case
    by (subst digits.simps) (use digit_of_char [of n] digit_of_char [of "n mod 10"] in auto)
qed

lemma digits_value_digits: "digits_value 0 (digits n) = int n"
proof (induction n rule: digits.induct)
  case (1 n)
  show ?case
  proof (cases "n < 10")
    case True
    then show ?thesis by (subst digits.simps) (simp add: digit_of_char)
  next
    case False
    then have "digits_value 0 (digits n) = digits_value (int (n div 10)) [char_of (48 + n mod 10)]"
      using 1 by (subst digits.simps) (simp add: digits_value_append digits_ok)
    also have "\<dots> = 10 * int (n div 10) + int (n mod 10)"
      by (simp add: digit_of_char)
    also have "\<dots> = int n" by (simp add: zdiv_int zmod_int)
    finally show ?thesis .
  qed
qed

end
