(* ===== verification/Ring_Buffer.thy ===== *)
theory Ring_Buffer
  imports Kernel
begin

text \<open>
  The ring buffers of \<open>common/connection.c\<close> and \<open>include/connection.h\<close>: 256 bytes each, with
  32-bit indices that count up and wrap. A buffer is specified by the list of bytes it
  holds; the interface \<open>byte_queue\<close> states what every user of a buffer relies on, and the
  I/O vectors handed to the kernel are shown to cover the queued bytes and the free room.
\<close>

section \<open>Ring buffers\<close>

abbreviation (input) "CONNECTION_BUFFER_SIZE \<equiv> (256::nat)"
abbreviation (input) "MAX_FDS \<equiv> (64::nat)" \<comment> \<open>\<open>CONNECTION_BUFFER_SIZE / sizeof(int)\<close>\<close>

record connection_buffer =
  head :: u32
  tail :: u32
  data :: "byte list"

definition empty_buffer :: connection_buffer where
  "empty_buffer = \<lparr>head = 0, tail = 0, data = replicate 256 0\<rparr>"

definition connection_buffer_mask :: "u32 \<Rightarrow> u32" where
  "connection_buffer_mask idx = idx AND 255"

definition connection_buffer_size :: "connection_buffer \<Rightarrow> u32" where
  "connection_buffer_size b = head b - tail b"

definition connection_buffer_consume :: "nat \<Rightarrow> connection_buffer \<Rightarrow> connection_buffer" where
  "connection_buffer_consume n b = b\<lparr>tail := tail b + of_nat n\<rparr>"

definition connection_buffer_restore :: "nat \<Rightarrow> connection_buffer \<Rightarrow> connection_buffer" where
  "connection_buffer_restore n b = b\<lparr>tail := tail b - of_nat n\<rparr>"

text \<open>An I/O vector is a list of offsets into \<open>data\<close> with their lengths.\<close>

definition connection_buffer_get_iov :: "connection_buffer \<Rightarrow> (nat \<times> nat) list" where
  "connection_buffer_get_iov b =
     (let h = unat (connection_buffer_mask (head b)); t = unat (connection_buffer_mask (tail b)) in
      if t < h then [(t, h - t)]
      else if h = 0 then [(t, 256 - t)]
      else [(t, 256 - t), (0, h)])"

definition connection_buffer_put_iov :: "connection_buffer \<Rightarrow> (nat \<times> nat) list" where
  "connection_buffer_put_iov b =
     (let h = unat (connection_buffer_mask (head b)); t = unat (connection_buffer_mask (tail b)) in
      if h < t then [(h, t - h)]
      else if t = 0 then [(h, 256 - h)]
      else [(h, 256 - h), (0, t)])"

text \<open>What the kernel does with a vector: it reads the pieces in order, or fills them in order.\<close>

definition iov_gather :: "byte list \<Rightarrow> (nat \<times> nat) list \<Rightarrow> byte list" where
  "iov_gather d iov = concat (map (\<lambda>(off, len). take len (drop off d)) iov)"

fun iov_scatter :: "byte list \<Rightarrow> (nat \<times> nat) list \<Rightarrow> byte list \<Rightarrow> byte list" where
  "iov_scatter d [] bs = d"
| "iov_scatter d ((off, len) # iov) bs =
     iov_scatter (write_at d off (take len bs)) iov (drop len bs)"

definition iov_room :: "(nat \<times> nat) list \<Rightarrow> nat" where
  "iov_room iov = sum_list (map snd iov)"

definition connection_buffer_copy :: "connection_buffer \<Rightarrow> nat \<Rightarrow> byte list" where
  "connection_buffer_copy b count =
     (let t = unat (connection_buffer_mask (tail b)) in
      if t + count \<le> 256 then take count (drop t (data b))
      else let size = 256 - t in take size (drop t (data b)) @ take (count - size) (data b))"

definition connection_buffer_store :: "connection_buffer \<Rightarrow> byte list \<Rightarrow> connection_buffer" where
  "connection_buffer_store b bs =
     (let h = unat (connection_buffer_mask (head b)); count = length bs;
          d = (if h + count \<le> 256 then write_at (data b) h bs
               else let size = 256 - h in
                 write_at (write_at (data b) h (take size bs)) 0 (drop size bs))
      in b\<lparr>data := d, head := head b + of_nat count\<rparr>)"

definition connection_buffer_put ::
    "connection_buffer \<Rightarrow> byte list \<Rightarrow> ('a os_scheme, int \<times> connection_buffer) state" where
  "connection_buffer_put b bs =
     (if length bs > 256 then do { set_errno EOVERFLOW; State_Monad.return (-1, b) }
      else State_Monad.return (0, connection_buffer_store b bs))"

text \<open>C integers in memory: four bytes, least significant first.\<close>

definition u32_bytes :: "u32 \<Rightarrow> byte list" where
  "u32_bytes w = [ucast w, ucast (drop_bit 8 w), ucast (drop_bit 16 w), ucast (drop_bit 24 w)]"

definition bytes_u32 :: "byte list \<Rightarrow> u32" where
  "bytes_u32 bs = ucast (bs ! 0) OR push_bit 8 (ucast (bs ! 1)) OR
     push_bit 16 (ucast (bs ! 2)) OR push_bit 24 (ucast (bs ! 3))"

definition int_bytes :: "int \<Rightarrow> byte list" where
  "int_bytes i = u32_bytes (word_of_int i)"

definition bytes_int :: "byte list \<Rightarrow> int" where
  "bytes_int bs = sint (bytes_u32 bs)"

fun bytes_ints :: "byte list \<Rightarrow> int list" where
  "bytes_ints (a # b # c # d # bs) = bytes_int [a, b, c, d] # bytes_ints bs"
| "bytes_ints bs = []"

definition connection_buffer_close_fds ::
    "kernel \<Rightarrow> connection_buffer \<Rightarrow> ('a os_scheme, connection_buffer) state" where
  "connection_buffer_close_fds k b =
     (let size = unat (connection_buffer_size b) in
      if size = 0 then State_Monad.return b
      else do {
        let fds = bytes_ints (connection_buffer_copy b size);
        let count = size div 4;
        close_all k (take count fds);
        State_Monad.return (connection_buffer_consume (count * 4) b)
      })"

section \<open>The queue a buffer implements\<close>

definition buffer_ok :: "connection_buffer \<Rightarrow> bool" where
  "buffer_ok b \<longleftrightarrow> length (data b) = 256 \<and> unat (connection_buffer_size b) \<le> 256"

definition contents :: "connection_buffer \<Rightarrow> byte list" where
  "contents b = map (\<lambda>i. data b ! ((unat (tail b) + i) mod 256))
     [0..<unat (connection_buffer_size b)]"

text \<open>
  What the code above the buffers relies on: sizes are lengths, reading returns a prefix,
  consuming drops it, restoring undoes a consume, writing appends.
\<close>

locale byte_queue =
  fixes ok :: "'q \<Rightarrow> bool"
    and abs :: "'q \<Rightarrow> byte list"
    and size :: "'q \<Rightarrow> u32"
    and copy :: "'q \<Rightarrow> nat \<Rightarrow> byte list"
    and consume :: "nat \<Rightarrow> 'q \<Rightarrow> 'q"
    and restore :: "nat \<Rightarrow> 'q \<Rightarrow> 'q"
    and store :: "'q \<Rightarrow> byte list \<Rightarrow> 'q"
  assumes size_abs: "ok q \<Longrightarrow> unat (size q) = length (abs q)"
    and abs_bound: "ok q \<Longrightarrow> length (abs q) \<le> 256"
    and copy_abs: "ok q \<Longrightarrow> n \<le> length (abs q) \<Longrightarrow> copy q n = take n (abs q)"
    and consume_ok: "ok q \<Longrightarrow> n \<le> length (abs q) \<Longrightarrow> ok (consume n q)"
    and consume_abs: "ok q \<Longrightarrow> n \<le> length (abs q) \<Longrightarrow> abs (consume n q) = drop n (abs q)"
    and restore_consume: "restore n (consume n q) = q"
    and store_ok: "ok q \<Longrightarrow> length (abs q) + length bs \<le> 256 \<Longrightarrow> ok (store q bs)"
    and store_abs: "ok q \<Longrightarrow> length (abs q) + length bs \<le> 256 \<Longrightarrow> abs (store q bs) = abs q @ bs"
begin

lemma copy_all: "ok q \<Longrightarrow> copy q (unat (size q)) = abs q"
  by (simp add: size_abs copy_abs)

lemma drain_ok: "ok q \<Longrightarrow> ok (consume (unat (size q)) q)"
  by (simp add: size_abs consume_ok)

lemma drain_abs: "ok q \<Longrightarrow> abs (consume (unat (size q)) q) = []"
  by (simp add: size_abs consume_abs)

text \<open>First in, first out: what was stored behind \<open>xs\<close> is read back after \<open>xs\<close>.\<close>

lemma fifo:
  assumes "ok q" and "length (abs q) + length bs \<le> 256"
  shows "copy (consume (length (abs q)) (store q bs)) (length bs) = bs"
proof -
  have ok: "ok (store q bs)" and abs: "abs (store q bs) = abs q @ bs"
    using assms by (auto intro: store_ok simp: store_abs)
  then have "ok (consume (length (abs q)) (store q bs))"
    and "abs (consume (length (abs q)) (store q bs)) = bs"
    by (auto intro: consume_ok simp: consume_abs)
  then show ?thesis
    by (simp add: copy_abs)
qed

lemma store_store:
  "ok q \<Longrightarrow> length (abs q) + length xs + length ys \<le> 256 \<Longrightarrow>
     abs (store (store q xs) ys) = abs q @ xs @ ys"
  by (simp add: store_ok store_abs)

end

lemma length_contents [simp]: "length (contents b) = unat (connection_buffer_size b)"
  by (simp add: contents_def)

lemma nth_contents:
  "i < unat (connection_buffer_size b) \<Longrightarrow>
     contents b ! i = data b ! ((unat (tail b) + i) mod 256)"
  by (simp add: contents_def)

lemma unat_mask [ring_simps]: "unat (connection_buffer_mask w) = unat w mod 256"
  by (simp add: connection_buffer_mask_def ring_simps)

lemma head_index:
  "unat (head b) mod 256 = (unat (tail b) + unat (connection_buffer_size b)) mod 256"
proof -
  have "head b = tail b + connection_buffer_size b"
    by (simp add: connection_buffer_size_def)
  then show ?thesis
    by (metis unat_plus_mod256)
qed

lemma buffer_size_store:
  assumes "buffer_ok b" and "unat (connection_buffer_size b) + length bs \<le> 256"
  shows "unat (connection_buffer_size (connection_buffer_store b bs)) =
           unat (connection_buffer_size b) + length bs"
proof -
  have n: "unat (of_nat (length bs) :: u32) = length bs"
    using assms(2) by (intro unat_of_nat_small) simp
  have "connection_buffer_size (connection_buffer_store b bs) =
      connection_buffer_size b + of_nat (length bs)"
    by (simp add: connection_buffer_size_def connection_buffer_store_def Let_def)
  then show ?thesis
    using assms(2) n by (simp add: unat_word_ariths)
qed

lemma mask_less: "unat (connection_buffer_mask w) < 256"
  by (simp add: ring_simps)

lemma masked_index:
  assumes "i < 256"
  shows "(unat w + i) mod 256 =
    (let m = unat (connection_buffer_mask w) in if m + i < 256 then m + i else m + i - 256)"
proof -
  have "(unat w + i) mod 256 = (unat (connection_buffer_mask w) + i) mod 256"
    by (simp add: ring_simps mod_add_left_eq)
  then show ?thesis
    using assms mask_less [of w] by (simp add: Let_def ring_index del: mod_add_left_eq)
qed

lemma nth_store_new:
  assumes "length (data b) = 256" and "length bs \<le> 256" and "i < length bs"
  shows "data (connection_buffer_store b bs) ! ((unat (head b) + i) mod 256) = bs ! i"
proof -
  have "i < 256" using assms(2,3) by simp
  note idx = masked_index [OF this, of "head b"]
  show ?thesis
    using assms mask_less [of "head b"] unfolding idx connection_buffer_store_def Let_def
    by (auto simp: nth_write_at)
qed

lemma nth_store_old:
  assumes "length (data b) = 256" and "length bs \<le> i" and "i < 256"
  shows "data (connection_buffer_store b bs) ! ((unat (head b) + i) mod 256) =
           data b ! ((unat (head b) + i) mod 256)"
  using assms mask_less [of "head b"]
  unfolding masked_index [OF assms(3)] connection_buffer_store_def Let_def
  by (auto simp: nth_write_at)

lemma length_store [simp]:
  "length (data b) = 256 \<Longrightarrow> length bs \<le> 256 \<Longrightarrow>
     length (data (connection_buffer_store b bs)) = 256"
  using mask_less [of "head b"] by (auto simp: connection_buffer_store_def Let_def)

lemma tail_store [simp]: "tail (connection_buffer_store b bs) = tail b"
  by (simp add: connection_buffer_store_def Let_def)

lemma buffer_ok_store:
  "buffer_ok b \<Longrightarrow> length (contents b) + length bs \<le> 256 \<Longrightarrow> buffer_ok (connection_buffer_store b bs)"
  using buffer_size_store [of b bs] by (simp add: buffer_ok_def)

lemma contents_store:
  assumes ok: "buffer_ok b" and room: "length (contents b) + length bs \<le> 256"
  shows "contents (connection_buffer_store b bs) = contents b @ bs"
proof (rule nth_equalityI)
  let ?n = "unat (connection_buffer_size b)" and ?b' = "connection_buffer_store b bs"
  have size': "unat (connection_buffer_size ?b') = ?n + length bs"
    using ok room by (simp add: buffer_size_store)
  then show "length (contents ?b') = length (contents b @ bs)"
    by simp
  fix i assume "i < length (contents ?b')"
  then have i: "i < ?n + length bs" by (simp add: size')
  have at: "contents ?b' ! i = data ?b' ! ((unat (tail b) + i) mod 256)"
    using i by (simp add: nth_contents size')
  show "contents ?b' ! i = (contents b @ bs) ! i"
  proof (cases "i < ?n")
    case True
    \<comment> \<open>an old byte sits \<open>256 - n + i\<close> places after the head\<close>
    have "(unat (tail b) + i) mod 256 = (unat (tail b) + ?n + (256 - ?n + i)) mod 256"
      using ok mod_add_self2 [of "unat (tail b) + i" 256]
      by (simp add: buffer_ok_def ac_simps del: mod_add_self2)
    also have "\<dots> = (unat (head b) + (256 - ?n + i)) mod 256"
      using head_index [of b] by (metis mod_add_left_eq)
    finally have "data ?b' ! ((unat (tail b) + i) mod 256) = data b ! ((unat (tail b) + i) mod 256)"
      using nth_store_old [of b bs "256 - ?n + i"] True ok room by (simp add: buffer_ok_def)
    with at True show ?thesis
      by (simp add: nth_append nth_contents)
  next
    case False
    have "(unat (tail b) + i) mod 256 = (unat (tail b) + ?n + (i - ?n)) mod 256"
      using False by simp
    also have "\<dots> = (unat (head b) + (i - ?n)) mod 256"
      using head_index [of b] by (metis mod_add_left_eq)
    finally show ?thesis
      using nth_store_new [of b bs "i - ?n"] False i ok room at
      by (simp add: buffer_ok_def nth_append)
  qed
qed

lemma size_consume:
  assumes "n \<le> length (contents b)"
  shows "unat (connection_buffer_size (connection_buffer_consume n b)) = length (contents b) - n"
proof -
  have lt: "n < 2 ^ 32"
    using assms unsigned_less [of "connection_buffer_size b", where ?'a = nat] by simp
  have "connection_buffer_size (connection_buffer_consume n b) = connection_buffer_size b - of_nat n"
    by (simp add: connection_buffer_size_def connection_buffer_consume_def)
  then show ?thesis
    using assms unat_of_nat_small [OF lt]
    by (simp add: unat_sub word_le_nat_alt)
qed

lemma buffer_ok_consume:
  "buffer_ok b \<Longrightarrow> n \<le> length (contents b) \<Longrightarrow> buffer_ok (connection_buffer_consume n b)"
  using size_consume [of n b] by (auto simp: buffer_ok_def) (simp add: connection_buffer_consume_def)

lemma contents_consume:
  assumes "buffer_ok b" and "n \<le> length (contents b)"
  shows "contents (connection_buffer_consume n b) = drop n (contents b)"
proof (rule nth_equalityI)
  let ?b' = "connection_buffer_consume n b"
  show "length (contents ?b') = length (drop n (contents b))"
    using assms(2) size_consume by simp
  fix i assume "i < length (contents ?b')"
  then have i: "i < unat (connection_buffer_size b) - n"
    using assms(2) size_consume by simp
  have "(unat (tail b + of_nat n) + i) mod 256 = (unat (tail b) + n + i) mod 256"
  proof -
    have "unat (of_nat n :: u32) = n"
      using assms by (intro unat_of_nat_small) (auto simp: buffer_ok_def)
    then show ?thesis
      using unat_plus_mod256 [of "tail b" "of_nat n"] by (metis mod_add_left_eq)
  qed
  then show "contents ?b' ! i = drop n (contents b) ! i"
    using i assms size_consume [of n b]
    by (simp add: nth_contents connection_buffer_consume_def add.assoc)
qed

lemma copy_contents:
  assumes "buffer_ok b" and "n \<le> length (contents b)"
  shows "connection_buffer_copy b n = take n (contents b)"
proof (rule nth_equalityI)
  let ?t = "unat (connection_buffer_mask (tail b))"
  have n: "n \<le> 256" and len: "length (data b) = 256"
    using assms by (auto simp: buffer_ok_def)
  show "length (connection_buffer_copy b n) = length (take n (contents b))"
    using assms n len mask_less [of "tail b"] by (auto simp: connection_buffer_copy_def Let_def)
  fix i assume "i < length (connection_buffer_copy b n)"
  then have i: "i < n"
    using n len mask_less [of "tail b"]
    by (auto simp: connection_buffer_copy_def Let_def split: if_splits)
  then have "i < 256" using n by simp
  then have "contents b ! i = data b ! (if ?t + i < 256 then ?t + i else ?t + i - 256)"
    using i assms(2) by (simp add: nth_contents masked_index Let_def)
  then show "connection_buffer_copy b n ! i = take n (contents b) ! i"
    using i assms n len mask_less [of "tail b"]
    by (auto simp: connection_buffer_copy_def Let_def nth_append add.commute)
qed

lemma restore_consume [simp]: "connection_buffer_restore n (connection_buffer_consume n b) = b"
  by (simp add: connection_buffer_restore_def connection_buffer_consume_def)

interpretation ring: byte_queue buffer_ok contents connection_buffer_size connection_buffer_copy
    connection_buffer_consume connection_buffer_restore connection_buffer_store
  by unfold_locales
    (simp_all add: copy_contents contents_consume contents_store buffer_ok_consume buffer_ok_store,
      simp add: buffer_ok_def)

lemma empty_buffer_ok [simp]: "buffer_ok empty_buffer" "contents empty_buffer = []"
  by (simp_all add: empty_buffer_def buffer_ok_def contents_def connection_buffer_size_def)

section \<open>I/O vectors\<close>

text \<open>
  With \<open>t\<close> and \<open>h\<close> the masked indices, a buffer that is neither empty nor full holds
  \<open>h - t\<close> bytes when \<open>t < h\<close> and wraps otherwise.
\<close>

lemma masked_head:
  assumes "buffer_ok b" and "unat (connection_buffer_size b) < 256"
  shows "let h = unat (connection_buffer_mask (head b)); t = unat (connection_buffer_mask (tail b));
           n = unat (connection_buffer_size b)
         in h = (if t + n < 256 then t + n else t + n - 256)"
proof -
  have "unat (connection_buffer_mask (head b)) =
      (unat (tail b) + unat (connection_buffer_size b)) mod 256"
    using head_index [of b] by (simp add: ring_simps)
  then show ?thesis
    using masked_index [OF assms(2), of "tail b"] by (simp add: Let_def)
qed

lemma masked_head_full:
  assumes "unat (connection_buffer_size b) = 256"
  shows "unat (connection_buffer_mask (head b)) = unat (connection_buffer_mask (tail b))"
  using head_index [of b] assms by (simp add: ring_simps)

lemma gather_contents:
  assumes ok: "buffer_ok b" and "contents b \<noteq> []"
  shows "iov_gather (data b) (connection_buffer_get_iov b) = contents b"
proof -
  let ?n = "unat (connection_buffer_size b)" and ?t = "unat (connection_buffer_mask (tail b))"
  have n: "0 < ?n" "?n \<le> 256" and len: "length (data b) = 256"
    using assms by (auto simp: buffer_ok_def simp flip: length_greater_0_conv)
  have "iov_gather (data b) (connection_buffer_get_iov b) = connection_buffer_copy b ?n"
  proof (cases "?n = 256")
    case True
    then show ?thesis
      using masked_head_full [OF True] mask_less [of "tail b"] len
      by (auto simp: iov_gather_def connection_buffer_get_iov_def connection_buffer_copy_def Let_def)
  next
    case False
    then have "?n < 256" using n by simp
    from masked_head [OF ok this] show ?thesis
      using n mask_less [of "tail b"] len
      by (auto simp: iov_gather_def connection_buffer_get_iov_def connection_buffer_copy_def Let_def
          add.commute split: if_splits)
  qed
  then show ?thesis
    using ok by (simp add: ring.copy_all)
qed

lemma put_iov_room:
  assumes ok: "buffer_ok b" and "unat (connection_buffer_size b) < 256"
  shows "iov_room (connection_buffer_put_iov b) = 256 - unat (connection_buffer_size b)"
  using masked_head [OF assms] mask_less [of "tail b"] assms(2)
  by (auto simp: iov_room_def connection_buffer_put_iov_def Let_def split: if_splits)

lemma scatter_store:
  assumes ok: "buffer_ok b" and "unat (connection_buffer_size b) < 256"
    and room: "unat (connection_buffer_size b) + length bs \<le> 256"
  shows "iov_scatter (data b) (connection_buffer_put_iov b) bs = data (connection_buffer_store b bs)"
  using masked_head [OF assms(1,2)] mask_less [of "tail b"] assms
  by (auto simp: connection_buffer_put_iov_def connection_buffer_store_def Let_def buffer_ok_def
      split: if_splits)

section \<open>Integers in the descriptor buffers\<close>

lemma length_u32_bytes [simp]: "length (u32_bytes w) = 4"
  by (simp add: u32_bytes_def)

lemma length_int_bytes [simp]: "length (int_bytes i) = 4"
  by (simp add: int_bytes_def)

lemma bytes_u32_bytes [simp]: "bytes_u32 (u32_bytes w) = w"
proof (rule bit_word_eqI)
  fix n :: nat
  assume "n < LENGTH(32)"
  then consider "n < 8" | "8 \<le> n" "n < 16" | "16 \<le> n" "n < 24" | "24 \<le> n" "n < 32"
    by fastforce
  then show "bit (bytes_u32 (u32_bytes w)) n = bit w n"
    by cases (auto simp: bytes_u32_def u32_bytes_def bit_simps)
qed

lemma bytes_int_bytes:
  "- (2 ^ 31) \<le> i \<Longrightarrow> i < 2 ^ 31 \<Longrightarrow> bytes_int (int_bytes i) = i"
  by (simp add: bytes_int_def int_bytes_def sint_sbintrunc' signed_take_bit_int_eq_self)

lemma bytes_ints_append4: "length xs = 4 \<Longrightarrow> bytes_ints (xs @ ys) = bytes_int xs # bytes_ints ys"
  by (auto simp: numeral_eq_Suc length_Suc_conv)

lemma length_bytes_ints [simp]: "length (bytes_ints bs) = length bs div 4"
  by (induction bs rule: bytes_ints.induct) auto

text \<open>From here on, sizes are read as lengths of the queue.\<close>

declare length_contents [simp del]

lemma size_contents [simp]: "unat (connection_buffer_size b) = length (contents b)"
  by (simp add: length_contents)

end
