(* ===== verification/Connection.thy ===== *)
theory Connection
  imports Ring_Buffer
begin

text \<open>
  \<open>common/connection.c\<close>: a connection is a socket with two byte buffers and two buffers of
  file descriptors in transit. The operations read from the socket, flush to it, and move
  messages in and out of the buffers.
\<close>

section \<open>The connection and its operations\<close>

record connection =
  cin :: connection_buffer
  cout :: connection_buffer
  fds_in :: connection_buffer
  fds_out :: connection_buffer
  conn_fd :: int
  want_flush :: bool

definition new_connection :: "int \<Rightarrow> connection" where
  "new_connection fd = \<lparr>cin = empty_buffer, cout = empty_buffer, fds_in = empty_buffer,
     fds_out = empty_buffer, conn_fd = fd, want_flush = False\<rparr>"

text \<open>The bytes \<open>build_cmsg\<close> copies into the control message, none when it builds no message.\<close>

definition build_cmsg :: "connection_buffer \<Rightarrow> byte list" where
  "build_cmsg b =
     (let size = unat (connection_buffer_size b);
          size = (if size > MAX_FDS * 4 then MAX_FDS * 4 else size)
      in if size \<le> 0 then [] else connection_buffer_copy b size)"

text \<open>The loop of \<open>decode_cmsg\<close> over the received control messages.\<close>

primrec decode_cmsgs ::
    "kernel \<Rightarrow> cmsg list \<Rightarrow> bool \<Rightarrow> connection_buffer \<Rightarrow> ('a os_scheme, int \<times> connection_buffer) state"
where
  "decode_cmsgs k [] overflow b =
     (if overflow then do { set_errno EOVERFLOW; State_Monad.return (-1, b) }
      else State_Monad.return (0, b))"
| "decode_cmsgs k (m # ms) overflow b =
     (if cmsg_level m \<noteq> SOL_SOCKET \<or> cmsg_type m \<noteq> SCM_RIGHTS then decode_cmsgs k ms overflow b
      else
        let size = length (cmsg_data m); max = 256 - unat (connection_buffer_size b) in
        if size > max \<or> overflow then do {
          close_all k (bytes_ints (cmsg_data m));
          decode_cmsgs k ms True b
        }
        else do {
          (r, b') \<leftarrow> connection_buffer_put b (cmsg_data m);
          if r < 0 then State_Monad.return (-1, b') else decode_cmsgs k ms overflow b'
        })"

definition decode_cmsg ::
    "kernel \<Rightarrow> connection_buffer \<Rightarrow> cmsg list \<Rightarrow> ('a os_scheme, int \<times> connection_buffer) state" where
  "decode_cmsg k b ms = decode_cmsgs k ms False b"

definition connection_read :: "kernel \<Rightarrow> connection \<Rightarrow> ('a os_scheme, int \<times> connection) state" where
  "connection_read k c =
     (if unat (connection_buffer_size (cin c)) \<ge> 256 then do {
        set_errno EOVERFLOW;
        State_Monad.return (-1, c)
      } else do {
        let iov = connection_buffer_put_iov (cin c);
        r \<leftarrow> retry_eintr (retry_fuel k) k (Sys_recvmsg (conn_fd c) (iov_room iov));
        if sr_val r = -1 then State_Monad.return (-1, c)
        else do {
          let c = c\<lparr>cin := (cin c)\<lparr>data := iov_scatter (data (cin c)) iov (sr_data r)\<rparr>\<rparr>;
          (d, fds) \<leftarrow> decode_cmsg k (fds_in c) (sr_cmsgs r);
          let c = c\<lparr>fds_in := fds\<rparr>;
          if d \<noteq> 0 then State_Monad.return (-1, c)
          else do {
            let c = c\<lparr>cin := (cin c)\<lparr>head := head (cin c) + of_int (sr_val r)\<rparr>\<rparr>;
            State_Monad.return (sint (connection_buffer_size (cin c)), c)
          }
        }
      })"

primrec flush_loop :: "nat \<Rightarrow> kernel \<Rightarrow> connection \<Rightarrow> ('a os_scheme, int \<times> connection) state" where
  "flush_loop 0 k c = do { set_stuck; State_Monad.return (-1, c) }"
| "flush_loop (Suc n) k c =
     (if head (cout c) - tail (cout c) > 0 then do {
        let bs = iov_gather (data (cout c)) (connection_buffer_get_iov (cout c));
        r \<leftarrow> retry_eintr (retry_fuel k) k
               (Sys_sendmsg (conn_fd c) bs (build_cmsg (fds_out c)));
        if sr_val r = -1 then State_Monad.return (-1, c)
        else do {
          fds \<leftarrow> connection_buffer_close_fds k (fds_out c);
          flush_loop n k (c\<lparr>fds_out := fds,
            cout := (cout c)\<lparr>tail := tail (cout c) + of_int (sr_val r)\<rparr>\<rparr>)
        }
      } else State_Monad.return (0, c))"

definition connection_flush :: "kernel \<Rightarrow> connection \<Rightarrow> ('a os_scheme, int \<times> connection) state" where
  "connection_flush k c =
     (if \<not> want_flush c then State_Monad.return (0, c)
      else do {
        let t = tail (cout c);
        (r, c) \<leftarrow> flush_loop (retry_fuel k) k c;
        if r = -1 then State_Monad.return (-1, c)
        else State_Monad.return (sint (head (cout c) - t), c\<lparr>want_flush := False\<rparr>)
      })"

definition connection_put ::
    "kernel \<Rightarrow> connection \<Rightarrow> byte list \<Rightarrow> ('a os_scheme, int \<times> connection) state" where
  "connection_put k c bs = do {
     (r, c) \<leftarrow> (if unat (connection_buffer_size (cout c)) + length bs > CONNECTION_BUFFER_SIZE
                then connection_flush k (c\<lparr>want_flush := True\<rparr>)
                else State_Monad.return (0, c));
     if r = -1 then State_Monad.return (-1, c)
     else do {
       (r, b) \<leftarrow> connection_buffer_put (cout c) bs;
       if r = -1 then State_Monad.return (-1, c)
       else State_Monad.return (0, c\<lparr>cout := b, want_flush := True\<rparr>)
     }
   }"

definition connection_put_fd :: "connection \<Rightarrow> int \<Rightarrow> ('a os_scheme, int \<times> connection) state" where
  "connection_put_fd c fd =
     (if unat (connection_buffer_size (fds_out c)) \<ge> MAX_FDS * 4 then do {
        set_errno EOVERFLOW;
        State_Monad.return (-1, c)
      } else do {
        (r, b) \<leftarrow> connection_buffer_put (fds_out c) (int_bytes fd);
        State_Monad.return (r, c\<lparr>fds_out := b\<rparr>)
      })"

text \<open>\<open>None\<close> is the return value \<open>-1\<close>; \<open>Some bs\<close> are the bytes copied to the destination.\<close>

definition connection_get ::
    "connection \<Rightarrow> nat \<Rightarrow> ('a os_scheme, byte list option \<times> connection) state" where
  "connection_get c count =
     (if count > unat (connection_buffer_size (cin c)) then do {
        set_errno EAGAIN;
        State_Monad.return (None, c)
      } else
        State_Monad.return (Some (connection_buffer_copy (cin c) count),
          c\<lparr>cin := connection_buffer_consume count (cin c)\<rparr>))"

definition connection_get_fd :: "connection \<Rightarrow> ('a os_scheme, int option \<times> connection) state" where
  "connection_get_fd c =
     (if 4 > unat (connection_buffer_size (fds_in c)) then do {
        set_errno EAGAIN;
        State_Monad.return (None, c)
      } else
        State_Monad.return (Some (bytes_int (connection_buffer_copy (fds_in c) 4)),
          c\<lparr>fds_in := connection_buffer_consume 4 (fds_in c)\<rparr>))"

definition connection_close_fds :: "kernel \<Rightarrow> connection \<Rightarrow> ('a os_scheme, connection) state" where
  "connection_close_fds k c = do {
     i \<leftarrow> connection_buffer_close_fds k (fds_in c);
     out \<leftarrow> connection_buffer_close_fds k (fds_out c);
     State_Monad.return (c\<lparr>fds_in := i, fds_out := out\<rparr>)
   }"

definition connection_pending :: "connection \<Rightarrow> nat" where
  "connection_pending c = unat (connection_buffer_size (cin c))"

definition connection_restore :: "connection \<Rightarrow> nat \<Rightarrow> connection" where
  "connection_restore c count = c\<lparr>cin := connection_buffer_restore count (cin c)\<rparr>"

section \<open>Frames\<close>

lemma connection_buffer_put_calls [calls_frame]: "state_io_rel os_calls (connection_buffer_put b bs)"
  unfolding connection_buffer_put_def by (intro calls.rules calls_frame)

lemma connection_buffer_close_fds_calls [calls_frame]:
  "state_io_rel os_calls (connection_buffer_close_fds k b)"
  unfolding connection_buffer_close_fds_def by (intro calls.rules calls_frame)

lemma decode_cmsgs_calls [calls_frame]: "state_io_rel os_calls (decode_cmsgs k ms overflow b)"
  by (induction ms arbitrary: overflow b) (auto intro!: calls.rules calls_frame simp: Let_def)

lemma decode_cmsg_calls [calls_frame]: "state_io_rel os_calls (decode_cmsg k b ms)"
  unfolding decode_cmsg_def by (intro calls_frame)

lemma connection_read_step [step_frame]: "state_io_rel os_step (connection_read k c)"
  unfolding connection_read_def by (intro step.rules step_frame calls_frame [THEN io_calls_imp_step])

lemma flush_loop_step [step_frame]: "state_io_rel os_step (flush_loop n k c)"
  by (induction n arbitrary: c) (auto intro!: step.rules step_frame calls_frame [THEN io_calls_imp_step] simp: Let_def)

lemma connection_flush_step [step_frame]: "state_io_rel os_step (connection_flush k c)"
  unfolding connection_flush_def by (intro step.rules step_frame calls_frame [THEN io_calls_imp_step])

lemma connection_put_step [step_frame]: "state_io_rel os_step (connection_put k c bs)"
  unfolding connection_put_def by (intro step.rules step_frame calls_frame [THEN io_calls_imp_step])

lemma connection_put_fd_calls [calls_frame]: "state_io_rel os_calls (connection_put_fd c fd)"
  unfolding connection_put_fd_def by (intro calls.rules calls_frame)

lemma connection_get_calls [calls_frame]: "state_io_rel os_calls (connection_get c n)"
  unfolding connection_get_def by (intro calls.rules calls_frame)

lemma connection_get_fd_calls [calls_frame]: "state_io_rel os_calls (connection_get_fd c)"
  unfolding connection_get_fd_def by (intro calls.rules calls_frame)

lemma connection_close_fds_calls [calls_frame]: "state_io_rel os_calls (connection_close_fds k c)"
  unfolding connection_close_fds_def by (intro calls.rules calls_frame)

section \<open>What the kernel promises\<close>

text \<open>
  The documented behaviour of \<open>recvmsg\<close> and \<open>sendmsg\<close> on a stream socket that the code
  relies on: a successful \<open>recvmsg\<close> stores as many bytes as it returns and no more than the
  vectors hold; a successful \<open>sendmsg\<close> of some bytes takes at least one and at most all of
  them.
\<close>

definition recv_ok :: "kernel \<Rightarrow> bool" where
  "recv_ok k \<longleftrightarrow> (\<forall>h fd n. let r = answer k h (Sys_recvmsg fd n) in
     sr_val r \<noteq> -1 \<longrightarrow> sr_val r = int (length (sr_data r)) \<and> length (sr_data r) \<le> n)"

definition send_ok :: "kernel \<Rightarrow> bool" where
  "send_ok k \<longleftrightarrow> (\<forall>h fd bs fds. let r = answer k h (Sys_sendmsg fd bs fds) in
     bs \<noteq> [] \<longrightarrow> sr_val r \<noteq> -1 \<longrightarrow> 0 < sr_val r \<and> sr_val r \<le> int (length bs))"

section \<open>Well-formed connections\<close>

definition conn_ok :: "connection \<Rightarrow> bool" where
  "conn_ok c \<longleftrightarrow> buffer_ok (cin c) \<and> buffer_ok (cout c) \<and> buffer_ok (fds_in c) \<and>
     buffer_ok (fds_out c) \<and> 4 dvd length (contents (fds_out c))"

lemma new_connection_ok: "conn_ok (new_connection fd)"
  by (simp add: conn_ok_def new_connection_def)

lemma sint_small_u32: "unat (w::u32) \<le> 256 \<Longrightarrow> sint w = int (unat w)"
proof -
  assume "unat w \<le> 256"
  then have "uint w < 2 ^ 31" by (simp add: uint_nat del: of_nat_unat)
  moreover have "- (2 ^ 31) \<le> uint w"
    using uint_ge_0 [of w] by (rule order_trans [rotated]) simp
  ultimately have "signed_take_bit 31 (uint w) = uint w"
    by (intro signed_take_bit_int_eq_self)
  then show "sint w = int (unat w)"
    by (simp add: sint_uint)
qed

lemma close_fds_ok:
  assumes "buffer_ok b" and "4 dvd length (contents b)"
  shows "wp (connection_buffer_close_fds k b) (\<lambda>b' w'. buffer_ok b' \<and> contents b' = []) w"
proof (cases "contents b = []")
  case True
  with assms show ?thesis
    by (simp add: connection_buffer_close_fds_def wp_simps)
next
  case False
  moreover have "length (contents b) div 4 * 4 = length (contents b)"
    using assms(2) by simp
  ultimately show ?thesis
    using assms
    by (auto simp: connection_buffer_close_fds_def wp_simps ring.consume_ok ring.consume_abs
        intro: wp_frame [OF close_all_calls])
qed

section \<open>Socket traffic\<close>

text \<open>The bytes a socket took from the program, and gave to it, oldest first.\<close>

fun call_sent :: "int \<Rightarrow> syscall \<times> sysret \<Rightarrow> byte list" where
  "call_sent fd (Sys_sendmsg fd' bs fds, r) =
     (if fd' = fd \<and> sr_val r \<noteq> -1 then take (nat (sr_val r)) bs else [])"
| "call_sent fd _ = []"

fun call_recvd :: "int \<Rightarrow> syscall \<times> sysret \<Rightarrow> byte list" where
  "call_recvd fd (Sys_recvmsg fd' n, r) = (if fd' = fd \<and> sr_val r \<noteq> -1 then sr_data r else [])"
| "call_recvd fd _ = []"

definition sent_on :: "int \<Rightarrow> history \<Rightarrow> byte list" where
  "sent_on fd h = concat (map (call_sent fd) (rev h))"

definition recvd_on :: "int \<Rightarrow> history \<Rightarrow> byte list" where
  "recvd_on fd h = concat (map (call_recvd fd) (rev h))"

lemma sent_on_Cons [simp]: "sent_on fd (x # h) = sent_on fd h @ call_sent fd x"
  by (simp add: sent_on_def)

lemma recvd_on_Cons [simp]: "recvd_on fd (x # h) = recvd_on fd h @ call_recvd fd x"
  by (simp add: recvd_on_def)

definition quiet :: "'a os_scheme \<Rightarrow> 'a os_scheme \<Rightarrow> bool" where
  "quiet w w' \<longleftrightarrow> os_calls w w' \<and>
     (\<forall>fd. sent_on fd (trace w') = sent_on fd (trace w) \<and> recvd_on fd (trace w') = recvd_on fd (trace w))"

interpretation quiet: frame_rel quiet
  by unfold_locales (auto simp: quiet_def intro: calls.refl calls.trans)

named_theorems quiet_frame "operations without socket traffic"

lemma set_errno_quiet [quiet_frame]: "state_io_rel quiet (set_errno e)"
  unfolding set_errno_def by (intro quiet.update) (auto simp: quiet_def os_calls_def os_step_def)

lemma close_quiet [quiet_frame]: "state_io_rel quiet (sys_val k (Sys_close fd))"
  unfolding sys_val_def sys_def
  by (intro quiet.rules quiet.update) (auto simp: quiet_def os_calls_def os_step_def)

lemma close_all_quiet [quiet_frame]: "state_io_rel quiet (close_all k fds)"
  by (induction fds) (auto intro!: quiet.rules quiet_frame)

lemma connection_buffer_put_quiet [quiet_frame]: "state_io_rel quiet (connection_buffer_put b bs)"
  unfolding connection_buffer_put_def by (intro quiet.rules quiet_frame)

lemma connection_buffer_close_fds_quiet [quiet_frame]:
  "state_io_rel quiet (connection_buffer_close_fds k b)"
  unfolding connection_buffer_close_fds_def by (intro quiet.rules quiet_frame)

lemma decode_cmsg_quiet [quiet_frame]: "state_io_rel quiet (decode_cmsg k b ms)"
proof -
  have "state_io_rel quiet (decode_cmsgs k ms overflow b)" for overflow
    by (induction ms arbitrary: overflow b) (auto intro!: quiet.rules quiet_frame simp: Let_def)
  then show ?thesis by (simp add: decode_cmsg_def)
qed

text \<open>A retried call adds to the traffic what its last try adds.\<close>

lemma retry_traffic:
  "wp (retry_eintr n k c) (\<lambda>r w'. \<forall>fd.
     sent_on fd (trace w') = sent_on fd (trace w) @ call_sent fd (c, r) \<and>
     recvd_on fd (trace w') = recvd_on fd (trace w) @ call_recvd fd (c, r)) w"
proof (induction n arbitrary: w)
  case 0
  show ?case by (cases c) (simp_all add: wp_simps interrupted_ret_def)
next
  case (Suc n)
  have failed: "sr_val r = -1 \<Longrightarrow> call_sent fd (c, r) = [] \<and> call_recvd fd (c, r) = []" for r fd
    by (cases c) auto
  show ?case
    using Suc.IH [of "w\<lparr>trace := (c, answer k (trace w) c) # trace w, errno := EINTR\<rparr>"] failed
    by (auto simp: wp_simps Let_def)
qed

section \<open>Reading\<close>

lemma decode_cmsgs_ok:
  "buffer_ok b \<Longrightarrow> wp (decode_cmsgs k ms overflow b) (\<lambda>(r, b') w'. buffer_ok b' \<and> (r = 0 \<or> r = -1)) w"
proof (induction ms arbitrary: overflow b w)
  case (Cons m ms)
  have "buffer_ok (connection_buffer_store b (cmsg_data m))"
    if "length (cmsg_data m) \<le> 256 - unat (connection_buffer_size b)"
    using that Cons.prems ring.abs_bound [OF Cons.prems] by (intro ring.store_ok) auto
  then show ?case
    using Cons
    by (auto simp: wp_simps Let_def connection_buffer_put_def intro!: wp_frame [OF close_all_calls])
qed (auto simp: wp_simps)

lemma decode_cmsg_wp:
  assumes "buffer_ok b"
  shows "wp (decode_cmsg k b ms) (\<lambda>(d, b') w'. buffer_ok b' \<and> (d = 0 \<or> d = -1) \<and> quiet w w') w"
  using decode_cmsgs_ok [OF assms] wp_frame [OF decode_cmsg_quiet, of w "\<lambda>_. quiet w"]
  unfolding decode_cmsg_def by (rule wp_both) auto

lemma recvmsg_wp:
  assumes "recv_ok k"
  shows "wp (retry_eintr n k (Sys_recvmsg fd room)) (\<lambda>r w'. sr_val r \<noteq> -1 \<longrightarrow>
     sr_val r = int (length (sr_data r)) \<and> length (sr_data r) \<le> room \<and>
     recvd_on fd (trace w') = recvd_on fd (trace w) @ sr_data r) w"
  using retry_result retry_traffic
  by (rule wp_both) (use assms in \<open>auto simp: recv_ok_def Let_def\<close>)

text \<open>The bytes \<open>recvmsg\<close> scattered and the new head are one store at the end of the buffer.\<close>

lemma scatter_head_store:
  assumes "buffer_ok b" and "unat (connection_buffer_size b) < 256"
    and "length bs \<le> 256 - unat (connection_buffer_size b)"
  shows "b\<lparr>data := iov_scatter (data b) (connection_buffer_put_iov b) bs,
           head := head b + of_nat (length bs)\<rparr> = connection_buffer_store b bs"
  using scatter_store [OF assms(1,2), of bs] assms(2,3) by (simp add: connection_buffer_store_def Let_def)

lemma buffer_ok_data:
  assumes "buffer_ok b" and "unat (connection_buffer_size b) < 256"
    and "length bs \<le> 256 - unat (connection_buffer_size b)"
  shows "buffer_ok (b\<lparr>data := iov_scatter (data b) (connection_buffer_put_iov b) bs\<rparr>)"
  using assms scatter_store [OF assms(1,2), of bs] length_store [of b bs]
  by (simp add: buffer_ok_def connection_buffer_size_def)

lemma sint_buffer_size: "buffer_ok b \<Longrightarrow> sint (connection_buffer_size b) = int (length (contents b))"
  using ring.abs_bound [of b] by (simp add: sint_small_u32)

lemma connection_read_wp:
  assumes ok: "conn_ok c" and recv: "recv_ok k"
  shows "wp (connection_read k c) (\<lambda>(r, c') w'. conn_ok c' \<and> (r = -1 \<or>
    (\<exists>bs. recvd_on (conn_fd c) (trace w') = recvd_on (conn_fd c) (trace w) @ bs \<and>
       contents (cin c') = contents (cin c) @ bs \<and> r = int (length (contents (cin c')))))) w"
proof (cases "unat (connection_buffer_size (cin c)) < 256")
  case True
  have bin: "buffer_ok (cin c)" and fds: "buffer_ok (fds_in c)"
    using ok by (auto simp: conn_ok_def)
  have store: "buffer_ok (connection_buffer_store (cin c) bs)"
      "contents (connection_buffer_store (cin c) bs) = contents (cin c) @ bs"
    if "length bs \<le> 256 - unat (connection_buffer_size (cin c))" for bs
    using that bin True by (auto simp: ring.store_ok ring.store_abs)
  show ?thesis
    using True ok bin
    by (auto simp: connection_read_def wp_simps put_iov_room conn_ok_def scatter_head_store
        buffer_ok_data store sint_buffer_size quiet_def
        intro!: wp_mono [OF recvmsg_wp [OF recv]] wp_mono [OF decode_cmsg_wp [OF fds]])
next
  case False
  with ok show ?thesis
    by (simp add: connection_read_def wp_simps)
qed

text \<open>C32: \<open>connection_read\<close> keeps the connection well formed; it returns \<open>-1\<close>, or it appends
  exactly the bytes that \<open>recvmsg\<close> delivered to the input buffer and returns the number of
  bytes now pending there.\<close>

theorem connection_read_appends:
  assumes "conn_ok c" and "recv_ok k"
    and "run_state (connection_read k c) w = ((r, c'), w')"
  shows "conn_ok c' \<and> (r = -1 \<or>
    (\<exists>bs. recvd_on (conn_fd c) (trace w') = recvd_on (conn_fd c) (trace w) @ bs \<and>
       contents (cin c') = contents (cin c) @ bs \<and> r = int (length (contents (cin c')))))"
  using wpD [OF connection_read_wp [OF assms(1,2)] assms(3)] by simp

section \<open>Flushing\<close>

lemma sendmsg_wp:
  assumes "send_ok k" and "bs \<noteq> []"
  shows "wp (retry_eintr n k (Sys_sendmsg fd bs fds)) (\<lambda>r w'.
     sent_on fd (trace w') = sent_on fd (trace w) @ (if sr_val r = -1 then [] else take (nat (sr_val r)) bs) \<and>
     (sr_val r \<noteq> -1 \<longrightarrow> 0 < sr_val r \<and> sr_val r \<le> int (length bs))) w"
  using retry_result retry_traffic
  by (rule wp_both) (use assms in \<open>auto simp: send_ok_def Let_def\<close>)

lemma close_fds_wp:
  assumes "buffer_ok b" and "4 dvd length (contents b)"
  shows "wp (connection_buffer_close_fds k b)
    (\<lambda>b' w'. buffer_ok b' \<and> contents b' = [] \<and> quiet w w') w"
  using close_fds_ok [OF assms] wp_frame [OF connection_buffer_close_fds_quiet, of w "\<lambda>_. quiet w"]
  by (rule wp_both) auto

text \<open>Advancing the tail by what \<open>sendmsg\<close> took is a consume.\<close>

lemma tail_consume:
  "0 \<le> n \<Longrightarrow> b\<lparr>tail := tail b + of_int n\<rparr> = connection_buffer_consume (nat n) b"
  by (simp add: connection_buffer_consume_def)

lemma nonempty_size: "(head b - tail b > 0) = (contents b \<noteq> [])"
proof -
  have "(head b - tail b > 0) = (unat (connection_buffer_size b) > 0)"
    by (simp add: connection_buffer_size_def word_less_nat_alt)
  then show ?thesis by simp
qed

lemma flush_loop_wp:
  assumes "send_ok k"
  shows "conn_ok c \<Longrightarrow> wp (flush_loop n k c) (\<lambda>(r, c') w'. conn_ok c' \<and> (r = 0 \<or> r = -1) \<and>
    (r = 0 \<longrightarrow> contents (cout c') = []) \<and> head (cout c') = head (cout c) \<and>
    conn_fd c' = conn_fd c \<and> cin c' = cin c \<and> fds_in c' = fds_in c \<and>
    sent_on (conn_fd c) (trace w') @ contents (cout c') =
      sent_on (conn_fd c) (trace w) @ contents (cout c)) w"
proof (induction n arbitrary: c w)
  case 0
  then show ?case by (simp add: wp_simps)
next
  case (Suc n)
  show ?case
  proof (cases "contents (cout c) = []")
    case True
    with Suc.prems show ?thesis by (simp add: nonempty_size wp_simps)
  next
    case False
    have bufs: "buffer_ok (cout c)" "buffer_ok (fds_out c)" "4 dvd length (contents (fds_out c))"
      using Suc.prems by (auto simp: conn_ok_def)
    let ?next = "\<lambda>fds m. c\<lparr>fds_out := fds, cout := (cout c)\<lparr>tail := tail (cout c) + of_int m\<rparr>\<rparr>"
    have next_ok: "conn_ok (?next fds m)"
      and next_out: "contents ((cout c)\<lparr>tail := tail (cout c) + of_int m\<rparr>) = drop (nat m) (contents (cout c))"
      if "buffer_ok fds" "contents fds = []" "0 < m" "m \<le> int (length (contents (cout c)))" for fds m
      using that bufs Suc.prems
      by (auto simp: conn_ok_def tail_consume ring.consume_ok ring.consume_abs)
    show ?thesis
      using False bufs
      apply (simp add: nonempty_size wp_simps gather_contents)
      apply (rule wp_mono [OF sendmsg_wp [OF assms False]])
      by (auto simp: wp_simps Suc.prems next_ok next_out quiet_def
          intro!: wp_mono [OF close_fds_wp] wp_mono [OF Suc.IH])
  qed
qed

lemma connection_flush_wp:
  assumes ok: "conn_ok c" and send: "send_ok k"
  shows "wp (connection_flush k c) (\<lambda>(r, c') w'. conn_ok c' \<and> conn_fd c' = conn_fd c \<and>
    cin c' = cin c \<and> fds_in c' = fds_in c \<and>
    sent_on (conn_fd c) (trace w') @ contents (cout c') =
      sent_on (conn_fd c) (trace w) @ contents (cout c) \<and>
    (if want_flush c
     then r = -1 \<or> r = int (length (contents (cout c))) \<and> contents (cout c') = [] \<and> \<not> want_flush c'
     else r = 0 \<and> c' = c \<and> w' = w)) w"
proof (cases "want_flush c")
  case True
  have size: "sint (head (cout c) - tail (cout c)) = int (length (contents (cout c)))"
    using sint_buffer_size [of "cout c"] ok by (simp add: conn_ok_def connection_buffer_size_def)
  have keep: "conn_ok (d\<lparr>want_flush := False\<rparr>)" if "conn_ok d" for d
    using that by (simp add: conn_ok_def)
  show ?thesis
    using True
    by (auto simp: connection_flush_def wp_simps size keep
        intro!: wp_mono [OF flush_loop_wp [OF send ok]])
next
  case False
  with ok show ?thesis by (simp add: connection_flush_def wp_simps)
qed

text \<open>C33: \<open>connection_flush\<close> neither loses, duplicates nor reorders output, whatever short
  writes and failures occur: the bytes the socket took so far followed by the bytes still
  queued are the same before and after. It keeps the connection well formed. When a flush is
  wanted it returns \<open>-1\<close>, or the number of bytes that were queued; then the output is empty
  and no flush is wanted any more.\<close>

theorem connection_flush_conserves:
  assumes "conn_ok c" and "send_ok k"
    and "run_state (connection_flush k c) w = ((r, c'), w')"
  shows "conn_ok c' \<and>
    sent_on (conn_fd c) (trace w') @ contents (cout c') =
      sent_on (conn_fd c) (trace w) @ contents (cout c) \<and>
    (want_flush c \<longrightarrow> r = -1 \<or>
      r = int (length (contents (cout c))) \<and> contents (cout c') = [] \<and> \<not> want_flush c')"
  using wpD [OF connection_flush_wp [OF assms(1,2)] assms(3)] by (simp split: if_splits)

lemma flush_loop_stuck:
  assumes "send_ok k" and "patient k"
  shows "conn_ok c \<Longrightarrow> length (contents (cout c)) < n \<Longrightarrow>
    wp (flush_loop n k c) (\<lambda>_ w'. stuck w' = stuck w) w"
proof (induction n arbitrary: c w)
  case (Suc n)
  show ?case
  proof (cases "contents (cout c) = []")
    case True
    then show ?thesis by (simp add: nonempty_size wp_simps)
  next
    case False
    have bufs: "buffer_ok (cout c)" "buffer_ok (fds_out c)" "4 dvd length (contents (fds_out c))"
      using Suc.prems by (auto simp: conn_ok_def)
    let ?next = "\<lambda>fds m. c\<lparr>fds_out := fds, cout := (cout c)\<lparr>tail := tail (cout c) + of_int m\<rparr>\<rparr>"
    have next_ok: "conn_ok (?next fds m)"
      and next_out: "length (contents ((cout c)\<lparr>tail := tail (cout c) + of_int m\<rparr>)) < n"
      if "buffer_ok fds" "contents fds = []" "0 < m" "m \<le> int (length (contents (cout c)))" for fds m
      using that bufs Suc.prems
      by (auto simp: conn_ok_def tail_consume ring.consume_ok ring.consume_abs)
    have send: "wp (retry_eintr (retry_fuel k) k (Sys_sendmsg fd (contents (cout c)) fds))
      (\<lambda>r w'. stuck w' = stuck w \<and> (sr_val r \<noteq> -1 \<longrightarrow> 0 < sr_val r \<and> sr_val r \<le> int (length (contents (cout c))))) w"
      for fd fds
      using sendmsg_wp [OF assms(1) False] retry_stuck [of k]
      by (rule wp_both) (use assms(2) in \<open>auto simp: patient_def\<close>)
    show ?thesis
      using False bufs
      apply (simp add: nonempty_size wp_simps gather_contents)
      apply (rule wp_mono [OF send])
      by (auto simp: wp_simps next_ok next_out quiet_def os_calls_def
          intro!: wp_mono [OF close_fds_wp] wp_mono [OF Suc.IH])
  qed
qed simp

lemma connection_flush_stuck:
  assumes "conn_ok c" and "send_ok k" and "patient k" and "256 < retry_fuel k"
  shows "wp (connection_flush k c) (\<lambda>_ w'. stuck w' = stuck w) w"
proof -
  have "length (contents (cout c)) < retry_fuel k"
    using assms(1,4) ring.abs_bound [of "cout c"] by (simp add: conn_ok_def)
  then show ?thesis
    using assms flush_loop_stuck [of k c "retry_fuel k" w]
    by (auto simp: connection_flush_def wp_simps intro!: wp_mono [OF flush_loop_stuck])
qed

text \<open>C34: the loop of \<open>connection_flush\<close> ends: when every successful \<open>sendmsg\<close> makes progress
  and no call is interrupted \<open>retry_fuel\<close> times in a row, 257 rounds are enough, so no fuel
  runs out.\<close>

theorem connection_flush_terminates:
  assumes "conn_ok c" and "send_ok k" and "patient k" and "256 < retry_fuel k"
  shows "stuck (snd (run_state (connection_flush k c) w)) = stuck w"
  using wpD [OF connection_flush_stuck [OF assms] prod.collapse [symmetric]] .

section \<open>Queueing and taking messages\<close>

lemma connection_put_wp:
  assumes ok: "conn_ok c" and send: "send_ok k" and len: "length bs \<le> 256"
  shows "wp (connection_put k c bs) (\<lambda>(r, c') w'. conn_ok c' \<and> conn_fd c' = conn_fd c \<and>
    cin c' = cin c \<and> fds_in c' = fds_in c \<and> (r = 0 \<or> r = -1) \<and>
    sent_on (conn_fd c) (trace w') @ contents (cout c') =
      sent_on (conn_fd c) (trace w) @ contents (cout c) @ (if r = 0 then bs else []) \<and>
    (r = 0 \<longrightarrow> want_flush c')) w"
proof -
  have store: "conn_ok (d\<lparr>cout := connection_buffer_store (cout d) bs, want_flush := True\<rparr>)"
      "contents (connection_buffer_store (cout d) bs) = contents (cout d) @ bs"
    if "conn_ok d" "length (contents (cout d)) + length bs \<le> 256" for d
    using that by (auto simp: conn_ok_def ring.store_ok ring.store_abs)
  show ?thesis
  proof (cases "length (contents (cout c)) + length bs > 256")
    case True
    have ok': "conn_ok (c\<lparr>want_flush := True\<rparr>)"
      using ok by (simp add: conn_ok_def)
    show ?thesis
      using True len
      by (auto simp: connection_put_def connection_buffer_put_def wp_simps store
          intro!: wp_mono [OF connection_flush_wp [OF ok' send]])
  next
    case False
    with ok len show ?thesis
      by (auto simp: connection_put_def connection_buffer_put_def wp_simps store)
  qed
qed


lemma connection_get_wp:
  assumes "conn_ok c"
  shows "wp (connection_get c n) (\<lambda>(r, c') w'. conn_ok c' \<and>
    (if n \<le> length (contents (cin c))
     then r = Some (take n (contents (cin c))) \<and> c' = c\<lparr>cin := connection_buffer_consume n (cin c)\<rparr> \<and>
       contents (cin c') = drop n (contents (cin c)) \<and> connection_restore c' n = c \<and> w' = w
     else r = None \<and> c' = c \<and> w' = w\<lparr>errno := EAGAIN\<rparr>)) w"
  using assms
  by (auto simp: connection_get_def wp_simps conn_ok_def connection_restore_def
      ring.copy_abs ring.consume_ok ring.consume_abs)

text \<open>C36: \<open>connection_get\<close> takes the oldest \<open>n\<close> pending bytes, and \<open>connection_restore\<close> puts
  them back exactly; with fewer bytes pending it fails with \<open>EAGAIN\<close> and changes nothing.\<close>

theorem connection_get_takes:
  assumes "conn_ok c" and "run_state (connection_get c n) w = ((r, c'), w')"
  shows "if n \<le> connection_pending c
     then r = Some (take n (contents (cin c))) \<and> contents (cin c') = drop n (contents (cin c)) \<and>
       conn_ok c' \<and> connection_restore c' n = c
     else r = None \<and> c' = c \<and> errno w' = EAGAIN"
  using wpD [OF connection_get_wp [OF assms(1)] assms(2)]
  by (auto simp: connection_pending_def split: if_splits)

section \<open>Descriptors in transit\<close>

fun call_closed :: "syscall \<times> sysret \<Rightarrow> int list" where
  "call_closed (Sys_close fd, r) = [fd]"
| "call_closed _ = []"

definition closed_fds :: "history \<Rightarrow> int list" where
  "closed_fds h = concat (map call_closed (rev h))"

lemma closed_fds_Cons [simp]: "closed_fds (x # h) = closed_fds h @ call_closed x"
  by (simp add: closed_fds_def)

lemma close_all_wp:
  "wp (close_all k fds) (\<lambda>_ w'. os_calls w w' \<and> closed_fds (trace w') = closed_fds (trace w) @ fds) w"
proof -
  have "closed_fds (trace (snd (run_state (close_all k fds) w))) = closed_fds (trace w) @ fds"
    by (induction fds arbitrary: w) (simp_all add: sys_val_def sys_def Let_def)
  then have "wp (close_all k fds) (\<lambda>_ w'. closed_fds (trace w') = closed_fds (trace w) @ fds) w"
    by (auto intro!: wpI)
  with wp_frame [OF close_all_calls, of w "\<lambda>_. os_calls w"] show ?thesis
    by (rule wp_both) auto
qed

definition rights :: "cmsg list \<Rightarrow> cmsg list" where
  "rights = filter (\<lambda>m. cmsg_level m = SOL_SOCKET \<and> cmsg_type m = SCM_RIGHTS)"

lemma decode_cmsgs_wp:
  "buffer_ok b \<Longrightarrow> wp (decode_cmsgs k ms overflow b) (\<lambda>(r, b') w'. \<exists>ms1 ms2.
     rights ms = ms1 @ ms2 \<and> contents b' = contents b @ concat (map cmsg_data ms1) \<and>
     closed_fds (trace w') = closed_fds (trace w) @ concat (map (\<lambda>m. bytes_ints (cmsg_data m)) ms2) \<and>
     (overflow \<longrightarrow> ms1 = []) \<and> (r = 0) = (\<not> overflow \<and> ms2 = [])) w"
proof (induction ms arbitrary: overflow b w)
  case Nil
  then show ?case by (auto simp: wp_simps rights_def)
next
  case (Cons m ms)
  consider (other) "cmsg_level m \<noteq> SOL_SOCKET \<or> cmsg_type m \<noteq> SCM_RIGHTS"
    | (closed) "cmsg_level m = SOL_SOCKET" "cmsg_type m = SCM_RIGHTS"
        "length (cmsg_data m) > 256 - length (contents b) \<or> overflow"
    | (queued) "cmsg_level m = SOL_SOCKET" "cmsg_type m = SCM_RIGHTS"
        "length (cmsg_data m) \<le> 256 - length (contents b)" "\<not> overflow"
    by fastforce
  then show ?case
  proof cases
    case other
    then have "rights (m # ms) = rights ms" by (auto simp: rights_def)
    with other Cons.IH [OF Cons.prems, of overflow w] show ?thesis by auto
  next
    case closed
    then have m: "rights (m # ms) = m # rights ms" by (auto simp: rights_def)
    have tail: "wp (decode_cmsgs k ms True b) (\<lambda>(r, b') w'. r \<noteq> 0 \<and> contents b' = contents b \<and>
      closed_fds (trace w') = closed_fds (trace v) @ concat (map (\<lambda>m. bytes_ints (cmsg_data m)) (rights ms))) v"
      for v :: "'a os_scheme"
      by (rule wp_mono [OF Cons.IH [OF Cons.prems, of True v]]) auto
    from closed show ?thesis
      apply (auto simp: wp_simps Let_def m intro!: wp_mono [OF close_all_wp] wp_mono [OF tail])
      by (rule exI [of _ "[]"], auto)+
  next
    case queued
    then have m: "rights (m # ms) = m # rights ms" by (auto simp: rights_def)
    from queued ring.abs_bound [OF Cons.prems]
    have room: "length (contents b) + length (cmsg_data m) \<le> 256" by linarith
    note ok = ring.store_ok [OF Cons.prems room] and new = ring.store_abs [OF Cons.prems room]
    have "length (cmsg_data m) \<le> 256" using room by simp
    with queued show ?thesis
      apply (simp add: wp_simps connection_buffer_put_def m)
      apply (rule wp_mono [OF Cons.IH [OF ok]])
      apply (clarsimp simp: new)
      subgoal for r b' w' ms1 ms2
        by (rule exI [of _ "m # ms1"], rule exI [of _ ms2]) auto
      done
  qed
qed

text \<open>C37: no received descriptor leaks: \<open>decode_cmsg\<close> queues the descriptors of a leading part
  of the \<open>SCM_RIGHTS\<close> messages behind those already queued and closes all descriptors of the
  others; it returns 0 exactly when nothing had to be closed.\<close>

theorem decode_cmsg_no_leak:
  assumes "buffer_ok b" and "run_state (decode_cmsg k b ms) w = ((r, b'), w')"
  shows "\<exists>ms1 ms2. rights ms = ms1 @ ms2 \<and> contents b' = contents b @ concat (map cmsg_data ms1) \<and>
    closed_fds (trace w') = closed_fds (trace w) @ concat (map (\<lambda>m. bytes_ints (cmsg_data m)) ms2) \<and>
    (r = 0) = (ms2 = [])"
  using wpD [OF decode_cmsgs_wp [OF assms(1)] assms(2) [unfolded decode_cmsg_def]] by auto

lemma close_fds_closes:
  assumes "buffer_ok b"
  shows "wp (connection_buffer_close_fds k b) (\<lambda>b' w'.
    closed_fds (trace w') = closed_fds (trace w) @ bytes_ints (contents b)) w"
  using assms
  by (auto simp: connection_buffer_close_fds_def wp_simps ring.copy_abs intro!: wp_mono [OF close_all_wp])

text \<open>C38: \<open>connection_close_fds\<close> closes every descriptor queued in either direction, once and
  in order, and leaves both queues empty.\<close>

theorem connection_close_fds_closes_all:
  assumes "conn_ok c" and "4 dvd length (contents (fds_in c))"
    and "run_state (connection_close_fds k c) w = (c', w')"
  shows "closed_fds (trace w') = closed_fds (trace w) @
      bytes_ints (contents (fds_in c)) @ bytes_ints (contents (fds_out c)) \<and>
    contents (fds_in c') = [] \<and> contents (fds_out c') = []"
proof -
  have bufs: "buffer_ok (fds_in c)" "buffer_ok (fds_out c)" "4 dvd length (contents (fds_out c))"
    using assms(1) by (auto simp: conn_ok_def)
  have "wp (connection_close_fds k c) (\<lambda>c' w'. closed_fds (trace w') = closed_fds (trace w) @
      bytes_ints (contents (fds_in c)) @ bytes_ints (contents (fds_out c)) \<and>
      contents (fds_in c') = [] \<and> contents (fds_out c') = []) w"
    by (auto simp: connection_close_fds_def wp_simps
        intro!: wp_both [OF close_fds_closes [OF bufs(1)] close_fds_ok [OF bufs(1) assms(2)]]
          wp_both [OF close_fds_closes [OF bufs(2)] close_fds_ok [OF bufs(2,3)]])
  then show ?thesis
    using assms(3) by (rule wpD)
qed

section \<open>A sample run\<close>

text \<open>
  A socket that delivers three bytes at a time, with one descriptor, and takes two bytes at a
  time; and a connection that already has input, output and a queued descriptor.
\<close>

definition sample_cmsg :: cmsg where
  "sample_cmsg = \<lparr>cmsg_level = SOL_SOCKET, cmsg_type = SCM_RIGHTS, cmsg_data = int_bytes 7\<rparr>"

definition sample_socket :: kernel where
  "sample_socket = sample_kernel (\<lambda>h c. case c of
     Sys_recvmsg fd n \<Rightarrow> Some ((ret (int (length (take n [1, 2, 3 :: byte]))))
       \<lparr>sr_data := take n [1, 2, 3], sr_cmsgs := [sample_cmsg]\<rparr>)
   | Sys_sendmsg fd bs fds \<Rightarrow> Some (ret (int (length (take 2 bs))))
   | _ \<Rightarrow> None)"

definition sample_buffer :: "byte list \<Rightarrow> connection_buffer" where
  "sample_buffer bs = connection_buffer_store empty_buffer bs"

definition sample_connection :: connection where
  "sample_connection = (new_connection 3)\<lparr>cin := sample_buffer [8, 9], cout := sample_buffer [4, 5, 6],
     fds_in := sample_buffer (int_bytes 5), fds_out := sample_buffer (int_bytes 6), want_flush := True\<rparr>"

lemma sample_buffer:
  assumes "length bs \<le> 256"
  shows "buffer_ok (sample_buffer bs)" and "contents (sample_buffer bs) = bs"
  using assms ring.store_ok [of empty_buffer bs] ring.store_abs [of empty_buffer bs]
  by (simp_all add: sample_buffer_def)

lemma sample_connection_ok: "conn_ok sample_connection"
  by (simp add: conn_ok_def sample_connection_def new_connection_def sample_buffer length_int_bytes)

lemma sample_socket_ok: "recv_ok sample_socket" "send_ok sample_socket" "patient sample_socket"
  "256 < retry_fuel sample_socket"
proof -
  show "recv_ok sample_socket" "send_ok sample_socket" "256 < retry_fuel sample_socket"
    by (auto simp: recv_ok_def send_ok_def sample_socket_def)
  show "patient sample_socket"
    by (rule patientI) (auto simp: sample_socket_def split: syscall.split)
qed

theorem connection_read_appends_witness:
  "case run_state (connection_read sample_socket sample_connection) start_os of ((r, c'), w') \<Rightarrow>
     conn_ok c' \<and> r = 5 \<and> contents (cin c') = [8, 9, 1, 2, 3]"
proof -
  have "fst (fst (run_state (connection_read sample_socket sample_connection) start_os)) = 5"
    "contents (cin (snd (fst (run_state (connection_read sample_socket sample_connection) start_os)))) = [8, 9, 1, 2, 3]"
    by code_simp+
  then show ?thesis
    using connection_read_appends [OF sample_connection_ok sample_socket_ok(1), of start_os]
    by (auto split: prod.split)
qed

theorem connection_flush_conserves_witness:
  "case run_state (connection_flush sample_socket sample_connection) start_os of ((r, c'), w') \<Rightarrow>
     conn_ok c' \<and> r = 3 \<and> contents (cout c') = [] \<and> sent_on 3 (trace w') = [4, 5, 6]"
proof -
  have out: "contents (cout sample_connection) = [4, 5, 6]" "want_flush sample_connection"
    "conn_fd sample_connection = 3" "sent_on 3 (trace start_os) = []"
    by (simp_all add: sample_connection_def new_connection_def sample_buffer start_os_def sent_on_def)
  have "fst (fst (run_state (connection_flush sample_socket sample_connection) start_os)) = 3"
    by code_simp
  with out show ?thesis
    using connection_flush_conserves [OF sample_connection_ok sample_socket_ok(2), of start_os]
    by (auto split: prod.split)
qed

theorem connection_flush_terminates_witness:
  "stuck (snd (run_state (connection_flush sample_socket sample_connection) start_os)) = False"
  using connection_flush_terminates [OF sample_connection_ok sample_socket_ok(2-4), of start_os]
  by (simp add: start_os_def)


theorem connection_get_takes_witness:
  "case run_state (connection_get sample_connection 1) start_os of ((r, c'), w') \<Rightarrow>
     r = Some [8] \<and> contents (cin c') = [9] \<and> connection_restore c' 1 = sample_connection"
proof -
  have "contents (cin sample_connection) = [8, 9]" "connection_pending sample_connection = 2"
    by (simp_all add: sample_connection_def new_connection_def sample_buffer connection_pending_def)
  then show ?thesis
    using connection_get_takes [OF sample_connection_ok, of 1 start_os]
    by (auto split: prod.split)
qed

theorem decode_cmsg_no_leak_witness:
  "case run_state (decode_cmsg sample_socket (sample_buffer (replicate 255 0)) [sample_cmsg]) start_os of
     ((r, b'), w') \<Rightarrow> r \<noteq> 0 \<and> contents b' = replicate 255 0 \<and> closed_fds (trace w') = [7]"
proof -
  let ?run = "run_state (decode_cmsg sample_socket (sample_buffer (replicate 255 0)) [sample_cmsg]) start_os"
  have r: "fst (fst ?run) = -1" "bytes_ints (int_bytes 7) = [7]"
    by code_simp+
  obtain ms1 ms2 where "rights [sample_cmsg] = ms1 @ ms2" "ms2 \<noteq> []"
    "contents (snd (fst ?run)) = replicate 255 0 @ concat (map cmsg_data ms1)"
    "closed_fds (trace (snd ?run)) = concat (map (\<lambda>m. bytes_ints (cmsg_data m)) ms2)"
    using decode_cmsg_no_leak [OF sample_buffer(1) [of "replicate 255 0"], of sample_socket "[sample_cmsg]" start_os] r
    by (cases ?run) (auto simp: sample_buffer start_os_def closed_fds_def)
  moreover from this have "ms1 = [] \<and> ms2 = [sample_cmsg]"
    by (auto simp: rights_def sample_cmsg_def Cons_eq_append_conv)
  ultimately show ?thesis
    using r by (auto simp: sample_cmsg_def split: prod.split)
qed

theorem connection_close_fds_closes_all_witness:
  "case run_state (connection_close_fds sample_socket sample_connection) start_os of (c', w') \<Rightarrow>
     closed_fds (trace w') = [5, 6] \<and> contents (fds_in c') = [] \<and> contents (fds_out c') = []"
proof -
  have fds: "contents (fds_in sample_connection) = int_bytes 5" "contents (fds_out sample_connection) = int_bytes 6"
    by (simp_all add: sample_connection_def new_connection_def sample_buffer length_int_bytes)
  have ints: "bytes_ints (int_bytes 5) = [5]" "bytes_ints (int_bytes 6) = [6]"
    by code_simp+
  show ?thesis
    using connection_close_fds_closes_all [OF sample_connection_ok, of sample_socket start_os] fds
    by (auto simp: ints length_int_bytes start_os_def closed_fds_def split: prod.split)
qed

end
