(* ===== verification/Terminal.thy ===== *)
theory Terminal
  imports Kernel
begin

text \<open>
  \<open>common/terminal.c\<close> and the device classes of \<open>common/drm.c\<close>, \<open>evdev.c\<close>, \<open>hidraw.c\<close> and
  \<open>wscons.c\<close>, in their Linux variants. Every operation is one or two kernel calls; the only
  assertion is the one on the terminal number.
\<close>

section \<open>Terminals\<close>

fun dec :: "nat \<Rightarrow> string" where
  "dec n = (if n < 10 then [char_of (48 + n)] else dec (n div 10) @ [char_of (48 + n mod 10)])"

declare dec.simps [simp del]

abbreviation (input) "TTYPATHLEN \<equiv> (16::nat)"

text \<open>\<open>snprintf\<close> keeps the first \<open>TTYPATHLEN - 1\<close> characters.\<close>

definition get_tty_path :: "nat \<Rightarrow> string" where
  "get_tty_path tty = take (TTYPATHLEN - 1) (''/dev/tty'' @ dec tty)"

definition terminal_open :: "kernel \<Rightarrow> int \<Rightarrow> ('a os_scheme, int) state" where
  "terminal_open k vt =
     (if vt < 0 then do { abort_now; State_Monad.return (-1) }
      else sys_val k (Sys_open (get_tty_path (nat vt)) [O_RDWR, O_NOCTTY]))"

text \<open>An \<open>ioctl\<close> whose result is only compared with \<open>-1\<close>.\<close>

definition do_ioctl :: "kernel \<Rightarrow> int \<Rightarrow> ioctl \<Rightarrow> ('a os_scheme, int) state" where
  "do_ioctl k fd req = do {
     r \<leftarrow> sys_val k (Sys_ioctl fd req);
     State_Monad.return (if r = -1 then -1 else 0)
   }"

definition terminal_find_available :: "kernel \<Rightarrow> int \<Rightarrow> ('a os_scheme, int) state" where
  "terminal_find_available k fd = do {
     r \<leftarrow> sys k (Sys_ioctl fd VT_OPENQRY);
     if sr_val r = -1 then State_Monad.return (-1)
     else if sr_out r \<le> 0 then do { set_errno ENOENT; State_Monad.return (-1) }
     else State_Monad.return (sr_out r)
   }"

definition terminal_current_vt :: "kernel \<Rightarrow> int \<Rightarrow> ('a os_scheme, int) state" where
  "terminal_current_vt k fd = do {
     r \<leftarrow> sys k (Sys_ioctl fd VT_GETSTATE);
     State_Monad.return (if sr_val r = -1 then -1 else sr_out r)
   }"

definition terminal_set_process_switching :: "kernel \<Rightarrow> int \<Rightarrow> bool \<Rightarrow> ('a os_scheme, int) state" where
  "terminal_set_process_switching k fd enable = do_ioctl k fd (VT_SETMODE enable)"

definition terminal_switch_vt :: "kernel \<Rightarrow> int \<Rightarrow> int \<Rightarrow> ('a os_scheme, int) state" where
  "terminal_switch_vt k fd vt = do_ioctl k fd (VT_ACTIVATE vt)"

definition terminal_ack_release :: "kernel \<Rightarrow> int \<Rightarrow> ('a os_scheme, int) state" where
  "terminal_ack_release k fd = do_ioctl k fd (VT_RELDISP 1)"

definition terminal_ack_acquire :: "kernel \<Rightarrow> int \<Rightarrow> ('a os_scheme, int) state" where
  "terminal_ack_acquire k fd = do_ioctl k fd (VT_RELDISP VT_ACKACQ)"

definition terminal_set_keyboard :: "kernel \<Rightarrow> int \<Rightarrow> bool \<Rightarrow> ('a os_scheme, int) state" where
  "terminal_set_keyboard k fd enable = do_ioctl k fd (KDSKBMODE enable)"

definition terminal_set_graphics :: "kernel \<Rightarrow> int \<Rightarrow> bool \<Rightarrow> ('a os_scheme, int) state" where
  "terminal_set_graphics k fd enable = do_ioctl k fd (KDSETMODE enable)"

section \<open>Device classes\<close>

definition str_has_prefix :: "string \<Rightarrow> string \<Rightarrow> bool" where
  "str_has_prefix p s \<longleftrightarrow> take (length p) s = p"

definition drm_set_master :: "kernel \<Rightarrow> int \<Rightarrow> ('a os_scheme, int) state" where
  "drm_set_master k fd = sys_val k (Sys_ioctl fd DRM_IOCTL_SET_MASTER)"

definition drm_drop_master :: "kernel \<Rightarrow> int \<Rightarrow> ('a os_scheme, int) state" where
  "drm_drop_master k fd = sys_val k (Sys_ioctl fd DRM_IOCTL_DROP_MASTER)"

definition drm_is_master :: "kernel \<Rightarrow> int \<Rightarrow> ('a os_scheme, int) state" where
  "drm_is_master k fd = do {
     r \<leftarrow> sys_val k (Sys_ioctl fd DRM_IOCTL_AUTH_MAGIC);
     e \<leftarrow> get_errno;
     State_Monad.return
       (if r = -1 then (if e = EACCES then 0 else if e = EINVAL then 1 else -1) else 1)
   }"

definition path_is_drm :: "string \<Rightarrow> bool" where
  "path_is_drm = str_has_prefix ''/dev/dri/''"

definition path_is_evdev :: "string \<Rightarrow> bool" where
  "path_is_evdev = str_has_prefix ''/dev/input/event''"

definition evdev_revoke :: "kernel \<Rightarrow> int \<Rightarrow> ('a os_scheme, int) state" where
  "evdev_revoke k fd = sys_val k (Sys_ioctl fd EVIOCREVOKE)"

definition path_is_hidraw :: "kernel \<Rightarrow> string \<Rightarrow> bool" where
  "path_is_hidraw k path \<longleftrightarrow> has_hidiocrevoke k \<and> str_has_prefix ''/dev/hidraw'' path"

definition hidraw_revoke :: "kernel \<Rightarrow> int \<Rightarrow> ('a os_scheme, int) state" where
  "hidraw_revoke k fd =
     (if has_hidiocrevoke k then sys_val k (Sys_ioctl fd HIDIOCREVOKE) else State_Monad.return 0)"

definition path_is_wscons :: "string \<Rightarrow> bool" where
  "path_is_wscons path = False"

section \<open>Frames and results\<close>

lemma terminal_open_calls [calls_frame]: "0 \<le> vt \<Longrightarrow> state_io_rel os_calls (terminal_open k vt)"
  unfolding terminal_open_def by (simp add: calls_frame)

lemma do_ioctl_calls [calls_frame]: "state_io_rel os_calls (do_ioctl k fd req)"
  unfolding do_ioctl_def by (intro calls.rules calls_frame)

lemma terminal_calls [calls_frame]:
  "state_io_rel os_calls (terminal_find_available k fd)"
  "state_io_rel os_calls (terminal_current_vt k fd)"
  "state_io_rel os_calls (terminal_set_process_switching k fd enable)"
  "state_io_rel os_calls (terminal_switch_vt k fd vt)"
  "state_io_rel os_calls (terminal_ack_release k fd)"
  "state_io_rel os_calls (terminal_ack_acquire k fd)"
  "state_io_rel os_calls (terminal_set_keyboard k fd enable)"
  "state_io_rel os_calls (terminal_set_graphics k fd enable)"
  unfolding terminal_find_available_def terminal_current_vt_def terminal_set_process_switching_def
    terminal_switch_vt_def terminal_ack_release_def terminal_ack_acquire_def
    terminal_set_keyboard_def terminal_set_graphics_def
  by (intro calls.rules calls_frame)+

lemma device_calls [calls_frame]:
  "state_io_rel os_calls (drm_set_master k fd)"
  "state_io_rel os_calls (drm_drop_master k fd)"
  "state_io_rel os_calls (drm_is_master k fd)"
  "state_io_rel os_calls (evdev_revoke k fd)"
  "state_io_rel os_calls (hidraw_revoke k fd)"
  unfolding drm_set_master_def drm_drop_master_def drm_is_master_def evdev_revoke_def hidraw_revoke_def
  by (intro calls.rules calls_frame)+

text \<open>A path of a terminal fits its buffer, and names one of them.\<close>

lemma length_tty_path: "length (get_tty_path n) < TTYPATHLEN"
  by (simp add: get_tty_path_def)

text \<open>The three supported classes are disjoint, so the order of the tests does not matter.\<close>

lemma prefixes_agree:
  "str_has_prefix p s \<Longrightarrow> str_has_prefix q s \<Longrightarrow> take (length q) p = take (length p) q"
  unfolding str_has_prefix_def by (metis min.commute take_take)

lemma classes_disjoint:
  "path_is_drm p \<Longrightarrow> \<not> path_is_evdev p \<and> \<not> path_is_hidraw k p"
  "path_is_evdev p \<Longrightarrow> \<not> path_is_drm p \<and> \<not> path_is_hidraw k p"
  unfolding path_is_drm_def path_is_evdev_def path_is_hidraw_def
  by (auto dest: prefixes_agree)

end
