(* ===== verification/Poller.thy ===== *)
theory Poller
  imports Kernel
begin

text \<open>
  \<open>seatd/poller.c\<close>: the event loop. An event source is a descriptor or a signal together with
  a handler. Sources are created by the server's components, killed by handlers while events
  are being dispatched, and freed when the set of polled descriptors is regenerated.

  Allocations get fresh addresses from \<open>next_addr\<close>. The two source lists hold the
  sources with their addresses, in list order. A handler is the function pointer and the data
  pointer of the source; the handlers themselves are an argument of \<open>dispatch\<close>.
\<close>

section \<open>State\<close>

datatype fd_func =
    Client_handle_connection nat
  | Control_client_handle_connection nat
  | Server_handle_connection
  | Control_handle_connection
  | Server_handle_vt_event

datatype signal_func = Server_handle_vt_rel | Server_handle_vt_acq | Server_handle_kill

record event_source_fd =
  es_func :: fd_func
  es_fd :: int
  es_mask :: u32
  es_killed :: bool
  pollfd_idx :: int

record event_source_signal =
  ss_func :: signal_func
  ss_signal :: int
  ss_raised :: bool
  ss_killed :: bool

record pollfd =
  pfd_fd :: int
  pfd_events :: u16
  pfd_revents :: u16

record poller =
  signals :: "(nat \<times> event_source_signal) list"
  fds :: "(nat \<times> event_source_fd) list"
  signal_fds :: "int \<times> int"
  pollfds :: "pollfd list" \<comment> \<open>of length \<open>pollfds_len\<close>\<close>
  fd_event_sources :: nat
  dirty :: bool

record poll_os = os +
  next_addr :: nat
  global_poller :: bool
  the_poller :: poller

abbreviation (input) "EVENT_READABLE \<equiv> (1::u32)"
abbreviation (input) "EVENT_WRITABLE \<equiv> (4::u32)"
abbreviation (input) "EVENT_ERROR \<equiv> (8::u32)"
abbreviation (input) "EVENT_HANGUP \<equiv> (16::u32)"

abbreviation (input) "POLLIN \<equiv> (1::u16)"
abbreviation (input) "POLLOUT \<equiv> (4::u16)"
abbreviation (input) "POLLERR \<equiv> (8::u16)"
abbreviation (input) "POLLHUP \<equiv> (16::u16)"

definition upd_poller :: "(poller \<Rightarrow> poller) \<Rightarrow> ('a poll_os_scheme, unit) state" where
  "upd_poller f = State_Monad.update (\<lambda>w. w\<lparr>the_poller := f (the_poller w)\<rparr>)"

definition get_poller :: "('a poll_os_scheme, poller) state" where
  "get_poller = do { w \<leftarrow> State_Monad.get; State_Monad.return (the_poller w) }"

text \<open>\<open>calloc\<close>: a fresh address, or the null pointer.\<close>

definition calloc :: "kernel \<Rightarrow> ('a poll_os_scheme, nat option) state" where
  "calloc k = do {
     r \<leftarrow> sys_val k Sys_calloc;
     if r = -1 then State_Monad.return None
     else do {
       w \<leftarrow> State_Monad.get;
       State_Monad.update (\<lambda>w. w\<lparr>next_addr := next_addr w + 1\<rparr>);
       State_Monad.return (Some (next_addr w))
     }
   }"

text \<open>Updating the entry at an address.\<close>

definition upd_at :: "nat \<Rightarrow> ('b \<Rightarrow> 'b) \<Rightarrow> (nat \<times> 'b) list \<Rightarrow> (nat \<times> 'b) list" where
  "upd_at a f ss = map (\<lambda>(b, e). (b, if b = a then f e else e)) ss"

section \<open>Operations\<close>

definition set_nonblock :: "kernel \<Rightarrow> int \<Rightarrow> ('a os_scheme, int) state" where
  "set_nonblock k fd = do {
     flags \<leftarrow> sys_val k (Sys_fcntl fd F_GETFL);
     if flags = -1 then State_Monad.return (-1)
     else do {
       r \<leftarrow> sys_val k (Sys_fcntl fd (F_SETFL (flags OR O_NONBLOCK_FLAG)));
       State_Monad.return (if r = -1 then -1 else 0)
     }
   }"

text \<open>The handler the program installs for every polled signal.\<close>

definition signal_handler :: "kernel \<Rightarrow> int \<Rightarrow> ('a poll_os_scheme, unit) state" where
  "signal_handler k sig = do {
     w \<leftarrow> State_Monad.get;
     if \<not> global_poller w then State_Monad.return ()
     else do {
       upd_poller (\<lambda>p. p\<lparr>signals := map (\<lambda>(a, s).
         (a, if ss_signal s = sig then s\<lparr>ss_raised := True\<rparr> else s)) (signals p)\<rparr>);
       saved_errno \<leftarrow> get_errno;
       _ \<leftarrow> sys_val k (Sys_write (snd (signal_fds (the_poller w))) [0]);
       set_errno saved_errno
     }
   }"

definition poller_init :: "kernel \<Rightarrow> ('a poll_os_scheme, int) state" where
  "poller_init k = do {
     w \<leftarrow> State_Monad.get;
     if global_poller w then do { abort_now; State_Monad.return (-1) }
     else do {
       r \<leftarrow> sys k Sys_pipe;
       if sr_val r = -1 then State_Monad.return (-1)
       else do {
         let p = (case sr_ints r of a # b # _ \<Rightarrow> (a, b) | _ \<Rightarrow> (0, 0));
         upd_poller (\<lambda>q. q\<lparr>signal_fds := p\<rparr>);
         r \<leftarrow> set_nonblock k (fst p);
         if r = -1 then State_Monad.return (-1)
         else do {
           r \<leftarrow> set_nonblock k (snd p);
           if r = -1 then State_Monad.return (-1)
           else do {
             upd_poller (\<lambda>q. q\<lparr>fds := [], signals := [], pollfds := [], dirty := True,
               fd_event_sources := 1\<rparr>);
             State_Monad.update (\<lambda>w. w\<lparr>global_poller := True\<rparr>);
             State_Monad.return 0
           }
         }
       }
     }
   }"

primrec reset_signals ::
    "kernel \<Rightarrow> (nat \<times> event_source_signal) list \<Rightarrow> ('a os_scheme, unit) state" where
  "reset_signals k [] = State_Monad.return ()"
| "reset_signals k (s # ss) = do {
     _ \<leftarrow> sys_val k (Sys_sigaction (ss_signal (snd s)) False);
     reset_signals k ss
   }"

definition poller_finish :: "kernel \<Rightarrow> ('a poll_os_scheme, int) state" where
  "poller_finish k = do {
     upd_poller (\<lambda>p. p\<lparr>fds := []\<rparr>);
     p \<leftarrow> get_poller;
     reset_signals k (signals p);
     upd_poller (\<lambda>p. p\<lparr>signals := [], pollfds := []\<rparr>);
     State_Monad.update (\<lambda>w. w\<lparr>global_poller := False\<rparr>);
     State_Monad.return 0
   }"

definition poller_add_fd ::
    "kernel \<Rightarrow> int \<Rightarrow> u32 \<Rightarrow> fd_func \<Rightarrow> ('a poll_os_scheme, nat option) state" where
  "poller_add_fd k fd ev func = do {
     a \<leftarrow> calloc k;
     case a of
       None \<Rightarrow> State_Monad.return None
     | Some a \<Rightarrow> do {
         let e = \<lparr>es_func = func, es_fd = fd, es_mask = ev, es_killed = False, pollfd_idx = -1\<rparr>;
         upd_poller (\<lambda>p. p\<lparr>fd_event_sources := fd_event_sources p + 1, dirty := True,
           fds := (a, e) # fds p\<rparr>);
         State_Monad.return (Some a)
       }
   }"

text \<open>Updating the source at an address; using a freed source is an error.\<close>

definition upd_source ::
    "nat \<Rightarrow> (event_source_fd \<Rightarrow> event_source_fd) \<Rightarrow> ('a poll_os_scheme, unit) state" where
  "upd_source a f = do {
     p \<leftarrow> get_poller;
     if a \<notin> fst ` set (fds p) then abort_now
     else upd_poller (\<lambda>p. p\<lparr>fds := upd_at a f (fds p)\<rparr>)
   }"

definition event_source_fd_destroy :: "nat \<Rightarrow> ('a poll_os_scheme, int) state" where
  "event_source_fd_destroy a = do {
     upd_poller (\<lambda>p. p\<lparr>fd_event_sources := fd_event_sources p - 1, dirty := True\<rparr>);
     upd_source a (\<lambda>e. e\<lparr>es_killed := True\<rparr>);
     State_Monad.return 0
   }"

definition event_source_fd_update :: "nat \<Rightarrow> u32 \<Rightarrow> ('a poll_os_scheme, int) state" where
  "event_source_fd_update a ev = do {
     upd_source a (\<lambda>e. e\<lparr>es_mask := ev\<rparr>);
     upd_poller (\<lambda>p. p\<lparr>dirty := True\<rparr>);
     State_Monad.return 0
   }"

definition poller_add_signal ::
    "kernel \<Rightarrow> int \<Rightarrow> signal_func \<Rightarrow> ('a poll_os_scheme, nat option) state" where
  "poller_add_signal k sig func = do {
     a \<leftarrow> calloc k;
     case a of
       None \<Rightarrow> State_Monad.return None
     | Some a \<Rightarrow> do {
         _ \<leftarrow> sys_val k (Sys_sigaction sig True);
         let s = \<lparr>ss_func = func, ss_signal = sig, ss_raised = False, ss_killed = False\<rparr>;
         upd_poller (\<lambda>p. p\<lparr>signals := (a, s) # signals p\<rparr>);
         State_Monad.return (Some a)
       }
   }"

definition event_source_signal_destroy :: "kernel \<Rightarrow> nat \<Rightarrow> ('a poll_os_scheme, int) state" where
  "event_source_signal_destroy k a = do {
     p \<leftarrow> get_poller;
     case map_of (signals p) a of
       None \<Rightarrow> do { abort_now; State_Monad.return 0 }
     | Some s \<Rightarrow> do {
         let refcnt = length (filter (\<lambda>(_, b). ss_signal b = ss_signal s \<and> \<not> ss_killed b) (signals p));
         _ \<leftarrow> (if refcnt = 0 then sys_val k (Sys_sigaction (ss_signal s) False) else State_Monad.return 0);
         upd_poller (\<lambda>p. p\<lparr>dirty := True, signals := upd_at a (\<lambda>t. t\<lparr>ss_killed := True\<rparr>) (signals p)\<rparr>);
         State_Monad.return 0
       }
   }"

definition event_mask_to_poll_mask :: "u32 \<Rightarrow> u16" where
  "event_mask_to_poll_mask m =
     (if m AND EVENT_READABLE \<noteq> 0 then POLLIN else 0) OR (if m AND EVENT_WRITABLE \<noteq> 0 then POLLOUT else 0)"

definition poll_mask_to_event_mask :: "u16 \<Rightarrow> u32" where
  "poll_mask_to_event_mask m =
     (if m AND POLLIN \<noteq> 0 then EVENT_READABLE else 0) OR
     (if m AND POLLOUT \<noteq> 0 then EVENT_WRITABLE else 0) OR
     (if m AND POLLERR \<noteq> 0 then EVENT_ERROR else 0) OR
     (if m AND POLLHUP \<noteq> 0 then EVENT_HANGUP else 0)"

text \<open>
  The loop of \<open>regenerate\<close> over the sources: it drops the killed ones and gives each other one
  an entry of the array. The last component is false once an assertion failed.
\<close>

primrec regen_fds :: "(nat \<times> event_source_fd) list \<Rightarrow> nat \<Rightarrow> pollfd list \<Rightarrow>
    (nat \<times> event_source_fd) list \<times> nat \<times> pollfd list \<times> bool" where
  "regen_fds [] idx p = ([], idx, p, True)"
| "regen_fds (s # ss) idx p =
     (if es_killed (snd s) then regen_fds ss idx p
      else
        let e = snd s;
            (ss', idx', p', ok) = regen_fds ss (idx + 1) (p[idx := \<lparr>pfd_fd = es_fd e,
              pfd_events = event_mask_to_poll_mask (es_mask e), pfd_revents = 0\<rparr>])
        in ((fst s, e\<lparr>pollfd_idx := int idx\<rparr>) # ss', idx', p', idx < length p \<and> ok))"

definition regenerate :: "kernel \<Rightarrow> ('a poll_os_scheme, int) state" where
  "regenerate k = do {
     p \<leftarrow> get_poller;
     r \<leftarrow> (if fd_event_sources p > length (pollfds p) then do {
             r \<leftarrow> sys_val k Sys_realloc;
             if r = -1 then State_Monad.return (-1)
             else do {
               upd_poller (\<lambda>p. p\<lparr>pollfds := pollfds p @
                 replicate (fd_event_sources p - length (pollfds p)) \<lparr>pfd_fd = 0, pfd_events = 0, pfd_revents = 0\<rparr>\<rparr>);
               State_Monad.return 0
             }
           } else State_Monad.return (0::int));
     if r = -1 then State_Monad.return (-1)
     else do {
       p \<leftarrow> get_poller;
       let (ss, idx, pfds, ok) = regen_fds (fds p) 1
         ((pollfds p)[0 := \<lparr>pfd_fd = fst (signal_fds p), pfd_events = POLLIN, pfd_revents = 0\<rparr>]);
       upd_poller (\<lambda>p. p\<lparr>fds := ss, pollfds := pfds\<rparr>);
       _ \<leftarrow> (if ok \<and> idx = fd_event_sources p then State_Monad.return () else abort_now);
       upd_poller (\<lambda>p. p\<lparr>signals := filter (\<lambda>(_, s). \<not> ss_killed s) (signals p)\<rparr>);
       State_Monad.return 0
     }
   }"

text \<open>Emptying the signal pipe: read until the read fails.\<close>

primrec drain :: "nat \<Rightarrow> kernel \<Rightarrow> int \<Rightarrow> ('a os_scheme, unit) state" where
  "drain 0 k fd = set_stuck"
| "drain (Suc n) k fd = do {
     r \<leftarrow> sys_val k (Sys_read fd 8);
     if r = -1 then State_Monad.return () else drain n k fd
   }"

text \<open>
  The two loops of \<open>dispatch\<close>. Handlers only insert sources at the head of the lists and never
  unlink one, so the loops visit the sources that are in the lists when they start.
\<close>

primrec dispatch_signals ::
    "(signal_func \<Rightarrow> int \<Rightarrow> ('a poll_os_scheme, int) state) \<Rightarrow> nat list \<Rightarrow> ('a poll_os_scheme, unit) state"
where
  "dispatch_signals call [] = State_Monad.return ()"
| "dispatch_signals call (a # as) = do {
     p \<leftarrow> get_poller;
     _ \<leftarrow> (case map_of (signals p) a of
       None \<Rightarrow> abort_now
     | Some s \<Rightarrow>
         if \<not> ss_raised s \<or> ss_killed s then State_Monad.return ()
         else do {
           _ \<leftarrow> call (ss_func s) (ss_signal s);
           upd_poller (\<lambda>p. p\<lparr>signals := upd_at a (\<lambda>t. t\<lparr>ss_raised := False\<rparr>) (signals p)\<rparr>)
         });
     dispatch_signals call as
   }"

primrec dispatch_fds ::
    "(fd_func \<Rightarrow> int \<Rightarrow> u32 \<Rightarrow> ('a poll_os_scheme, int) state) \<Rightarrow> nat list \<Rightarrow> ('a poll_os_scheme, unit) state"
where
  "dispatch_fds call [] = State_Monad.return ()"
| "dispatch_fds call (a # as) = do {
     p \<leftarrow> get_poller;
     _ \<leftarrow> (case map_of (fds p) a of
       None \<Rightarrow> abort_now
     | Some e \<Rightarrow>
         if pollfd_idx e = -1 \<or> es_killed e then State_Monad.return ()
         else if \<not> pollfd_idx e < int (length (pollfds p)) then abort_now
         else
           let pf = pollfds p ! nat (pollfd_idx e) in
           if pfd_revents pf = 0 then State_Monad.return ()
           else do {
             _ \<leftarrow> call (es_func e) (pfd_fd pf) (poll_mask_to_event_mask (pfd_revents pf));
             State_Monad.return ()
           });
     dispatch_fds call as
   }"

definition dispatch :: "kernel \<Rightarrow> (signal_func \<Rightarrow> int \<Rightarrow> ('a poll_os_scheme, int) state) \<Rightarrow>
    (fd_func \<Rightarrow> int \<Rightarrow> u32 \<Rightarrow> ('a poll_os_scheme, int) state) \<Rightarrow> ('a poll_os_scheme, unit) state" where
  "dispatch k call_signal call_fd = do {
     p \<leftarrow> get_poller;
     _ \<leftarrow> (if pfd_revents (pollfds p ! 0) AND POLLIN \<noteq> 0 then do {
             drain (retry_fuel k) k (fst (signal_fds p));
             p \<leftarrow> get_poller;
             dispatch_signals call_signal (map fst (signals p))
           } else State_Monad.return ());
     p \<leftarrow> get_poller;
     dispatch_fds call_fd (map fst (fds p))
   }"

text \<open>What a successful \<open>poll\<close> stores in the array.\<close>

definition store_revents :: "int list \<Rightarrow> pollfd list \<Rightarrow> pollfd list" where
  "store_revents rs ps = map (\<lambda>(i, p). if i < length rs then p\<lparr>pfd_revents := of_int (rs ! i)\<rparr> else p)
     (zip [0..<length ps] ps)"

definition poller_poll :: "kernel \<Rightarrow> (signal_func \<Rightarrow> int \<Rightarrow> ('a poll_os_scheme, int) state) \<Rightarrow>
    (fd_func \<Rightarrow> int \<Rightarrow> u32 \<Rightarrow> ('a poll_os_scheme, int) state) \<Rightarrow> ('a poll_os_scheme, int) state" where
  "poller_poll k call_signal call_fd = do {
     p \<leftarrow> get_poller;
     r \<leftarrow> (if dirty p then do {
             r \<leftarrow> regenerate k;
             if r = -1 then State_Monad.return (-1)
             else do {
               upd_poller (\<lambda>p. p\<lparr>dirty := False\<rparr>);
               State_Monad.return 0
             }
           } else State_Monad.return (0::int));
     if r = -1 then State_Monad.return (-1)
     else do {
       p \<leftarrow> get_poller;
       r \<leftarrow> retry_eintr (retry_fuel k) k (Sys_poll (map (\<lambda>f. (pfd_fd f, pfd_events f))
              (take (fd_event_sources p) (pollfds p))));
       if sr_val r = -1 then State_Monad.return (-1)
       else do {
         upd_poller (\<lambda>p. p\<lparr>pollfds := store_revents (take (fd_event_sources p) (sr_ints r)) (pollfds p)\<rparr>);
         dispatch k call_signal call_fd;
         State_Monad.return 0
       }
     }
   }"

section \<open>Weakest preconditions\<close>

lemma wp_upd_poller [wp_simps]:
  "wp (upd_poller f) Q = (\<lambda>w. Q () (w\<lparr>the_poller := f (the_poller w)\<rparr>))"
  by (simp add: upd_poller_def wp_simps)

lemma wp_get_poller [wp_simps]: "wp get_poller Q = (\<lambda>w. Q (the_poller w) w)"
  by (simp add: get_poller_def wp_simps)

lemma wp_upd_source [wp_simps]:
  "wp (upd_source a f) Q = (\<lambda>w.
     if a \<in> fst ` set (fds (the_poller w))
     then Q () (w\<lparr>the_poller := (the_poller w)\<lparr>fds := upd_at a f (fds (the_poller w))\<rparr>\<rparr>)
     else Q () (w\<lparr>aborted := True\<rparr>))"
  by (auto simp: upd_source_def wp_simps fun_eq_iff)

lemma set_nonblock_calls [calls_frame]: "state_io_rel os_calls (set_nonblock k fd)"
  unfolding set_nonblock_def by (intro calls.rules calls_frame)

lemma reset_signals_calls [calls_frame]: "state_io_rel os_calls (reset_signals k ss)"
  by (induction ss) (auto intro!: calls.rules calls_frame)

lemma drain_step [step_frame]: "state_io_rel os_step (drain n k fd)"
  by (induction n) (auto intro!: step.rules step_frame calls_frame [THEN io_calls_imp_step])

section \<open>The poll set\<close>

abbreviation (input) live :: "(nat \<times> event_source_fd) list \<Rightarrow> (nat \<times> event_source_fd) list" where
  "live \<equiv> filter (\<lambda>s. \<not> es_killed (snd s))"

definition pollfd_of :: "event_source_fd \<Rightarrow> pollfd" where
  "pollfd_of e = \<lparr>pfd_fd = es_fd e, pfd_events = event_mask_to_poll_mask (es_mask e), pfd_revents = 0\<rparr>"

fun number :: "nat \<Rightarrow> (nat \<times> event_source_fd) list \<Rightarrow> (nat \<times> event_source_fd) list" where
  "number i [] = []"
| "number i (s # ss) = (fst s, (snd s)\<lparr>pollfd_idx := int i\<rparr>) # number (i + 1) ss"

lemma number_simps [simp]:
  "length (number i ss) = length ss" "map fst (number i ss) = map fst ss"
  "live (number i (live ss)) = number i (live ss)"
  by (induction ss arbitrary: i) auto

lemma set_number:
  "(a, e) \<in> set (number i ss) \<Longrightarrow>
     int i \<le> pollfd_idx e \<and> pollfd_idx e < int (i + length ss) \<and> (\<exists>d. (a, d) \<in> set ss \<and> e = d\<lparr>pollfd_idx := pollfd_idx e\<rparr>)"
  by (induction ss arbitrary: i) fastforce+

lemma write_at_step:
  "i < length xs \<Longrightarrow> i + Suc (length ys) \<le> length xs \<Longrightarrow> write_at (xs[i := y]) (Suc i) ys = write_at xs i (y # ys)"
  by (simp add: write_at_def take_Suc_conv_app_nth)

text \<open>With enough room the loop keeps the live sources, in order, numbered from \<open>i\<close> on.\<close>

lemma regen_fds_eq:
  "i + length (live ss) \<le> length p \<Longrightarrow>
   regen_fds ss i p = (number i (live ss), i + length (live ss),
     write_at p i (map (\<lambda>s. pollfd_of (snd s)) (live ss)), True)"
proof (induction ss arbitrary: i p)
  case (Cons s ss)
  then show ?case
    by (auto simp: Let_def write_at_step pollfd_of_def)
qed simp

section \<open>The invariant\<close>

text \<open>
  The number of sources counts the signal pipe and the live descriptors; addresses are
  distinct; indices lie in the array. A clean poller has its array in step with its sources.
\<close>

definition in_step :: "poller \<Rightarrow> bool" where
  "in_step p \<longleftrightarrow> live (fds p) = fds p \<and> fd_event_sources p \<le> length (pollfds p) \<and>
     map (\<lambda>f. (pfd_fd f, pfd_events f)) (take (fd_event_sources p) (pollfds p)) =
       (fst (signal_fds p), POLLIN) # map (\<lambda>s. (es_fd (snd s), event_mask_to_poll_mask (es_mask (snd s)))) (fds p) \<and>
     map (\<lambda>s. pollfd_idx (snd s)) (fds p) = map int [1..<fd_event_sources p]"

lemma in_step_upd [simp]:
  "in_step (p\<lparr>signals := ss\<rparr>) = in_step p" "in_step (p\<lparr>dirty := d\<rparr>) = in_step p"
  by (simp_all add: in_step_def)

definition poller_ok :: "poller \<Rightarrow> bool" where
  "poller_ok p \<longleftrightarrow> distinct (map fst (fds p)) \<and> distinct (map fst (signals p)) \<and>
     fd_event_sources p = Suc (length (live (fds p))) \<and>
     (\<forall>a e. (a, e) \<in> set (fds p) \<longrightarrow> -1 \<le> pollfd_idx e \<and> pollfd_idx e < int (length (pollfds p))) \<and>
     (\<not> dirty p \<longrightarrow> in_step p)"

text \<open>\<open>poll_step\<close>: besides the calls, only the poller and the allocator change.\<close>

definition poll_step :: "'a poll_os_scheme \<Rightarrow> 'a poll_os_scheme \<Rightarrow> bool" where
  "poll_step w w' \<longleftrightarrow> poll_os.more w' = poll_os.more w \<and> aborted w' = aborted w \<and>
     global_poller w' = global_poller w \<and> next_addr w \<le> next_addr w' \<and>
     (\<exists>t. trace w' = t @ trace w) \<and> (stuck w \<longrightarrow> stuck w')"

interpretation pstep: frame_rel poll_step
  by unfold_locales (auto simp: poll_step_def)

lemma os_step_poll:
  assumes "os_step w w'"
  shows "poll_step w w'" and "the_poller w' = the_poller w" and "next_addr w' = next_addr w"
  using assms by (cases w; cases w'; simp add: os_step_def poll_step_def)+

lemma number_fields:
  "map (\<lambda>s. (es_fd (snd s), event_mask_to_poll_mask (es_mask (snd s)))) (number i ls) =
     map (\<lambda>s. (es_fd (snd s), event_mask_to_poll_mask (es_mask (snd s)))) ls"
  "map (\<lambda>s. pollfd_idx (snd s)) (number i ls) = map int [i..<i + length ls]"
  by (induction ls arbitrary: i) (auto simp: upt_rec)

lemma in_step_write:
  assumes "fds q = number 1 (live ss)" and "fd_event_sources q = Suc (length (live ss))"
    and "Suc (length (live ss)) \<le> length ps"
    and "pollfds q = write_at (ps[0 := \<lparr>pfd_fd = fst (signal_fds q), pfd_events = POLLIN, pfd_revents = 0\<rparr>]) 1
      (map (\<lambda>s. pollfd_of (snd s)) (live ss))"
  shows "in_step q"
proof -
  have "take (Suc (length (live ss))) (write_at (ps[0 := x]) 1 (map f (live ss))) = x # map f (live ss)"
    for x and f :: "_ \<Rightarrow> pollfd"
    using assms(3) by (cases ps) (auto simp: write_at_def)
  with assms(3) number_fields [of "Suc 0" "live ss"] show ?thesis
    by (simp add: in_step_def assms(1,2,4) pollfd_of_def comp_def)
qed

lemma regenerate_wp:
  assumes "poller_ok (the_poller w)"
  shows "wp (regenerate k) (\<lambda>r w'. poll_step w w' \<and> next_addr w' = next_addr w \<and>
    (r = -1 \<and> the_poller w' = the_poller w \<or>
     r = 0 \<and> in_step (the_poller w') \<and> fds (the_poller w') = number 1 (live (fds (the_poller w))) \<and>
       signals (the_poller w') = filter (\<lambda>(_, s). \<not> ss_killed s) (signals (the_poller w)) \<and>
       signal_fds (the_poller w') = signal_fds (the_poller w) \<and>
       fd_event_sources (the_poller w') = fd_event_sources (the_poller w))) w"
proof -
  let ?p = "the_poller w"
  have n: "fd_event_sources ?p = Suc (length (live (fds ?p)))"
    using assms by (auto simp: poller_ok_def)
  then show ?thesis
    by (auto simp: regenerate_def wp_simps Let_def regen_fds_eq poll_step_def
        intro!: in_step_write [where ss = "fds ?p"])
qed

lemma regenerate_ok:
  assumes "poller_ok p" and "in_step q" and "fd_event_sources q = fd_event_sources p"
    and "fds q = number 1 (live (fds p))" and "signals q = filter (\<lambda>(_, s). \<not> ss_killed s) (signals p)"
  shows "poller_ok q"
  using assms
  by (auto simp: poller_ok_def in_step_def distinct_map inj_on_def dest!: set_number)

definition poll_inv :: "'a poll_os_scheme \<Rightarrow> bool" where
  "poll_inv w \<longleftrightarrow> poller_ok (the_poller w) \<and>
     (\<forall>a \<in> fst ` set (fds (the_poller w)) \<union> fst ` set (signals (the_poller w)). a < next_addr w)"

lemma calloc_wp [wp_simps]:
  "wp (calloc k) Q = (\<lambda>w. let r = answer k (trace w) Sys_calloc;
     v = w\<lparr>trace := (Sys_calloc, r) # trace w, errno := (if sr_val r = -1 then sr_errno r else errno w)\<rparr>
     in if sr_val r = -1 then Q None v else Q (Some (next_addr w)) (v\<lparr>next_addr := Suc (next_addr w)\<rparr>))"
  by (simp add: calloc_def wp_simps Let_def fun_eq_iff)

lemma poller_add_fd_wp:
  assumes "poll_inv w"
  shows "wp (poller_add_fd k fd ev func) (\<lambda>r w'. poll_step w w' \<and> poll_inv w' \<and> stuck w' = stuck w \<and>
    (case r of None \<Rightarrow> the_poller w' = the_poller w \<and> next_addr w' = next_addr w
     | Some a \<Rightarrow> a = next_addr w \<and> next_addr w' = Suc a \<and> the_poller w' = (the_poller w)
         \<lparr>fd_event_sources := Suc (fd_event_sources (the_poller w)), dirty := True,
          fds := (a, \<lparr>es_func = func, es_fd = fd, es_mask = ev, es_killed = False, pollfd_idx = -1\<rparr>) # fds (the_poller w)\<rparr>)) w"
proof -
  have "next_addr w \<notin> fst ` set (fds (the_poller w))"
    using assms by (auto simp: poll_inv_def)
  with assms show ?thesis
    by (auto simp: poller_add_fd_def wp_simps Let_def poll_inv_def poller_ok_def poll_step_def less_Suc_eq)
qed

text \<open>The address of a live source, and what killing it or changing its mask does.\<close>

definition live_source :: "poller \<Rightarrow> nat \<Rightarrow> fd_func \<Rightarrow> bool" where
  "live_source p a f \<longleftrightarrow> (\<exists>e. (a, e) \<in> set (fds p) \<and> \<not> es_killed e \<and> es_func e = f)"

lemma upd_at_simps [simp]: "map fst (upd_at a f ss) = map fst ss" "fst ` set (upd_at a f ss) = fst ` set ss"
proof -
  show "map fst (upd_at a f ss) = map fst ss"
    by (induction ss) (auto simp: upd_at_def)
  then show "fst ` set (upd_at a f ss) = fst ` set ss"
    by (metis list.set_map)
qed

lemma upd_at_Cons [simp]: "upd_at a f (s # ss) = (fst s, if fst s = a then f (snd s) else snd s) # upd_at a f ss"
  by (simp add: upd_at_def case_prod_beta)

lemma upd_at_Nil [simp]: "upd_at a f [] = []"
  by (simp add: upd_at_def)

lemma set_upd_at: "(b, e) \<in> set (upd_at a f ss) \<longleftrightarrow> (\<exists>d. (b, d) \<in> set ss \<and> e = (if b = a then f d else d))"
  by (induction ss) auto

lemma upd_at_notin: "a \<notin> fst ` set ss \<Longrightarrow> upd_at a f ss = ss"
  by (induction ss) auto

lemma live_upd_at:
  "(\<And>e. es_killed (f e) = es_killed e) \<Longrightarrow> length (live (upd_at a f ss)) = length (live ss)"
  by (induction ss) auto

lemma length_live_kill:
  "distinct (map fst ss) \<Longrightarrow> (a, e) \<in> set ss \<Longrightarrow> \<not> es_killed e \<Longrightarrow>
     Suc (length (live (upd_at a (\<lambda>e. e\<lparr>es_killed := True\<rparr>) ss))) = length (live ss)"
proof (induction ss)
  case (Cons s ss)
  show ?case
  proof (cases "fst s = a")
    case True
    with Cons.prems have "s = (a, e)" "a \<notin> fst ` set ss" by (force simp: image_iff)+
    with Cons.prems show ?thesis by (simp add: upd_at_notin)
  next
    case False
    with Cons show ?thesis by (cases s) auto
  qed
qed simp

lemma poll_inv_upd_at:
  assumes "poll_inv w" and "\<And>e. pollfd_idx (f e) = pollfd_idx e"
    and "fd_event_sources q = Suc (length (live (upd_at a f (fds (the_poller w)))))"
    and "fds q = upd_at a f (fds (the_poller w))" and "dirty q"
    and "signals q = signals (the_poller w)" and "pollfds q = pollfds (the_poller w)"
  shows "poll_inv (w\<lparr>the_poller := q\<rparr>)"
proof -
  have "-1 \<le> pollfd_idx e \<and> pollfd_idx e < int (length (pollfds (the_poller w)))"
    if "(b, e) \<in> set (upd_at a f (fds (the_poller w)))" for b e
    using that assms(1,2) by (cases "b = a") (auto simp: set_upd_at poll_inv_def poller_ok_def)
  with assms(1,3-) show ?thesis
    by (simp add: poll_inv_def poller_ok_def)
qed

lemma event_source_fd_destroy_wp:
  assumes "poll_inv w" and "live_source (the_poller w) a f"
  shows "wp (event_source_fd_destroy a) (\<lambda>r w'. poll_inv w' \<and> w' = w\<lparr>the_poller := (the_poller w)
    \<lparr>fd_event_sources := fd_event_sources (the_poller w) - 1, dirty := True,
     fds := upd_at a (\<lambda>e. e\<lparr>es_killed := True\<rparr>) (fds (the_poller w))\<rparr>\<rparr>) w"
proof -
  obtain e where e: "(a, e) \<in> set (fds (the_poller w))" "\<not> es_killed e"
    using assms(2) by (auto simp: live_source_def)
  then have mem: "a \<in> fst ` set (fds (the_poller w))" by force
  have "fd_event_sources (the_poller w) - 1 =
    Suc (length (live (upd_at a (\<lambda>e. e\<lparr>es_killed := True\<rparr>) (fds (the_poller w)))))"
    using assms(1) length_live_kill [OF _ e] by (simp add: poll_inv_def poller_ok_def)
  with mem show ?thesis
    by (simp add: event_source_fd_destroy_def wp_simps
        poll_inv_upd_at [OF assms(1), where a = a and f = "\<lambda>e. e\<lparr>es_killed := True\<rparr>"])
qed

lemma event_source_fd_update_wp:
  assumes "poll_inv w" and "live_source (the_poller w) a f"
  shows "wp (event_source_fd_update a ev) (\<lambda>r w'. r = 0 \<and> poll_inv w' \<and> w' = w\<lparr>the_poller := (the_poller w)
    \<lparr>fds := upd_at a (\<lambda>e. e\<lparr>es_mask := ev\<rparr>) (fds (the_poller w)), dirty := True\<rparr>\<rparr>) w"
proof -
  have mem: "a \<in> fst ` set (fds (the_poller w))"
    using assms(2) by (force simp: live_source_def)
  have "fd_event_sources (the_poller w) =
    Suc (length (live (upd_at a (\<lambda>e. e\<lparr>es_mask := ev\<rparr>) (fds (the_poller w)))))"
    using assms(1) by (simp add: poll_inv_def poller_ok_def live_upd_at)
  with mem show ?thesis
    by (simp add: event_source_fd_update_def wp_simps
        poll_inv_upd_at [OF assms(1), where a = a and f = "\<lambda>e. e\<lparr>es_mask := ev\<rparr>"])
qed

end
