(* ===== verification/Poller_Loop.thy ===== *)
theory Poller_Loop
  imports Poller
begin

text \<open>
  The contract between the event loop of \<open>seatd/poller.c\<close> and the handlers it calls, and the
  lemma that one round of the loop keeps every invariant that the handlers keep.
\<close>

section \<open>The handlers' contract\<close>

text \<open>
  \<open>poll_frame w w'\<close>: what the loop itself does to the state between two handlers. It keeps the
  live sources and the signals that are handled, and raises no signal. \<open>handled w w'\<close>: what a handler may not do, namely unlink
  a source.
\<close>

definition signal_pairs :: "poller \<Rightarrow> (int \<times> signal_func) set" where
  "signal_pairs p = (\<lambda>(a, s). (ss_signal s, ss_func s)) ` {(a, s) \<in> set (signals p). \<not> ss_killed s}"

lemma signal_pairs_simps [simp]:
  "signal_pairs (p\<lparr>dirty := d\<rparr>) = signal_pairs p" "signal_pairs (p\<lparr>pollfds := fs\<rparr>) = signal_pairs p"
  by (simp_all add: signal_pairs_def)

lemma signal_pairs_live:
  assumes "signals q = filter (\<lambda>(_, s). \<not> ss_killed s) (signals p)"
  shows "signal_pairs q = signal_pairs p"
  by (auto simp: signal_pairs_def assms image_iff)

lemma signal_pairs_upd:
  assumes "\<And>s. ss_signal (f s) = ss_signal s \<and> ss_func (f s) = ss_func s \<and> ss_killed (f s) = ss_killed s"
  shows "signal_pairs (p\<lparr>signals := upd_at a f (signals p)\<rparr>) = signal_pairs p"
proof -
  have "(b, s) \<in> set (upd_at a f ss) \<Longrightarrow> \<exists>s'. (b, s') \<in> set ss \<and> ss_signal s' = ss_signal s \<and> ss_func s' = ss_func s \<and> ss_killed s' = ss_killed s"
    and "(b, s) \<in> set ss \<Longrightarrow> \<exists>s'. (b, s') \<in> set (upd_at a f ss) \<and> ss_signal s' = ss_signal s \<and> ss_func s' = ss_func s \<and> ss_killed s' = ss_killed s"
    for b s ss
    using assms by (auto simp: set_upd_at)
  then show ?thesis unfolding signal_pairs_def by (fastforce simp: image_iff)
qed

definition poll_frame :: "'a poll_os_scheme \<Rightarrow> 'a poll_os_scheme \<Rightarrow> bool" where
  "poll_frame w w' \<longleftrightarrow> poll_step w w' \<and> next_addr w' = next_addr w \<and> poll_inv w' \<and>
     (\<forall>a f. live_source (the_poller w') a f = live_source (the_poller w) a f) \<and>
     signal_pairs (the_poller w') = signal_pairs (the_poller w) \<and>
     (\<forall>a s. (a, s) \<in> set (signals (the_poller w')) \<longrightarrow> ss_raised s \<longrightarrow> (a, s) \<in> set (signals (the_poller w)))"

definition handled :: "'a poll_os_scheme \<Rightarrow> 'a poll_os_scheme \<Rightarrow> bool" where
  "handled w w' \<longleftrightarrow> fst ` set (fds (the_poller w)) \<subseteq> fst ` set (fds (the_poller w')) \<and>
     fst ` set (signals (the_poller w)) \<subseteq> fst ` set (signals (the_poller w'))"

interpretation handled: frame_rel handled
proof
  show "handled w w" for w :: "'a poll_os_scheme"
    by (simp add: handled_def)
  show "handled u w" if "handled u v" "handled v w" for u v w :: "'a poll_os_scheme"
    using that unfolding handled_def by (meson subset_trans)
qed

lemma handled_addrs:
  assumes "handled w v"
  shows "set (a # as) \<subseteq> fst ` set (fds (the_poller w)) \<Longrightarrow> set as \<subseteq> fst ` set (fds (the_poller v))"
    and "set (a # as) \<subseteq> fst ` set (signals (the_poller w)) \<Longrightarrow> set as \<subseteq> fst ` set (signals (the_poller v))"
  using assms unfolding handled_def by (meson set_subset_Cons subset_trans)+

lemma poll_frame_raised:
  assumes "poll_inv w"
  shows "poll_frame w (w\<lparr>the_poller := (the_poller w)\<lparr>signals :=
    upd_at a (\<lambda>t. t\<lparr>ss_raised := False\<rparr>) (signals (the_poller w))\<rparr>\<rparr>)" (is "poll_frame w ?v")
proof -
  have "poll_inv ?v"
    using assms by (simp add: poll_inv_def poller_ok_def)
  moreover have "(b, s) \<in> set (signals (the_poller w))"
    if "(b, s) \<in> set (upd_at a (\<lambda>t. t\<lparr>ss_raised := False\<rparr>) (signals (the_poller w)))" "ss_raised s" for b s
    using that by (cases "b = a") (auto simp: set_upd_at)
  ultimately show ?thesis
    by (simp add: poll_frame_def poll_step_def live_source_def signal_pairs_upd)
qed

lemma poll_frame_os: "poll_inv w \<Longrightarrow> os_step w w' \<Longrightarrow> poll_frame w w'"
  by (simp add: poll_frame_def os_step_poll poll_inv_def)

lemma live_source_number:
  assumes "fds q = number i (live (fds p))"
  shows "live_source q a f = live_source p a f"
proof -
  have "(\<exists>e. (a, e) \<in> set (number i (live ss)) \<and> \<not> es_killed e \<and> es_func e = f) =
    (\<exists>e. (a, e) \<in> set ss \<and> \<not> es_killed e \<and> es_func e = f)" for ss
    by (induction ss arbitrary: i) auto
  then show ?thesis by (simp add: live_source_def assms)
qed

lemma regenerate_frame:
  assumes "poll_inv w"
  shows "wp (regenerate k) (\<lambda>r w'. poll_frame w w' \<and>
    (r = 0 \<longrightarrow> poll_frame w (w'\<lparr>the_poller := (the_poller w')\<lparr>dirty := False\<rparr>\<rparr>))) w"
proof -
  have ok: "poller_ok (the_poller w)" using assms by (simp add: poll_inv_def)
  have live: "live_source q a f = live_source (the_poller w) a f"
    if "fds q = number 1 (live (fds (the_poller w)))" for q a f
    using that by (rule live_source_number)
  have addrs: "a < next_addr w" if mem: "(a, e) \<in> set (number 1 (live (fds (the_poller w))))" for a e
  proof -
    obtain d where "(a, d) \<in> set (fds (the_poller w))"
      using set_number [OF mem] by auto
    then show ?thesis using assms unfolding poll_inv_def by force
  qed
  have keep: "poll_frame w v"
    if "poll_step w v" "next_addr v = next_addr w" "in_step (the_poller v)"
      "fds (the_poller v) = number 1 (live (fds (the_poller w)))"
      "signals (the_poller v) = filter (\<lambda>(_, s). \<not> ss_killed s) (signals (the_poller w))"
      "fd_event_sources (the_poller v) = fd_event_sources (the_poller w)" for v
  proof -
    have "poller_ok (the_poller v)" by (rule regenerate_ok [OF ok that(3,6,4,5)])
    moreover have "a < next_addr w" if "a \<in> fst ` set (fds (the_poller v))" for a
      using that addrs unfolding \<open>fds (the_poller v) = _\<close> by force
    moreover have "a < next_addr w" if "a \<in> fst ` set (signals (the_poller v))" for a
      using that assms unfolding \<open>signals (the_poller v) = _\<close> poll_inv_def by force
    ultimately have "poll_inv v"
      unfolding poll_inv_def that(2) by blast
    then show ?thesis
      unfolding poll_frame_def using that(1,2,5) live [OF that(4)] signal_pairs_live [OF that(5)] by simp
  qed
  show ?thesis
  proof (rule wp_mono [OF regenerate_wp [OF ok]])
    fix r :: int and w'
    assume post: "poll_step w w' \<and> next_addr w' = next_addr w \<and>
      (r = -1 \<and> the_poller w' = the_poller w \<or>
       r = 0 \<and> in_step (the_poller w') \<and> fds (the_poller w') = number 1 (live (fds (the_poller w))) \<and>
         signals (the_poller w') = filter (\<lambda>(_, s). \<not> ss_killed s) (signals (the_poller w)) \<and>
         signal_fds (the_poller w') = signal_fds (the_poller w) \<and>
         fd_event_sources (the_poller w') = fd_event_sources (the_poller w))"
    let ?v = "w'\<lparr>the_poller := (the_poller w')\<lparr>dirty := False\<rparr>\<rparr>"
    show "poll_frame w w' \<and> (r = 0 \<longrightarrow> poll_frame w ?v)"
    proof (cases "r = 0")
      case True
      with post have "poll_step w w'" "next_addr w' = next_addr w" "in_step (the_poller w')"
        "fds (the_poller w') = number 1 (live (fds (the_poller w)))"
        "signals (the_poller w') = filter (\<lambda>(_, s). \<not> ss_killed s) (signals (the_poller w))"
        "fd_event_sources (the_poller w') = fd_event_sources (the_poller w)"
        by simp_all
      moreover from this have "poll_step w ?v" by (simp add: poll_step_def)
      ultimately show ?thesis by (intro conjI impI keep) simp_all
    next
      case False
      with post have "poll_step w w'" "next_addr w' = next_addr w" "the_poller w' = the_poller w"
        by simp_all
      with assms False show ?thesis by (simp add: poll_frame_def poll_inv_def)
    qed
  qed
qed

lemma poll_frame_revents:
  assumes "poll_inv w"
  shows "poll_frame w (w\<lparr>the_poller := (the_poller w)\<lparr>pollfds := store_revents rs (pollfds (the_poller w))\<rparr>\<rparr>)"
proof -
  have fields: "map (\<lambda>f. (pfd_fd f, pfd_events f)) (take n (store_revents rs ps)) = map (\<lambda>f. (pfd_fd f, pfd_events f)) (take n ps)"
    and len: "length (store_revents rs ps) = length ps" for n ps
    by (auto intro!: nth_equalityI simp: store_revents_def)
  have "in_step (p\<lparr>pollfds := store_revents rs (pollfds p)\<rparr>) = in_step p" for p
    by (simp add: in_step_def fields len)
  with assms have "poll_inv (w\<lparr>the_poller := (the_poller w)\<lparr>pollfds := store_revents rs (pollfds (the_poller w))\<rparr>\<rparr>)"
    by (simp add: poll_inv_def poller_ok_def len)
  then show ?thesis
    by (simp add: poll_frame_def poll_step_def live_source_def)
qed

text \<open>
  The contract between the loop and the handlers it calls: an invariant \<open>I\<close> that the loop's
  own changes do not affect and that every handler of a live source, or of a raised signal,
  keeps. Then a whole round of the loop keeps it. As \<open>I\<close> excludes an abort, no assertion
  fails on the way and no freed source is used.
\<close>

locale event_handlers =
  fixes I :: "'a poll_os_scheme \<Rightarrow> bool"
    and call_signal :: "signal_func \<Rightarrow> int \<Rightarrow> ('a poll_os_scheme, int) state"
    and call_fd :: "fd_func \<Rightarrow> int \<Rightarrow> u32 \<Rightarrow> ('a poll_os_scheme, int) state"
  assumes I_poll: "I w \<Longrightarrow> poll_inv w"
    and I_frame: "I w \<Longrightarrow> poll_frame w w' \<Longrightarrow> I w'"
    and signal_keeps: "I w \<Longrightarrow> (a, s) \<in> set (signals (the_poller w)) \<Longrightarrow> ss_raised s \<Longrightarrow> \<not> ss_killed s \<Longrightarrow>
      wp (call_signal (ss_func s) (ss_signal s)) (\<lambda>_ w'. I w' \<and> handled w w') w"
    and fd_keeps: "I w \<Longrightarrow> live_source (the_poller w) a f \<Longrightarrow>
      wp (call_fd f fd ev) (\<lambda>_ w'. I w' \<and> handled w w') w"
begin

lemma dispatch_signals_keeps:
  "I w \<Longrightarrow> set as \<subseteq> fst ` set (signals (the_poller w)) \<Longrightarrow>
    wp (dispatch_signals call_signal as) (\<lambda>_ w'. I w' \<and> handled w w') w"
proof (induction as arbitrary: w)
  case Nil
  then show ?case by (simp add: wp_simps handled.refl)
next
  case (Cons a as)
  then obtain s where s: "map_of (signals (the_poller w)) a = Some s"
    by (cases "map_of (signals (the_poller w)) a") (auto simp: map_of_eq_None_iff)
  have rest: "wp (dispatch_signals call_signal as) (\<lambda>_ w'. I w' \<and> handled w w') v"
    if "I v" "handled w v" for v
    by (rule wp_mono [OF Cons.IH [OF that(1) handled_addrs(2) [OF that(2) Cons.prems(2)]]])
      (use handled.trans [OF that(2)] in blast)
  define clear where "clear v = v\<lparr>the_poller := (the_poller v)\<lparr>signals :=
      upd_at a (\<lambda>t. t\<lparr>ss_raised := False\<rparr>) (signals (the_poller v))\<rparr>\<rparr>" for v :: "'a poll_os_scheme"
  have cleared: "I (clear v)" "handled w (clear v)" if "I v" "handled w v" for v
    using I_frame [OF that(1) poll_frame_raised [OF I_poll [OF that(1)], of a]] that(2)
    by (simp_all add: handled_def clear_def)
  show ?case
  proof (cases "ss_raised s \<and> \<not> ss_killed s")
    case True
    have "wp (call_signal (ss_func s) (ss_signal s))
      (\<lambda>_ v. wp (dispatch_signals call_signal as) (\<lambda>_ w'. I w' \<and> handled w w') (clear v)) w"
      by (rule wp_mono [OF signal_keeps [OF Cons.prems(1) map_of_SomeD [OF s]]])
        (use True in \<open>simp_all add: rest cleared\<close>)
    with True s show ?thesis by (simp add: wp_simps clear_def)
  next
    case False
    then show ?thesis using s rest [OF Cons.prems(1) handled.refl] by (auto simp: wp_simps)
  qed
qed

lemma dispatch_fds_keeps:
  "I w \<Longrightarrow> set as \<subseteq> fst ` set (fds (the_poller w)) \<Longrightarrow>
    wp (dispatch_fds call_fd as) (\<lambda>_ w'. I w' \<and> handled w w') w"
proof (induction as arbitrary: w)
  case Nil
  then show ?case by (simp add: wp_simps handled.refl)
next
  case (Cons a as)
  then obtain e where e: "map_of (fds (the_poller w)) a = Some e"
    by (cases "map_of (fds (the_poller w)) a") (auto simp: map_of_eq_None_iff)
  have rest: "wp (dispatch_fds call_fd as) (\<lambda>_ w'. I w' \<and> handled w w') v"
    if "I v" "handled w v" for v
    by (rule wp_mono [OF Cons.IH [OF that(1) handled_addrs(1) [OF that(2) Cons.prems(2)]]])
      (use handled.trans [OF that(2)] in blast)
  have idx: "pollfd_idx e < int (length (pollfds (the_poller w)))"
    using I_poll [OF Cons.prems(1)] map_of_SomeD [OF e] by (auto simp: poll_inv_def poller_ok_def)
  have live: "live_source (the_poller w) a (es_func e)" if "\<not> es_killed e"
    using that map_of_SomeD [OF e] by (auto simp: live_source_def)
  have called: "wp (call_fd (es_func e) fd ev) (\<lambda>_. wp (dispatch_fds call_fd as) (\<lambda>_ w'. I w' \<and> handled w w')) w"
    if "\<not> es_killed e" for fd ev
    by (rule wp_mono [OF fd_keeps [OF Cons.prems(1) live [OF that]]]) (simp add: rest)
  show ?case
    using e idx rest [OF Cons.prems(1) handled.refl] called by (simp add: wp_simps Let_def)
qed

lemma poll_keeps:
  assumes "I w"
  shows "wp (poller_poll k call_signal call_fd) (\<lambda>_ w'. I w') w"
proof -
  have os: "I v" if "I u" "os_step u v" for u v
    by (rule I_frame [OF that(1) poll_frame_os [OF I_poll [OF that(1)] that(2)]])
  have revents: "I (u\<lparr>the_poller := (the_poller u)\<lparr>pollfds := store_revents rs (pollfds (the_poller u))\<rparr>\<rparr>)" if "I u" for u rs
    by (rule I_frame [OF that(1) poll_frame_revents [OF I_poll [OF that(1)]]])
  have regen: "wp (regenerate k) (\<lambda>r w'. I w' \<and> (r \<noteq> -1 \<longrightarrow> I (w'\<lparr>the_poller := (the_poller w')\<lparr>dirty := False\<rparr>\<rparr>))) w"
  proof (rule wp_both [OF regenerate_wp regenerate_frame])
    show "poller_ok (the_poller w)" "poll_inv w"
      using I_poll [OF assms] by (simp_all add: poll_inv_def)
  qed (use I_frame [OF assms] in blast)
  have fds: "wp (dispatch_fds call_fd (map fst (fds (the_poller v)))) (\<lambda>_. I) v" if "I v" for v
    by (rule wp_mono [OF dispatch_fds_keeps [OF that]]) auto
  have signals: "wp (dispatch_signals call_signal (map fst (signals (the_poller v)))) (\<lambda>_. I) v" if "I v" for v
    by (rule wp_mono [OF dispatch_signals_keeps [OF that]]) auto
  have drain: "wp (drain n k fd) (\<lambda>_. I) v" if "I v" for v n fd
    by (rule wp_frame [OF drain_step]) (rule os [OF that])
  have dispatch: "wp (dispatch k call_signal call_fd) (\<lambda>_. I) v" if "I v" for v
    using that by (auto simp: dispatch_def wp_simps intro!: wp_mono [OF drain] wp_mono [OF signals] fds)
  have poll: "wp (retry_eintr n k c) (\<lambda>_. I) v" if "I v" for v n c
    by (rule wp_frame [OF retry_eintr_step]) (rule os [OF that])
  show ?thesis
    using assms
    by (auto simp: poller_poll_def wp_simps intro!: wp_mono [OF regen] wp_mono [OF poll] dispatch revents)
qed

end

end
