(* ===== verification/State.thy ===== *)
theory State
  imports Connection Terminal Poller_Loop
begin

text \<open>
  The data of the server: \<open>include/seat.h\<close>, \<open>client.h\<close>, \<open>control.h\<close>, \<open>server.h\<close>, and access to it.

  Seats, clients and control clients live in heaps indexed by address, and \<open>free\<close> removes
  the entry, so that any later use of the object is an error: the \<open>aborted\<close> flag is set, as
  for a failed assertion or the use of a null pointer. The intrusive lists are lists of
  addresses in list order (the head is the first element; insertion is at the head); the
  pointer level is the subject of the theory on linked lists. The devices and grouped VTs,
  which have one owner each, are stored in their owner's list itself; a pointer to a device is
  its position there. There is one server, so a pointer to it is the flag whether it is set.
\<close>

section \<open>Data\<close>

datatype client_state =
  CLIENT_NEW | CLIENT_ACTIVE | CLIENT_PENDING_DISABLE | CLIENT_DISABLED | CLIENT_CLOSED

datatype seat_device_type =
    SEAT_DEVICE_TYPE_NORMAL
  | SEAT_DEVICE_TYPE_EVDEV
  | SEAT_DEVICE_TYPE_HIDRAW
  | SEAT_DEVICE_TYPE_DRM
  | SEAT_DEVICE_TYPE_WSCONS

record seat_device =
  device_id :: int
  dev_fd :: int
  ref_cnt :: int
  dev_active :: bool
  dev_path :: string
  dev_type :: seat_device_type

record client =
  cl_link_null :: bool \<comment> \<open>\<open>link.next\<close> and \<open>link.prev\<close> are null\<close>
  cl_server :: bool
  cl_event_source :: "nat option"
  cl_connection :: connection
  cl_pid :: int
  cl_uid :: int
  cl_gid :: int
  cl_seat :: "nat option"
  cl_session :: int
  cl_state :: client_state
  cl_devices :: "seat_device list"

record seat_group_vt =
  gv_owner :: "nat option"
  gv_vt :: int
  gv_user :: string
  gv_session :: string

record seat =
  seat_name :: string
  seat_clients :: "nat list"
  active_client :: "nat option"
  next_client :: "nat option"
  vt_bound :: bool
  cur_vt :: int
  pending_vt_switch :: int
  group_vts :: "seat_group_vt list"

record control_client =
  cc_event_source :: "nat option"
  cc_connection :: connection
  cc_pid :: int
  cc_uid :: int
  cc_gid :: int

record server =
  running :: bool
  seats :: "nat list"
  idle_clients :: "nat list"
  control_clients :: "nat list"
  vt_event_running :: bool
  vt_event_thread_started :: bool
  vt_event_fd :: int
  vt_event_pipe :: "int \<times> int"

record world = poll_os +
  client_heap :: "nat \<Rightarrow> client option"
  seat_heap :: "nat \<Rightarrow> seat option"
  control_heap :: "nat \<Rightarrow> control_client option"
  the_server :: server

section \<open>Access\<close>

definition null_client :: client where
  "null_client = \<lparr>cl_link_null = True, cl_server = False, cl_event_source = None,
     cl_connection = new_connection 0, cl_pid = 0, cl_uid = 0, cl_gid = 0, cl_seat = None,
     cl_session = 0, cl_state = CLIENT_NEW, cl_devices = []\<rparr>"

definition null_seat :: seat where
  "null_seat = \<lparr>seat_name = [], seat_clients = [], active_client = None, next_client = None,
     vt_bound = False, cur_vt = 0, pending_vt_switch = 0, group_vts = []\<rparr>"

definition null_control :: control_client where
  "null_control = \<lparr>cc_event_source = None, cc_connection = new_connection 0, cc_pid = 0,
     cc_uid = 0, cc_gid = 0\<rparr>"

text \<open>Reading and writing through a pointer; a pointer to a freed object sets \<open>aborted\<close>.\<close>

definition get_client :: "nat \<Rightarrow> (world, client) state" where
  "get_client c = do {
     w \<leftarrow> State_Monad.get;
     case client_heap w c of
       None \<Rightarrow> do { abort_now; State_Monad.return null_client }
     | Some x \<Rightarrow> State_Monad.return x
   }"

definition upd_client :: "nat \<Rightarrow> (client \<Rightarrow> client) \<Rightarrow> (world, unit) state" where
  "upd_client c f = do {
     x \<leftarrow> get_client c;
     State_Monad.update (\<lambda>w. if client_heap w c = None then w
       else w\<lparr>client_heap := (client_heap w)(c \<mapsto> f x)\<rparr>)
   }"

definition get_seat :: "nat \<Rightarrow> (world, seat) state" where
  "get_seat s = do {
     w \<leftarrow> State_Monad.get;
     case seat_heap w s of
       None \<Rightarrow> do { abort_now; State_Monad.return null_seat }
     | Some x \<Rightarrow> State_Monad.return x
   }"

definition upd_seat :: "nat \<Rightarrow> (seat \<Rightarrow> seat) \<Rightarrow> (world, unit) state" where
  "upd_seat s f = do {
     x \<leftarrow> get_seat s;
     State_Monad.update (\<lambda>w. if seat_heap w s = None then w
       else w\<lparr>seat_heap := (seat_heap w)(s \<mapsto> f x)\<rparr>)
   }"

definition get_control :: "nat \<Rightarrow> (world, control_client) state" where
  "get_control c = do {
     w \<leftarrow> State_Monad.get;
     case control_heap w c of
       None \<Rightarrow> do { abort_now; State_Monad.return null_control }
     | Some x \<Rightarrow> State_Monad.return x
   }"

definition upd_control :: "nat \<Rightarrow> (control_client \<Rightarrow> control_client) \<Rightarrow> (world, unit) state" where
  "upd_control c f = do {
     x \<leftarrow> get_control c;
     State_Monad.update (\<lambda>w. if control_heap w c = None then w
       else w\<lparr>control_heap := (control_heap w)(c \<mapsto> f x)\<rparr>)
   }"

definition get_server :: "(world, server) state" where
  "get_server = do { w \<leftarrow> State_Monad.get; State_Monad.return (the_server w) }"

definition upd_server :: "(server \<Rightarrow> server) \<Rightarrow> (world, unit) state" where
  "upd_server f = State_Monad.update (\<lambda>w. w\<lparr>the_server := f (the_server w)\<rparr>)"

text \<open>Dereferencing a pointer that may be null.\<close>

definition deref :: "nat option \<Rightarrow> (world, nat) state" where
  "deref p = (case p of None \<Rightarrow> do { abort_now; State_Monad.return 0 } | Some a \<Rightarrow> State_Monad.return a)"

definition assert_that :: "bool \<Rightarrow> ('a os_scheme, unit) state" where
  "assert_that b = (if b then State_Monad.return () else abort_now)"

definition free_client :: "nat \<Rightarrow> (world, unit) state" where
  "free_client c = State_Monad.update (\<lambda>w. w\<lparr>client_heap := (client_heap w)(c := None)\<rparr>)"

definition free_seat :: "nat \<Rightarrow> (world, unit) state" where
  "free_seat s = State_Monad.update (\<lambda>w. w\<lparr>seat_heap := (seat_heap w)(s := None)\<rparr>)"

definition free_control :: "nat \<Rightarrow> (world, unit) state" where
  "free_control c = State_Monad.update (\<lambda>w. w\<lparr>control_heap := (control_heap w)(c := None)\<rparr>)"

text \<open>Running an operation on a client's connection.\<close>

definition on_connection :: "nat \<Rightarrow> (connection \<Rightarrow> (world, 'b \<times> connection) state) \<Rightarrow> (world, 'b) state" where
  "on_connection c f = do {
     x \<leftarrow> get_client c;
     (r, conn) \<leftarrow> f (cl_connection x);
     upd_client c (\<lambda>x. x\<lparr>cl_connection := conn\<rparr>);
     State_Monad.return r
   }"

definition on_control_connection :: "nat \<Rightarrow> (connection \<Rightarrow> (world, 'b \<times> connection) state) \<Rightarrow> (world, 'b) state" where
  "on_control_connection c f = do {
     x \<leftarrow> get_control c;
     (r, conn) \<leftarrow> f (cc_connection x);
     upd_control c (\<lambda>x. x\<lparr>cc_connection := conn\<rparr>);
     State_Monad.return r
   }"

section \<open>The links of the clients\<close>

text \<open>
  A client's link is in the list of idle clients, in the list of a seat, in no list but
  initialised, or null. \<open>linked_list_remove\<close> asserts that it is not null;
  \<open>linked_list_insert\<close> is an error here when the link is in a list already, which is
  stricter than the assertion of the source.
\<close>

definition in_some_list :: "world \<Rightarrow> nat \<Rightarrow> bool" where
  "in_some_list w c \<longleftrightarrow> c \<in> set (idle_clients (the_server w)) \<or>
     (\<exists>s \<in> set (seats (the_server w)). case seat_heap w s of None \<Rightarrow> False | Some st \<Rightarrow> c \<in> set (seat_clients st))"

definition client_link_remove :: "nat \<Rightarrow> (world, unit) state" where
  "client_link_remove c = do {
     x \<leftarrow> get_client c;
     assert_that (\<not> cl_link_null x);
     State_Monad.update (\<lambda>w. w\<lparr>
       seat_heap := (\<lambda>s. map_option (\<lambda>st. st\<lparr>seat_clients := remove1 c (seat_clients st)\<rparr>) (seat_heap w s)),
       the_server := (the_server w)\<lparr>idle_clients := remove1 c (idle_clients (the_server w))\<rparr>\<rparr>);
     upd_client c (\<lambda>x. x\<lparr>cl_link_null := True\<rparr>)
   }"

definition client_link_init :: "nat \<Rightarrow> (world, unit) state" where
  "client_link_init c = upd_client c (\<lambda>x. x\<lparr>cl_link_null := False\<rparr>)"

definition insert_idle :: "nat \<Rightarrow> (world, unit) state" where
  "insert_idle c = do {
     w \<leftarrow> State_Monad.get;
     assert_that (\<not> in_some_list w c);
     upd_server (\<lambda>v. v\<lparr>idle_clients := c # idle_clients v\<rparr>);
     upd_client c (\<lambda>x. x\<lparr>cl_link_null := False\<rparr>)
   }"

definition insert_seat_client :: "nat \<Rightarrow> nat \<Rightarrow> (world, unit) state" where
  "insert_seat_client s c = do {
     w \<leftarrow> State_Monad.get;
     assert_that (\<not> in_some_list w c);
     upd_seat s (\<lambda>x. x\<lparr>seat_clients := c # seat_clients x\<rparr>);
     upd_client c (\<lambda>x. x\<lparr>cl_link_null := False\<rparr>)
   }"

section \<open>Weakest preconditions of the accesses\<close>

lemma wp_get_client [wp_simps]:
  "wp (get_client c) Q = (\<lambda>w. case client_heap w c of
     None \<Rightarrow> Q null_client (w\<lparr>aborted := True\<rparr>) | Some x \<Rightarrow> Q x w)"
  by (auto simp: get_client_def wp_simps fun_eq_iff split: option.split)

lemma wp_upd_client [wp_simps]:
  "wp (upd_client c f) Q = (\<lambda>w. case client_heap w c of
     None \<Rightarrow> Q () (w\<lparr>aborted := True\<rparr>)
   | Some x \<Rightarrow> Q () (w\<lparr>client_heap := (client_heap w)(c \<mapsto> f x)\<rparr>))"
  by (auto simp: upd_client_def wp_simps fun_eq_iff split: option.split)

lemma wp_get_seat [wp_simps]:
  "wp (get_seat s) Q = (\<lambda>w. case seat_heap w s of
     None \<Rightarrow> Q null_seat (w\<lparr>aborted := True\<rparr>) | Some x \<Rightarrow> Q x w)"
  by (auto simp: get_seat_def wp_simps fun_eq_iff split: option.split)

lemma wp_upd_seat [wp_simps]:
  "wp (upd_seat s f) Q = (\<lambda>w. case seat_heap w s of
     None \<Rightarrow> Q () (w\<lparr>aborted := True\<rparr>)
   | Some x \<Rightarrow> Q () (w\<lparr>seat_heap := (seat_heap w)(s \<mapsto> f x)\<rparr>))"
  by (auto simp: upd_seat_def wp_simps fun_eq_iff split: option.split)

lemma wp_get_control [wp_simps]:
  "wp (get_control c) Q = (\<lambda>w. case control_heap w c of
     None \<Rightarrow> Q null_control (w\<lparr>aborted := True\<rparr>) | Some x \<Rightarrow> Q x w)"
  by (auto simp: get_control_def wp_simps fun_eq_iff split: option.split)

lemma wp_upd_control [wp_simps]:
  "wp (upd_control c f) Q = (\<lambda>w. case control_heap w c of
     None \<Rightarrow> Q () (w\<lparr>aborted := True\<rparr>)
   | Some x \<Rightarrow> Q () (w\<lparr>control_heap := (control_heap w)(c \<mapsto> f x)\<rparr>))"
  by (auto simp: upd_control_def wp_simps fun_eq_iff split: option.split)

lemma wp_get_server [wp_simps]: "wp get_server Q = (\<lambda>w. Q (the_server w) w)"
  by (simp add: get_server_def wp_simps)

lemma wp_upd_server [wp_simps]: "wp (upd_server f) Q = (\<lambda>w. Q () (w\<lparr>the_server := f (the_server w)\<rparr>))"
  by (simp add: upd_server_def wp_simps)

lemma wp_deref [wp_simps]:
  "wp (deref p) Q = (\<lambda>w. case p of None \<Rightarrow> Q 0 (w\<lparr>aborted := True\<rparr>) | Some a \<Rightarrow> Q a w)"
  by (auto simp: deref_def wp_simps split: option.split)

lemma wp_assert_that [wp_simps]:
  "wp (assert_that b) Q = (\<lambda>w. if b then Q () w else Q () (w\<lparr>aborted := True\<rparr>))"
  by (simp add: assert_that_def wp_simps)

lemma wp_free [wp_simps]:
  "wp (free_client c) Q = (\<lambda>w. Q () (w\<lparr>client_heap := (client_heap w)(c := None)\<rparr>))"
  "wp (free_seat s) Q = (\<lambda>w. Q () (w\<lparr>seat_heap := (seat_heap w)(s := None)\<rparr>))"
  "wp (free_control c) Q = (\<lambda>w. Q () (w\<lparr>control_heap := (control_heap w)(c := None)\<rparr>))"
  by (simp_all add: free_client_def free_seat_def free_control_def wp_simps)

text \<open>
  What a part that only makes system calls leaves unchanged; the equations are the ones the
  symbolic execution of the code above it needs.
\<close>

lemma os_step_world:
  assumes "os_step (w :: world) w'"
  shows "client_heap w' = client_heap w" "seat_heap w' = seat_heap w" "control_heap w' = control_heap w"
    "the_server w' = the_server w" "the_poller w' = the_poller w" "next_addr w' = next_addr w"
    "global_poller w' = global_poller w" "aborted w' = aborted w"
  using assms by (cases w; cases w'; simp add: os_step_def)+

text \<open>The data of the program, without the share of the operating system.\<close>

definition flags :: "world \<Rightarrow> bool \<times> bool" where
  "flags w = (global_poller w, aborted w)"

lemma flags_upd [simp]:
  "flags (w\<lparr>client_heap := H\<rparr>) = flags w" "flags (w\<lparr>seat_heap := S\<rparr>) = flags w"
  "flags (w\<lparr>control_heap := C\<rparr>) = flags w" "flags (w\<lparr>the_server := v\<rparr>) = flags w"
  "flags (w\<lparr>the_poller := p\<rparr>) = flags w" "flags (w\<lparr>next_addr := n\<rparr>) = flags w"
  "flags (w\<lparr>errno := e\<rparr>) = flags w" "flags (w\<lparr>trace := t\<rparr>) = flags w" "flags (w\<lparr>stuck := b\<rparr>) = flags w"
  by (simp_all add: flags_def)

definition pdata :: "world \<Rightarrow> _" where
  "pdata w = (client_heap w, seat_heap w, control_heap w, the_server w, the_poller w, next_addr w, flags w)"

lemma data_eq:
  "pdata w = pdata v \<longleftrightarrow> client_heap w = client_heap v \<and> seat_heap w = seat_heap v \<and>
     control_heap w = control_heap v \<and> the_server w = the_server v \<and> the_poller w = the_poller v \<and>
     next_addr w = next_addr v \<and> flags w = flags v"
  by (simp add: pdata_def)

lemma data_upd_os [simp]:
  "pdata (w\<lparr>errno := e\<rparr>) = pdata w" "pdata (w\<lparr>trace := t\<rparr>) = pdata w" "pdata (w\<lparr>stuck := b\<rparr>) = pdata w"
  by (simp_all add: pdata_def)

lemma os_step_data: "os_step w w' \<Longrightarrow> pdata w' = pdata w"
  by (simp add: data_eq flags_def os_step_world)

lemma wp_data: "state_io_rel os_step m \<Longrightarrow> (\<And>r w'. pdata w' = pdata w \<Longrightarrow> Q r w') \<Longrightarrow> wp m Q w"
  by (erule wp_frame) (auto dest: os_step_data)

lemmas wp_data_calls = wp_data [OF io_calls_imp_step]

end
