(* ===== verification/Invariant.thy ===== *)
theory Invariant
  imports State
begin

text \<open>
  The invariant of the server's data, and the changes the program makes to the data as pure
  transitions that keep it. The invariant is a predicate on the components of the state
  (heaps, lists, poller), so that system calls do not matter to it.

  A client may be in one of two transient states while a handler works on it: \<open>X\<close> holds the
  clients that are in no list, with their contents, and \<open>Y\<close> the clients that are under
  construction or destruction and may lack the server pointer or the event source.
\<close>

section \<open>Well-formed objects\<close>

definition devices_ok :: "seat_device list \<Rightarrow> bool" where
  "devices_ok ds \<longleftrightarrow> distinct (map device_id ds) \<and> distinct (map dev_path ds) \<and>
     length ds \<le> 128 \<and>
     (\<forall>d \<in> set ds. 0 < device_id d \<and> 0 < ref_cnt d \<and> dev_type d \<noteq> SEAT_DEVICE_TYPE_NORMAL)"

lemma devices_ok_Nil [simp]: "devices_ok []"
  by (simp add: devices_ok_def)

definition client_ok :: "client \<Rightarrow> bool" where
  "client_ok x \<longleftrightarrow> conn_ok (cl_connection x) \<and> devices_ok (cl_devices x) \<and>
     (cl_seat x = None \<longrightarrow> cl_devices x = [] \<and> cl_state x \<in> {CLIENT_NEW, CLIENT_CLOSED}) \<and>
     (cl_seat x \<noteq> None \<longrightarrow> 0 \<le> cl_session x)"

definition on_duty :: "client \<Rightarrow> bool" where
  "on_duty x \<longleftrightarrow> cl_state x = CLIENT_ACTIVE \<or> cl_state x = CLIENT_PENDING_DISABLE"

text \<open>
  A seat: its clients point back to it; the active client is the one client that is active or
  has yet to acknowledge its disabling; queued clients and owners of grouped VTs are on the
  seat. A seat bound to VTs knows the current one as soon as it has a client, and also when a
  signal of the VT switching protocol is waiting (\<open>b\<close>).
\<close>

definition seat_ok :: "bool \<Rightarrow> (nat \<Rightarrow> client option) \<Rightarrow> nat \<Rightarrow> seat \<Rightarrow> bool" where
  "seat_ok b H s st \<longleftrightarrow> distinct (seat_clients st) \<and>
     (\<forall>c \<in> set (seat_clients st). \<exists>x. H c = Some x \<and> cl_seat x = Some s \<and>
        (on_duty x \<longleftrightarrow> active_client st = Some c)) \<and>
     (\<forall>c. active_client st = Some c \<longrightarrow> c \<in> set (seat_clients st)) \<and>
     (\<forall>c. next_client st = Some c \<longrightarrow> c \<in> set (seat_clients st)) \<and>
     distinct (map gv_vt (group_vts st)) \<and>
     (\<forall>g \<in> set (group_vts st). 0 < gv_vt g \<and> (\<exists>c \<in> set (seat_clients st). gv_owner g = Some c)) \<and>
     -1 \<le> cur_vt st \<and> 0 \<le> pending_vt_switch st \<and>
     (vt_bound st \<and> (b \<or> seat_clients st \<noteq> []) \<longrightarrow> 0 \<le> cur_vt st)"

section \<open>The invariant\<close>

text \<open>
  \<open>guard\<close> names the objects that the operation at hand must not free: event sources, clients,
  seats and control clients; the signal sources, which no handler changes; and bounds on the
  input that clients and control clients have pending.
\<close>

record guard =
  g_sources :: "nat set"
  g_signals :: "(nat \<times> event_source_signal) list"
  g_clients :: "nat set"
  g_seats :: "nat set"
  g_controls :: "nat set"
  g_input :: "nat \<Rightarrow> nat"
  g_cinput :: "nat \<Rightarrow> nat"

abbreviation (input) pending :: "connection \<Rightarrow> nat" where
  "pending n \<equiv> length (contents (cin n))"

definition vt_signal :: "(nat \<times> event_source_signal) list \<Rightarrow> bool" where
  "vt_signal ss \<longleftrightarrow> (\<exists>(a, s) \<in> set ss. ss_raised s \<and> \<not> ss_killed s \<and> ss_func s \<noteq> Server_handle_kill)"

definition clients_ok :: "nat set \<Rightarrow> (nat \<Rightarrow> nat) \<Rightarrow> (nat \<Rightarrow> client option) \<Rightarrow> nat \<Rightarrow> bool" where
  "clients_ok D B H n \<longleftrightarrow> D \<subseteq> dom H \<and>
     (\<forall>c x. H c = Some x \<longrightarrow> client_ok x \<and> c < n \<and> pending (cl_connection x) \<le> B c)"

definition seats_ok :: "bool \<Rightarrow> nat set \<Rightarrow> (nat \<Rightarrow> client option) \<Rightarrow> (nat \<Rightarrow> seat option) \<Rightarrow> nat list \<Rightarrow> nat \<Rightarrow> bool" where
  "seats_ok b D H S ss n \<longleftrightarrow> D \<subseteq> dom S \<and> distinct ss \<and> set ss = dom S \<and>
     (\<forall>s st. S s = Some st \<longrightarrow> seat_ok b H s st \<and> s < n)"

definition linked_at :: "(nat \<Rightarrow> seat option) \<Rightarrow> nat list \<Rightarrow> nat \<Rightarrow> client \<Rightarrow> bool" where
  "linked_at S idle c x \<longleftrightarrow> \<not> cl_link_null x \<and> (case cl_seat x of
     None \<Rightarrow> c \<in> set idle | Some s \<Rightarrow> \<exists>st. S s = Some st \<and> c \<in> set (seat_clients st))"

definition unlinked_from :: "(nat \<Rightarrow> seat option) \<Rightarrow> nat list \<Rightarrow> nat \<Rightarrow> bool" where
  "unlinked_from S idle c \<longleftrightarrow> c \<notin> set idle \<and> (\<forall>s st. S s = Some st \<longrightarrow> c \<notin> set (seat_clients st))"

definition links_ok ::
    "(nat \<Rightarrow> client option) \<Rightarrow> (nat \<Rightarrow> client option) \<Rightarrow> (nat \<Rightarrow> seat option) \<Rightarrow> nat list \<Rightarrow> bool" where
  "links_ok X H S idle \<longleftrightarrow> distinct idle \<and>
     (\<forall>c \<in> set idle. \<exists>x. H c = Some x \<and> cl_seat x = None) \<and>
     (\<forall>c x. H c = Some x \<longrightarrow> X c = None \<longrightarrow> linked_at S idle c x) \<and>
     (\<forall>c x. X c = Some x \<longrightarrow> H c = Some x \<and> unlinked_from S idle c)"

definition sources_ok :: "nat set \<Rightarrow> (nat \<Rightarrow> client option) \<Rightarrow> poller \<Rightarrow> bool" where
  "sources_ok Y H p \<longleftrightarrow>
     (\<forall>c x. H c = Some x \<longrightarrow> c \<notin> Y \<longrightarrow> cl_server x \<and> cl_event_source x \<noteq> None) \<and>
     (\<forall>a c. live_source p a (Client_handle_connection c) \<longleftrightarrow> Option.bind (H c) cl_event_source = Some a)"

definition controls_ok ::
    "nat set \<Rightarrow> (nat \<Rightarrow> nat) \<Rightarrow> (nat \<Rightarrow> control_client option) \<Rightarrow> nat list \<Rightarrow> poller \<Rightarrow> nat \<Rightarrow> bool" where
  "controls_ok D B C cs p n \<longleftrightarrow> D \<subseteq> dom C \<and> distinct cs \<and> set cs = dom C \<and>
     (\<forall>c y. C c = Some y \<longrightarrow> conn_ok (cc_connection y) \<and> c < n \<and> cc_event_source y \<noteq> None \<and>
        pending (cc_connection y) \<le> B c) \<and>
     (\<forall>a c. live_source p a (Control_client_handle_connection c) \<longleftrightarrow> Option.bind (C c) cc_event_source = Some a)"

definition poll_at :: "nat set \<Rightarrow> (nat \<times> event_source_signal) list \<Rightarrow> poller \<Rightarrow> nat \<Rightarrow> bool" where
  "poll_at D ss p n \<longleftrightarrow> D \<subseteq> fst ` set (fds p) \<and> signals p = ss \<and> poller_ok p \<and>
     (\<forall>a \<in> fst ` set (fds p) \<union> fst ` set (signals p). a < n)"

definition world_ok :: "guard \<Rightarrow> (nat \<Rightarrow> client option) \<Rightarrow> nat set \<Rightarrow> world \<Rightarrow> bool" where
  "world_ok g X Y w \<longleftrightarrow> \<not> aborted w \<and>
     clients_ok (g_clients g) (g_input g) (client_heap w) (next_addr w) \<and>
     seats_ok (vt_signal (g_signals g)) (g_seats g) (client_heap w) (seat_heap w) (seats (the_server w)) (next_addr w) \<and>
     links_ok X (client_heap w) (seat_heap w) (idle_clients (the_server w)) \<and>
     sources_ok Y (client_heap w) (the_poller w) \<and>
     controls_ok (g_controls g) (g_cinput g) (control_heap w) (control_clients (the_server w)) (the_poller w) (next_addr w) \<and>
     poll_at (g_sources g) (g_signals g) (the_poller w) (next_addr w)"

lemma inv_os_step: "os_step w w' \<Longrightarrow> world_ok g X Y w' = world_ok g X Y w"
  by (simp add: world_ok_def os_step_world)

lemma world_ok_data: "pdata w' = pdata w \<Longrightarrow> world_ok g X Y w' = world_ok g X Y w"
  by (simp add: world_ok_def data_eq flags_def)

lemma wp_calls_inv:
  assumes "state_io_rel os_calls m" and "world_ok g X Y w"
    and "\<And>r w'. world_ok g X Y w' \<Longrightarrow> pdata w' = pdata w \<Longrightarrow> Q r w'"
  shows "wp m Q w"
  by (rule wp_data_calls [OF assms(1)]) (use assms(2,3) world_ok_data in blast)

lemma inv_upd_os [simp]:
  "world_ok g X Y (w\<lparr>errno := e\<rparr>) = world_ok g X Y w" "world_ok g X Y (w\<lparr>trace := t\<rparr>) = world_ok g X Y w"
  "world_ok g X Y (w\<lparr>stuck := b\<rparr>) = world_ok g X Y w"
  by (simp_all add: world_ok_def)

lemma invD:
  assumes "world_ok g X Y w"
  shows "\<not> aborted w" "poll_inv w"
    and "client_heap w c = Some x \<Longrightarrow> client_ok x \<and> c < next_addr w"
    and "seat_heap w s = Some st \<Longrightarrow> seat_ok (vt_signal (g_signals g)) (client_heap w) s st \<and> s < next_addr w"
    and "c \<in> g_clients g \<Longrightarrow> \<exists>x. client_heap w c = Some x"
    and "s \<in> g_seats g \<Longrightarrow> \<exists>st. seat_heap w s = Some st"
    and "c \<in> g_controls g \<Longrightarrow> \<exists>y. control_heap w c = Some y"
    and "X c = Some x \<Longrightarrow> client_heap w c = Some x"
    and "client_heap w c = Some x \<Longrightarrow> pending (cl_connection x) \<le> g_input g c"
    and "control_heap w c = Some y \<Longrightarrow> conn_ok (cc_connection y) \<and> pending (cc_connection y) \<le> g_cinput g c"
  using assms
  by (auto simp: world_ok_def poll_inv_def poll_at_def clients_ok_def seats_ok_def controls_ok_def links_ok_def)

lemma inv_client:
  assumes "world_ok g X Y w" and "client_heap w c = Some x"
  shows "conn_ok (cl_connection x)" "devices_ok (cl_devices x)"
    "cl_seat x = None \<Longrightarrow> cl_devices x = []" "cl_seat x \<noteq> None \<Longrightarrow> 0 \<le> cl_session x"
  using invD(3) [OF assms] by (auto simp: client_ok_def)

lemma inv_source:
  assumes "world_ok g X Y w" and "client_heap w c = Some x" and "cl_event_source x = Some a"
  shows "live_source (the_poller w) a (Client_handle_connection c)"
  using assms by (auto simp: world_ok_def sources_ok_def)

lemma inv_ready:
  assumes "world_ok g X Y w" and "client_heap w c = Some x" and "c \<notin> Y"
  shows "cl_server x" and "\<exists>a. cl_event_source x = Some a"
proof -
  have "cl_server x \<and> cl_event_source x \<noteq> None"
    using assms by (simp add: world_ok_def sources_ok_def)
  then show "cl_server x" "\<exists>a. cl_event_source x = Some a" by auto
qed

lemma inv_member:
  assumes "world_ok g X Y w" and "client_heap w c = Some x" and "cl_seat x = Some s" and "X c = None"
  shows "\<exists>st. seat_heap w s = Some st \<and> c \<in> set (seat_clients st)"
proof -
  have "linked_at (seat_heap w) (idle_clients (the_server w)) c x"
    using assms by (auto simp: world_ok_def links_ok_def)
  then show ?thesis using assms(3) by (simp add: linked_at_def)
qed

lemma inv_seat_client:
  assumes "world_ok g X Y w" and "seat_heap w s = Some st" and "c \<in> set (seat_clients st)"
  shows "\<exists>x. client_heap w c = Some x \<and> cl_seat x = Some s \<and> (on_duty x \<longleftrightarrow> active_client st = Some c)"
  using invD(4) [OF assms(1,2)] assms(3) by (auto simp: seat_ok_def)

lemma inv_not_detached:
  assumes "world_ok g X Y w" and "seat_heap w s = Some st" and "c \<in> set (seat_clients st)"
  shows "X c = None"
proof (cases "X c")
  case (Some x)
  then have "unlinked_from (seat_heap w) (idle_clients (the_server w)) c"
    using assms(1) by (auto simp: world_ok_def links_ok_def)
  with assms(2,3) show ?thesis by (auto simp: unlinked_from_def)
qed simp

lemma inv_active:
  assumes "world_ok g X Y w" and "seat_heap w s = Some st" and "active_client st = Some c"
  shows "c \<in> set (seat_clients st)" and "\<exists>x. client_heap w c = Some x \<and> cl_seat x = Some s \<and> on_duty x"
proof -
  show "c \<in> set (seat_clients st)"
    using invD(4) [OF assms(1,2)] assms(3) by (auto simp: seat_ok_def)
  from inv_seat_client [OF assms(1,2) this] assms(3)
  show "\<exists>x. client_heap w c = Some x \<and> cl_seat x = Some s \<and> on_duty x" by auto
qed

text \<open>An active client is the active client of its seat.\<close>

lemma inv_duty:
  assumes "world_ok g X Y w" and "client_heap w c = Some x" and "on_duty x" and "X c = None"
  shows "\<exists>s st. cl_seat x = Some s \<and> seat_heap w s = Some st \<and> active_client st = Some c \<and> c \<in> set (seat_clients st)"
proof -
  obtain s where s: "cl_seat x = Some s"
    using invD(3) [OF assms(1,2)] assms(3) by (auto simp: client_ok_def on_duty_def)
  then obtain st where st: "seat_heap w s = Some st" "c \<in> set (seat_clients st)"
    using inv_member [OF assms(1,2) s assms(4)] by auto
  with inv_seat_client [OF assms(1) st] assms(2,3) s show ?thesis by auto
qed

text \<open>Changing the guard.\<close>

lemma world_ok_weaken:
  assumes "world_ok g X Y w" and "g_sources g' \<subseteq> g_sources g" and "g_signals g' = g_signals g"
    and "g_clients g' \<subseteq> g_clients g" and "g_seats g' \<subseteq> g_seats g" and "g_controls g' \<subseteq> g_controls g"
    and "g_input g \<le> g_input g'" and "g_cinput g \<le> g_cinput g'"
  shows "world_ok g' X Y w"
proof -
  have "clients_ok (g_clients g') (g_input g') (client_heap w) (next_addr w)"
    using assms(1,4,7) unfolding world_ok_def clients_ok_def le_fun_def by (meson order_trans)
  moreover have "controls_ok (g_controls g') (g_cinput g') (control_heap w) (control_clients (the_server w)) (the_poller w) (next_addr w)"
    using assms(1,6,8) unfolding world_ok_def controls_ok_def le_fun_def by (meson order_trans)
  moreover have "poll_at (g_sources g') (g_signals g') (the_poller w) (next_addr w)"
    using assms(1-3) unfolding world_ok_def poll_at_def by auto
  moreover have "seats_ok (vt_signal (g_signals g')) (g_seats g') (client_heap w) (seat_heap w) (seats (the_server w)) (next_addr w)"
    using assms(1,3,5) unfolding world_ok_def seats_ok_def by auto
  ultimately show ?thesis
    using assms(1) by (simp add: world_ok_def)
qed

lemma world_ok_input:
  assumes "world_ok g X Y w" and "\<And>x. client_heap w c = Some x \<Longrightarrow> pending (cl_connection x) \<le> n"
  shows "world_ok (g\<lparr>g_input := (g_input g)(c := n)\<rparr>) X Y w"
  using assms by (auto simp: world_ok_def clients_ok_def)

lemma world_ok_cinput:
  assumes "world_ok g X Y w" and "\<And>x. control_heap w c = Some x \<Longrightarrow> pending (cc_connection x) \<le> n"
  shows "world_ok (g\<lparr>g_cinput := (g_cinput g)(c := n)\<rparr>) X Y w"
  using assms by (auto simp: world_ok_def controls_ok_def)

end
