(* ===== verification/Transitions.thy ===== *)
theory Transitions
  imports Invariant
begin

text \<open>
  The changes that the program makes to the data of the server, each as an update of the state
  that keeps the invariant. The operations of the components are compositions of them.
\<close>

section \<open>Changes inside a client\<close>

lemma sources_upd:
  assumes "sources_ok Y H p" and "H c = Some x"
    and "cl_server y = cl_server x" "cl_event_source y = cl_event_source x"
  shows "sources_ok Y (H(c \<mapsto> y)) p"
  using assms by (simp add: sources_ok_def)

lemma clients_upd:
  assumes "clients_ok D B H n" and "H c = Some x" and "client_ok y" and "pending (cl_connection y) \<le> B c"
  shows "clients_ok D B (H(c \<mapsto> y)) n"
  using assms by (auto simp: clients_ok_def)

lemma seats_upd:
  assumes "seats_ok b D H S ss n" and "S s = Some st" and "seat_ok b H' s st'"
    and "\<And>r t. S r = Some t \<Longrightarrow> r \<noteq> s \<Longrightarrow> seat_ok b H' r t"
  shows "seats_ok b D H' (S(s \<mapsto> st')) ss n"
  using assms by (auto simp: seats_ok_def)

lemma inv_client_upd:
  assumes "world_ok g X Y w" and "client_heap w c = Some x" and "X c = None" and "client_ok y"
    and "cl_seat y = cl_seat x" "on_duty y = on_duty x" "cl_link_null y = cl_link_null x"
    and "cl_server y = cl_server x" "cl_event_source y = cl_event_source x"
    and "pending (cl_connection y) \<le> g_input g c"
  shows "world_ok g X Y (w\<lparr>client_heap := (client_heap w)(c \<mapsto> y)\<rparr>)"
proof -
  let ?H = "(client_heap w)(c \<mapsto> y)"
  have "seat_ok b ?H s st" if "seat_ok b (client_heap w) s st" for b s st
    using that assms(2,5,6) by (auto simp: seat_ok_def)
  moreover have "links_ok X ?H (seat_heap w) (idle_clients (the_server w))"
    using assms by (auto simp: world_ok_def links_ok_def linked_at_def)
  moreover have "sources_ok Y ?H (the_poller w)"
    using assms by (auto simp: world_ok_def intro: sources_upd)
  ultimately show ?thesis
    using assms(1,2,4,10) by (auto simp: world_ok_def clients_ok_def seats_ok_def)
qed

lemma seat_ok_other: "c \<notin> set (seat_clients st) \<Longrightarrow> seat_ok b (H(c := y)) s st = seat_ok b H s st"
  by (auto simp: seat_ok_def)

lemma inv_detached_upd:
  assumes "world_ok g X Y w" and "X c = Some x" and "client_ok y"
    and "cl_server y = cl_server x" "cl_event_source y = cl_event_source x"
    and "pending (cl_connection y) \<le> g_input g c"
  shows "world_ok g (X(c \<mapsto> y)) Y (w\<lparr>client_heap := (client_heap w)(c \<mapsto> y)\<rparr>)"
proof -
  let ?H = "(client_heap w)(c \<mapsto> y)"
  have c: "client_heap w c = Some x" "unlinked_from (seat_heap w) (idle_clients (the_server w)) c"
    using assms by (auto simp: world_ok_def links_ok_def)
  then have "seat_ok b ?H s st = seat_ok b (client_heap w) s st" if "seat_heap w s = Some st" for b s st
    using that by (auto simp: unlinked_from_def seat_ok_other)
  moreover have "links_ok (X(c \<mapsto> y)) ?H (seat_heap w) (idle_clients (the_server w))"
    using assms c by (auto simp: world_ok_def links_ok_def unlinked_from_def)
  moreover have "sources_ok Y ?H (the_poller w)"
    using assms c by (auto simp: world_ok_def intro: sources_upd)
  ultimately show ?thesis
    using assms(1,3,6) c(1) by (auto simp: world_ok_def clients_ok_def seats_ok_def)
qed

section \<open>Changes inside a seat\<close>

lemma inv_seat_upd:
  assumes "world_ok g X Y w" and "seat_heap w s = Some st" and "seat_clients st' = seat_clients st"
    and "seat_ok (vt_signal (g_signals g)) (client_heap w) s st \<Longrightarrow>
      seat_ok (vt_signal (g_signals g)) (client_heap w) s st'"
  shows "world_ok g X Y (w\<lparr>seat_heap := (seat_heap w)(s \<mapsto> st')\<rparr>)"
proof -
  have "unlinked_from ((seat_heap w)(s \<mapsto> st')) idle c = unlinked_from (seat_heap w) idle c" for idle c
    using assms(2,3) by (auto simp: unlinked_from_def)
  moreover have "linked_at ((seat_heap w)(s \<mapsto> st')) idle c x = linked_at (seat_heap w) idle c x" for idle c x
    using assms(2,3) by (auto simp: linked_at_def split: option.split)
  ultimately show ?thesis
    using assms by (auto simp: world_ok_def links_ok_def seats_ok_def)
qed

lemma inv_cur_vt:
  assumes "world_ok g X Y w" and "seat_heap w s = Some st" and "0 \<le> v"
  shows "world_ok g X Y (w\<lparr>seat_heap := (seat_heap w)(s \<mapsto> st\<lparr>cur_vt := v\<rparr>)\<rparr>)"
  by (rule inv_seat_upd [OF assms(1,2)]) (use assms(3) in \<open>auto simp: seat_ok_def\<close>)

lemma inv_pending:
  assumes "world_ok g X Y w" and "seat_heap w s = Some st" and "0 \<le> v"
  shows "world_ok g X Y (w\<lparr>seat_heap := (seat_heap w)(s \<mapsto> st\<lparr>pending_vt_switch := v\<rparr>)\<rparr>)"
  by (rule inv_seat_upd [OF assms(1,2)]) (use assms(3) in \<open>auto simp: seat_ok_def\<close>)

lemma inv_next:
  assumes "world_ok g X Y w" and "seat_heap w s = Some st" and "\<And>c. v = Some c \<Longrightarrow> c \<in> set (seat_clients st)"
  shows "world_ok g X Y (w\<lparr>seat_heap := (seat_heap w)(s \<mapsto> st\<lparr>next_client := v\<rparr>)\<rparr>)"
  by (rule inv_seat_upd [OF assms(1,2)]) (use assms(3) in \<open>auto simp: seat_ok_def\<close>)

lemma inv_group_add:
  assumes "world_ok g X Y w" and "seat_heap w s = Some st" and "c \<in> set (seat_clients st)"
    and "gv_owner v = Some c" and "0 < gv_vt v" and "gv_vt v \<notin> gv_vt ` set (group_vts st)"
  shows "world_ok g X Y (w\<lparr>seat_heap := (seat_heap w)(s \<mapsto> st\<lparr>group_vts := v # group_vts st\<rparr>)\<rparr>)"
  by (rule inv_seat_upd [OF assms(1,2)]) (use assms(3-) in \<open>auto simp: seat_ok_def\<close>)

lemma inv_group_drop:
  assumes "world_ok g X Y w" and "seat_heap w s = Some st"
    and "set gs \<subseteq> set (group_vts st)" and "distinct (map gv_vt gs)"
  shows "world_ok g X Y (w\<lparr>seat_heap := (seat_heap w)(s \<mapsto> st\<lparr>group_vts := gs\<rparr>)\<rparr>)"
  by (rule inv_seat_upd [OF assms(1,2)]) (use assms(3-) in \<open>auto simp: seat_ok_def\<close>)

section \<open>Clients coming and going on a seat\<close>

lemma inv_state:
  assumes "world_ok g X Y w" and x: "client_heap w c = Some x" and st: "seat_heap w s = Some st"
    and mem: "c \<in> set (seat_clients st)"
    and y: "y = x\<lparr>cl_state := v\<rparr>" and a: "a = (if on_duty y then Some c else None)"
    and act: "active_client st = None \<or> active_client st = Some c"
  shows "world_ok g X Y (w\<lparr>client_heap := (client_heap w)(c \<mapsto> y),
    seat_heap := (seat_heap w)(s \<mapsto> st\<lparr>active_client := a\<rparr>)\<rparr>)"
proof -
  let ?H = "(client_heap w)(c \<mapsto> y)" and ?S = "(seat_heap w)(s \<mapsto> st\<lparr>active_client := a\<rparr>)"
  have seat: "cl_seat x = Some s" and X: "X c = None"
    using inv_seat_client [OF assms(1) st mem] x inv_not_detached [OF assms(1) st mem] by auto
  have "seat_ok b ?H s (st\<lparr>active_client := a\<rparr>)" if "seat_ok b (client_heap w) s st" for b
    using that act a mem x y by (auto simp: seat_ok_def)
  moreover have "seat_ok b ?H r t" if "seat_ok b (client_heap w) r t" "r \<noteq> s" for b r t
  proof -
    have "c \<notin> set (seat_clients t)" using that seat x by (auto simp: seat_ok_def)
    then show ?thesis using that by (simp add: seat_ok_other)
  qed
  moreover have "links_ok X ?H ?S (idle_clients (the_server w))"
  proof -
    have "unlinked_from ?S idle c = unlinked_from (seat_heap w) idle c" for idle c
      using st by (auto simp: unlinked_from_def)
    moreover have "linked_at ?S idle c x = linked_at (seat_heap w) idle c x" for idle c x
      using st by (auto simp: linked_at_def split: option.split)
    moreover have "linked_at T idle c y = linked_at T idle c x" for T idle
      using y by (simp add: linked_at_def)
    ultimately show ?thesis
      using assms(1) x y seat X by (auto simp: world_ok_def links_ok_def)
  qed
  moreover have "sources_ok Y ?H (the_poller w)"
    using assms(1) x y by (auto simp: world_ok_def intro: sources_upd)
  moreover have "pending (cl_connection y) \<le> g_input g c"
    using invD(9) [OF assms(1) x] y by simp
  moreover have "client_ok y"
    using invD(3) [OF assms(1) x] seat y by (simp add: client_ok_def)
  ultimately show ?thesis
    using assms(1) x st by (auto simp: world_ok_def clients_ok_def seats_ok_def)
qed

text \<open>A client without a seat joins one.\<close>

lemma inv_link:
  assumes "world_ok g X Y w" and x: "client_heap w c = Some x" and X: "X c = None" and none: "cl_seat x = None"
    and st: "seat_heap w s = Some st" and "0 \<le> n" and vt: "vt_bound st \<longrightarrow> 0 \<le> cur_vt st"
    and y: "y = x\<lparr>cl_link_null := False, cl_seat := Some s, cl_session := n\<rparr>"
  shows "world_ok g X Y (w\<lparr>client_heap := (client_heap w)(c \<mapsto> y),
    seat_heap := (seat_heap w)(s \<mapsto> st\<lparr>seat_clients := c # seat_clients st\<rparr>),
    the_server := (the_server w)\<lparr>idle_clients := remove1 c (idle_clients (the_server w))\<rparr>\<rparr>)"
proof -
  let ?H = "(client_heap w)(c \<mapsto> y)"
    and ?S = "(seat_heap w)(s \<mapsto> st\<lparr>seat_clients := c # seat_clients st\<rparr>)"
    and ?idle = "idle_clients (the_server w)"
  have ok: "client_ok x" using invD(3) [OF assms(1) x] by simp
  with none have duty: "\<not> on_duty x" by (auto simp: client_ok_def on_duty_def)
  have free: "c \<notin> set (seat_clients t)" if "seat_ok b (client_heap w) r t" for b r t
    using that none x by (auto simp: seat_ok_def)
  have "seat_ok b ?H s (st\<lparr>seat_clients := c # seat_clients st\<rparr>)" if "seat_ok b (client_heap w) s st" for b
    using that free [OF that] vt duty y by (auto simp: seat_ok_def on_duty_def)
  moreover have "seat_ok b ?H r t" if "seat_ok b (client_heap w) r t" for b r t
    using that free [OF that] by (simp add: seat_ok_other)
  moreover have "links_ok X ?H ?S (remove1 c ?idle)"
  proof -
    have "linked_at ?S (remove1 c ?idle) d z" if "linked_at (seat_heap w) ?idle d z" "d \<noteq> c" for d z
      using that st by (auto simp: linked_at_def split: option.splits)
    moreover have "linked_at ?S (remove1 c ?idle) c y"
      using y by (simp add: linked_at_def)
    moreover have "unlinked_from ?S (remove1 c ?idle) d" if "unlinked_from (seat_heap w) ?idle d" "d \<noteq> c" for d
      using that st by (auto simp: unlinked_from_def)
    ultimately show ?thesis
      using assms(1) x X by (auto simp: world_ok_def links_ok_def)
  qed
  moreover have "sources_ok Y ?H (the_poller w)"
    using assms(1) x y by (auto simp: world_ok_def intro: sources_upd)
  moreover have "pending (cl_connection y) \<le> g_input g c"
    using invD(9) [OF assms(1) x] y by simp
  moreover have "client_ok y"
    using ok y none \<open>0 \<le> n\<close> by (simp add: client_ok_def)
  ultimately show ?thesis
    using assms(1) x st by (auto simp: world_ok_def clients_ok_def seats_ok_def)
qed

text \<open>A client leaves its seat: it is taken off every field of the seat that refers to it.\<close>

definition leave :: "nat \<Rightarrow> seat \<Rightarrow> seat" where
  "leave c st = st\<lparr>seat_clients := remove1 c (seat_clients st),
     next_client := (if next_client st = Some c then None else next_client st),
     group_vts := filter (\<lambda>g. gv_owner g \<noteq> Some c) (group_vts st),
     active_client := (if active_client st = Some c then None else active_client st)\<rparr>"

lemma seat_ok_leave:
  assumes "seat_ok b H s st"
  shows "seat_ok b (H(c := y)) s (leave c st)"
proof -
  have "set (remove1 c (seat_clients st)) = set (seat_clients st) - {c}"
    using assms by (simp add: seat_ok_def set_remove1_eq)
  moreover have "distinct (map gv_vt (filter P (group_vts st)))" for P
    using assms by (simp add: seat_ok_def distinct_map_filter)
  ultimately show ?thesis
    using assms by (auto simp: seat_ok_def leave_def)
qed

lemma inv_leave:
  assumes "world_ok g X Y w" and x: "client_heap w c = Some x" and X: "X c = None" and seat: "cl_seat x = Some s"
    and st: "seat_heap w s = Some st" and y: "y = x\<lparr>cl_link_null := False, cl_devices := []\<rparr>"
  shows "world_ok g (X(c \<mapsto> y)) Y (w\<lparr>client_heap := (client_heap w)(c \<mapsto> y),
    seat_heap := (seat_heap w)(s \<mapsto> leave c st)\<rparr>)"
proof -
  let ?H = "(client_heap w)(c \<mapsto> y)" and ?S = "(seat_heap w)(s \<mapsto> leave c st)"
    and ?idle = "idle_clients (the_server w)"
  have idle: "c \<notin> set ?idle" using assms(1) x seat by (auto simp: world_ok_def links_ok_def)
  have free: "c \<notin> set (seat_clients t)" if "seat_ok b (client_heap w) r t" "r \<noteq> s" for b r t
    using that seat x by (auto simp: seat_ok_def)
  then have other: "seat_ok b ?H r t" if "seat_ok b (client_heap w) r t" "r \<noteq> s" for b r t
    using that by (simp add: seat_ok_other)
  have sok: "seat_ok (vt_signal (g_signals g)) (client_heap w) r t" if "seat_heap w r = Some t" for r t
    using invD(4) [OF assms(1) that] by simp
  have mem: "set (seat_clients (leave c st)) = set (seat_clients st) - {c}"
    using sok [OF st] by (simp add: leave_def seat_ok_def set_remove1_eq)
  have "links_ok (X(c \<mapsto> y)) ?H ?S ?idle"
  proof -
    have "linked_at ?S ?idle d z" if "linked_at (seat_heap w) ?idle d z" "d \<noteq> c" for d z
      using that st by (cases "cl_seat z") (auto simp: linked_at_def mem)
    moreover have "unlinked_from ?S ?idle d" if "unlinked_from (seat_heap w) ?idle d" for d
      using that st by (auto simp: unlinked_from_def mem)
    moreover have "c \<notin> set (seat_clients t)" if "?S r = Some t" for r t
      using that mem free [OF sok] by (cases "r = s") simp_all
    then have "unlinked_from ?S ?idle c"
      using idle by (simp add: unlinked_from_def)
    ultimately show ?thesis
      using assms(1) x X idle by (auto simp: world_ok_def links_ok_def)
  qed
  moreover have "sources_ok Y ?H (the_poller w)"
    using assms(1) x y by (auto simp: world_ok_def intro: sources_upd)
  moreover have "pending (cl_connection y) \<le> g_input g c"
    using invD(9) [OF assms(1) x] y by simp
  moreover have "client_ok y"
    using invD(3) [OF assms(1) x] y seat by (simp add: client_ok_def)
  moreover have "seats_ok (vt_signal (g_signals g)) (g_seats g) ?H ?S (seats (the_server w)) (next_addr w)"
    by (rule seats_upd [where H = "client_heap w"])
      (use assms(1) st sok other in \<open>auto simp: world_ok_def intro: seat_ok_leave\<close>)
  ultimately show ?thesis
    using assms(1) x by (simp add: world_ok_def clients_upd)
qed

text \<open>A client without a seat leaves, and enters, the list of idle clients.\<close>

lemma inv_unlink_idle:
  assumes "world_ok g X Y w" and x: "client_heap w c = Some x" and X: "X c = None" and seat: "cl_seat x = None"
    and y: "y = x\<lparr>cl_link_null := True\<rparr>"
  shows "world_ok g (X(c \<mapsto> y)) Y (w\<lparr>client_heap := (client_heap w)(c \<mapsto> y),
    the_server := (the_server w)\<lparr>idle_clients := remove1 c (idle_clients (the_server w))\<rparr>\<rparr>)"
proof -
  let ?H = "(client_heap w)(c \<mapsto> y)" and ?idle = "idle_clients (the_server w)"
  have free: "c \<notin> set (seat_clients t)" if "seat_ok b (client_heap w) r t" for b r t
    using that seat x by (auto simp: seat_ok_def)
  have set_idle: "set (remove1 c ?idle) = set ?idle - {c}"
    using assms(1) by (simp add: world_ok_def links_ok_def set_remove1_eq)
  have sok: "seat_ok (vt_signal (g_signals g)) (client_heap w) r t" if "seat_heap w r = Some t" for r t
    using invD(4) [OF assms(1) that] by simp
  have "links_ok (X(c \<mapsto> y)) ?H (seat_heap w) (remove1 c ?idle)"
  proof -
    have "linked_at (seat_heap w) (remove1 c ?idle) d z" if "linked_at (seat_heap w) ?idle d z" "d \<noteq> c" for d z
      using that by (auto simp: linked_at_def split: option.splits)
    moreover have "unlinked_from (seat_heap w) (remove1 c ?idle) d" if "unlinked_from (seat_heap w) ?idle d" for d
      using that set_idle by (auto simp: unlinked_from_def)
    moreover have "unlinked_from (seat_heap w) (remove1 c ?idle) c"
      using free [OF sok] set_idle by (simp add: unlinked_from_def)
    ultimately show ?thesis
      using assms(1) x X set_idle by (auto simp: world_ok_def links_ok_def)
  qed
  moreover have "sources_ok Y ?H (the_poller w)"
    using assms(1) x y by (auto simp: world_ok_def intro: sources_upd)
  moreover have "pending (cl_connection y) \<le> g_input g c"
    using invD(9) [OF assms(1) x] y by simp
  moreover have "client_ok y"
    using invD(3) [OF assms(1) x] y by (simp add: client_ok_def)
  moreover have "seat_ok b ?H r t" if "seat_ok b (client_heap w) r t" for b r t
    using that free [OF that] by (simp add: seat_ok_other)
  ultimately show ?thesis
    using assms(1) x by (auto simp: world_ok_def clients_ok_def seats_ok_def)
qed

lemma inv_link_idle:
  assumes "world_ok g X Y w" and x: "X c = Some x" and seat: "cl_seat x = None"
    and y: "y = x\<lparr>cl_link_null := False\<rparr>"
  shows "world_ok g (X(c := None)) Y (w\<lparr>client_heap := (client_heap w)(c \<mapsto> y),
    the_server := (the_server w)\<lparr>idle_clients := c # idle_clients (the_server w)\<rparr>\<rparr>)"
proof -
  let ?H = "(client_heap w)(c \<mapsto> y)" and ?idle = "idle_clients (the_server w)"
  have heap: "client_heap w c = Some x" and un: "unlinked_from (seat_heap w) ?idle c"
    using assms(1) x by (auto simp: world_ok_def links_ok_def)
  have "links_ok (X(c := None)) ?H (seat_heap w) (c # ?idle)"
  proof -
    have "linked_at (seat_heap w) (c # ?idle) d z" if "linked_at (seat_heap w) ?idle d z" for d z
      using that by (auto simp: linked_at_def split: option.splits)
    moreover have "unlinked_from (seat_heap w) (c # ?idle) d" if "unlinked_from (seat_heap w) ?idle d" "d \<noteq> c" for d
      using that by (auto simp: unlinked_from_def)
    moreover have "linked_at (seat_heap w) (c # ?idle) c y"
      using y seat by (simp add: linked_at_def)
    ultimately show ?thesis
      using assms(1) heap un y seat by (auto simp: world_ok_def links_ok_def unlinked_from_def)
  qed
  moreover have "sources_ok Y ?H (the_poller w)"
    using assms(1) heap y by (auto simp: world_ok_def intro: sources_upd)
  moreover have "pending (cl_connection y) \<le> g_input g c"
    using invD(9) [OF assms(1) heap] y by simp
  moreover have "client_ok y"
    using invD(3) [OF assms(1) heap] y by (simp add: client_ok_def)
  moreover have "seat_ok b ?H r t" if "seat_ok b (client_heap w) r t" "seat_heap w r = Some t" for b r t
    using that un by (auto simp: unlinked_from_def seat_ok_other)
  ultimately show ?thesis
    using assms(1) heap by (auto simp: world_ok_def clients_ok_def seats_ok_def)
qed

section \<open>Event sources\<close>

lemma live_source_mask [simp]:
  "live_source (p\<lparr>fds := upd_at a (\<lambda>e. e\<lparr>es_mask := ev\<rparr>) (fds p), dirty := True\<rparr>) b f = live_source p b f"
proof (cases "b = a")
  case True
  then show ?thesis by (force simp: live_source_def set_upd_at)
qed (auto simp: live_source_def set_upd_at)

definition killed :: "nat \<Rightarrow> poller \<Rightarrow> poller" where
  "killed a p = p\<lparr>fd_event_sources := fd_event_sources p - 1, dirty := True,
     fds := upd_at a (\<lambda>e. e\<lparr>es_killed := True\<rparr>) (fds p)\<rparr>"

lemma killed_simps [simp]:
  "fst ` set (fds (killed a p)) = fst ` set (fds p)" "signals (killed a p) = signals p"
  "live_source (killed a p) b f \<longleftrightarrow> b \<noteq> a \<and> live_source p b f"
proof -
  show "live_source (killed a p) b f \<longleftrightarrow> b \<noteq> a \<and> live_source p b f"
    by (cases "b = a") (auto simp: killed_def live_source_def set_upd_at)
qed (simp_all add: killed_def)

lemma poll_inv_at:
  "poll_at D ss (the_poller w) (next_addr w) \<longleftrightarrow>
     poll_inv w \<and> D \<subseteq> fst ` set (fds (the_poller w)) \<and> signals (the_poller w) = ss"
  by (auto simp: poll_at_def poll_inv_def)

lemma live_source_unique:
  assumes "poll_inv w" and "live_source (the_poller w) a f" and "live_source (the_poller w) a h"
  shows "f = h"
  using assms by (auto simp: poll_inv_def poller_ok_def live_source_def dest: eq_key_imp_eq_value)

lemma inv_poller:
  assumes "world_ok g X Y w" and "poll_inv (w\<lparr>the_poller := q\<rparr>)" and "signals q = signals (the_poller w)"
    and "fst ` set (fds q) = fst ` set (fds (the_poller w))"
    and "\<And>a f. live_source q a f = live_source (the_poller w) a f"
  shows "world_ok g X Y (w\<lparr>the_poller := q\<rparr>)"
proof -
  have "poll_at D ss q (next_addr w)" if "poll_at D ss (the_poller w) (next_addr w)" for D ss
    using assms(2-4) that poll_inv_at [where w = "w\<lparr>the_poller := q\<rparr>"] by (auto simp: poll_at_def poll_inv_def)
  then show ?thesis
    using assms(1,5) by (simp add: world_ok_def sources_ok_def controls_ok_def)
qed

lemma event_source_fd_update_inv:
  assumes "world_ok g X Y w" and "live_source (the_poller w) a f"
    and "\<And>w'. world_ok g X Y w' \<Longrightarrow> client_heap w' = client_heap w \<Longrightarrow> seat_heap w' = seat_heap w \<Longrightarrow>
      control_heap w' = control_heap w \<Longrightarrow> the_server w' = the_server w \<Longrightarrow> Q 0 w'"
  shows "wp (event_source_fd_update a ev) Q w"
proof (rule wp_mono [OF event_source_fd_update_wp [OF invD(2) [OF assms(1)] assms(2)]])
  fix r :: int and w'
  let ?q = "(the_poller w)\<lparr>fds := upd_at a (\<lambda>e. e\<lparr>es_mask := ev\<rparr>) (fds (the_poller w)), dirty := True\<rparr>"
  assume w': "r = 0 \<and> poll_inv w' \<and> w' = w\<lparr>the_poller := ?q\<rparr>"
  then have "world_ok g X Y (w\<lparr>the_poller := ?q\<rparr>)"
    by (intro inv_poller [OF assms(1)]) auto
  with w' show "Q r w'" by (auto intro: assms(3))
qed

text \<open>The source of a client that is being destroyed is killed.\<close>

lemma inv_kill_source:
  assumes "world_ok g X Y w" and x: "X c = Some x" and a: "cl_event_source x = Some a" and "c \<in> Y"
    and p: "poll_inv (w\<lparr>the_poller := killed a (the_poller w)\<rparr>)" and y: "y = x\<lparr>cl_event_source := None\<rparr>"
  shows "world_ok g (X(c \<mapsto> y)) Y (w\<lparr>the_poller := killed a (the_poller w), client_heap := (client_heap w)(c \<mapsto> y)\<rparr>)"
proof -
  let ?H = "(client_heap w)(c \<mapsto> y)" and ?p = "killed a (the_poller w)"
  have heap: "client_heap w c = Some x" and un: "unlinked_from (seat_heap w) (idle_clients (the_server w)) c"
    using assms(1) x by (auto simp: world_ok_def links_ok_def)
  have live: "live_source (the_poller w) a (Client_handle_connection c)"
    by (rule inv_source [OF assms(1) heap a])
  have uniq: "f = Client_handle_connection c" if "live_source (the_poller w) a f" for f
    by (rule live_source_unique [OF invD(2) [OF assms(1)] that live])
  have ok: "sources_ok Y (client_heap w) (the_poller w)" using assms(1) by (simp add: world_ok_def)
  have "sources_ok Y ?H ?p"
    unfolding sources_ok_def
  proof (intro conjI allI impI)
    fix b d
    show "live_source ?p b (Client_handle_connection d) = (Option.bind (?H d) cl_event_source = Some b)"
    proof (cases "d = c")
      case True
      have "\<not> live_source ?p b (Client_handle_connection c)"
        using ok heap a by (auto simp: sources_ok_def)
      with True y show ?thesis by simp
    next
      case False
      with uniq [of "Client_handle_connection d"] have "\<not> live_source (the_poller w) a (Client_handle_connection d)" by auto
      with ok False show ?thesis by (auto simp: sources_ok_def)
    qed
  qed (use ok \<open>c \<in> Y\<close> in \<open>auto simp: sources_ok_def split: if_splits\<close>)
  moreover have "controls_ok D B C cs ?p n" if "controls_ok D B C cs (the_poller w) n" for D B C cs n
  proof -
    have "live_source ?p b (Control_client_handle_connection d) =
        live_source (the_poller w) b (Control_client_handle_connection d)" for b d
      using uniq [of "Control_client_handle_connection d"] by auto
    with that show ?thesis by (simp add: controls_ok_def)
  qed
  moreover have "links_ok (X(c \<mapsto> y)) ?H (seat_heap w) (idle_clients (the_server w))"
    using assms(1) x heap un by (auto simp: world_ok_def links_ok_def unlinked_from_def)
  moreover have "seat_ok b ?H r t" if "seat_ok b (client_heap w) r t" "seat_heap w r = Some t" for b r t
    using that un by (auto simp: unlinked_from_def seat_ok_other)
  then have "seats_ok b D ?H (seat_heap w) ss n" if "seats_ok b D (client_heap w) (seat_heap w) ss n" for b D ss n
    using that by (simp add: seats_ok_def)
  moreover have "poll_at D ss ?p (next_addr w)" if "poll_at D ss (the_poller w) (next_addr w)" for D ss
    using that p by (simp add: poll_at_def poll_inv_def)
  moreover have "pending (cl_connection y) \<le> g_input g c"
    using invD(9) [OF assms(1) heap] y by simp
  moreover have "client_ok y"
    using invD(3) [OF assms(1) heap] y by (simp add: client_ok_def)
  ultimately show ?thesis
    using assms(1) heap by (simp add: world_ok_def clients_upd)
qed

lemma event_source_fd_destroy_client:
  assumes "world_ok g X Y w" and "X c = Some x" and "cl_event_source x = Some a" and "c \<in> Y"
    and "world_ok g (X(c \<mapsto> x\<lparr>cl_event_source := None\<rparr>)) Y (w\<lparr>the_poller := killed a (the_poller w),
      client_heap := (client_heap w)(c \<mapsto> x\<lparr>cl_event_source := None\<rparr>)\<rparr>) \<Longrightarrow> Q 0 (w\<lparr>the_poller := killed a (the_poller w)\<rparr>)"
  shows "wp (event_source_fd_destroy a) Q w"
proof -
  have live: "live_source (the_poller w) a (Client_handle_connection c)"
    by (rule inv_source [OF assms(1) invD(8) [OF assms(1,2)] assms(3)])
  have r: "wp (event_source_fd_destroy a) (\<lambda>r _. r = 0) w"
    by (simp add: event_source_fd_destroy_def wp_simps)
  show ?thesis
  proof (rule wp_both [OF event_source_fd_destroy_wp [OF invD(2) [OF assms(1)] live] r])
    fix r :: int and w'
    assume "poll_inv w' \<and> w' = w\<lparr>the_poller := (the_poller w)
      \<lparr>fd_event_sources := fd_event_sources (the_poller w) - 1, dirty := True,
       fds := upd_at a (\<lambda>e. e\<lparr>es_killed := True\<rparr>) (fds (the_poller w))\<rparr>\<rparr>" and "r = 0"
    then have "poll_inv (w\<lparr>the_poller := killed a (the_poller w)\<rparr>)" "w' = w\<lparr>the_poller := killed a (the_poller w)\<rparr>"
      by (auto simp: killed_def)
    with \<open>r = 0\<close> show "Q r w'"
      using assms(5) inv_kill_source [OF assms(1-4)] by simp
  qed
qed

text \<open>A new source.\<close>

definition added :: "nat \<Rightarrow> event_source_fd \<Rightarrow> poller \<Rightarrow> poller" where
  "added a e p = p\<lparr>fd_event_sources := fd_event_sources p + 1, dirty := True, fds := (a, e) # fds p\<rparr>"

lemma added_simps [simp]:
  "signals (added a e p) = signals p"
  "live_source (added a e p) b f \<longleftrightarrow> b = a \<and> \<not> es_killed e \<and> es_func e = f \<or> live_source p b f"
  by (auto simp: added_def live_source_def)

lemma wp_poller_add_fd [wp_simps]:
  "wp (poller_add_fd k fd ev func) Q = (\<lambda>w. let r = answer k (trace w) Sys_calloc;
     v = w\<lparr>trace := (Sys_calloc, r) # trace w, errno := (if sr_val r = -1 then sr_errno r else errno w)\<rparr>
     in if sr_val r = -1 then Q None v else Q (Some (next_addr w)) (v\<lparr>next_addr := Suc (next_addr w),
       the_poller := added (next_addr w)
         \<lparr>es_func = func, es_fd = fd, es_mask = ev, es_killed = False, pollfd_idx = -1\<rparr> (the_poller w)\<rparr>))"
  by (simp add: poller_add_fd_def wp_simps Let_def fun_eq_iff added_def)

lemma poll_at_mono: "poll_at D ss p n \<Longrightarrow> n \<le> m \<Longrightarrow> poll_at D ss p m"
  unfolding poll_at_def by (meson less_le_trans)

lemma poll_at_added:
  assumes "poll_at D ss p n" and "n \<le> a" and "a < m" and e: "\<not> es_killed e" "pollfd_idx e = -1"
  shows "poll_at D ss (added a e p) m"
proof -
  have new: "a \<notin> fst ` set (fds p)" using assms(1,2) unfolding poll_at_def by (meson UnI1 leD)
  have p: "poll_at D ss p m" using poll_at_mono [OF assms(1)] assms(2,3) by simp
  have "poller_ok (added a e p)"
    using p new e by (auto simp: poll_at_def poller_ok_def added_def)
  moreover have "D \<subseteq> fst ` set (fds (added a e p))"
    using p by (auto simp: poll_at_def added_def)
  moreover have "\<forall>b \<in> fst ` set (fds (added a e p)) \<union> fst ` set (signals (added a e p)). b < m"
    using p assms(3) by (simp add: poll_at_def added_def)
  ultimately show ?thesis using p by (simp add: poll_at_def)
qed

lemma live_source_lt: "poll_at D ss p n \<Longrightarrow> live_source p a f \<Longrightarrow> a < n"
  unfolding poll_at_def live_source_def by force

lemma world_ok_next:
  assumes "world_ok g X Y w" and "next_addr w \<le> n"
  shows "world_ok g X Y (w\<lparr>next_addr := n\<rparr>)"
proof -
  have "clients_ok D B H n" if "clients_ok D B H m" "m \<le> n" for D B H m
    using that unfolding clients_ok_def by (meson less_le_trans)
  moreover have "seats_ok b D H S ss n" if "seats_ok b D H S ss m" "m \<le> n" for b D H S ss m
    using that unfolding seats_ok_def by (meson less_le_trans)
  moreover have "controls_ok D B C cs p n" if "controls_ok D B C cs p m" "m \<le> n" for D B C cs p m
    using that unfolding controls_ok_def by (meson less_le_trans)
  ultimately show ?thesis
    using assms poll_at_mono by (auto simp: world_ok_def)
qed

section \<open>Clients and control clients coming and going\<close>

text \<open>The transient sets.\<close>

lemma world_ok_Y: "world_ok g X Y w \<Longrightarrow> Y \<subseteq> Z \<Longrightarrow> world_ok g X Z w"
  by (auto simp: world_ok_def sources_ok_def)

lemma world_ok_Y_done:
  assumes "world_ok g X Z w" and "Z \<subseteq> insert c Y"
    and "\<And>x. client_heap w c = Some x \<Longrightarrow> cl_server x \<and> cl_event_source x \<noteq> None"
  shows "world_ok g X Y w"
proof -
  have "sources_ok Y (client_heap w) (the_poller w)"
    using assms unfolding world_ok_def sources_ok_def by blast
  with assms(1) show ?thesis by (simp add: world_ok_def)
qed

text \<open>A new client, unlinked and without a source.\<close>

lemma inv_new_client:
  assumes "world_ok g X Y w" and c: "c = next_addr w" and "client_ok x"
    and "pending (cl_connection x) \<le> g_input g c" and "cl_event_source x = None" and seat: "cl_seat x = None" and link: "\<not> cl_link_null x"
  shows "world_ok g X (insert c Y) (w\<lparr>next_addr := Suc c, client_heap := (client_heap w)(c \<mapsto> x),
    the_server := (the_server w)\<lparr>idle_clients := c # idle_clients (the_server w)\<rparr>\<rparr>)"
proof -
  let ?H = "(client_heap w)(c \<mapsto> x)" and ?idle = "idle_clients (the_server w)"
  have new: "client_heap w c = None"
    using assms(1) c by (cases "client_heap w c") (auto simp: world_ok_def clients_ok_def)
  then have un: "c \<notin> set ?idle"
    using assms(1) by (auto simp: world_ok_def links_ok_def)
  have "X c = None"
    using new invD(8) [OF assms(1), of c] by (cases "X c") auto
  have free: "c \<notin> set (seat_clients t)" if "seat_ok b (client_heap w) r t" for b r t
    using that new by (auto simp: seat_ok_def)
  have bound: "world_ok g X Y (w\<lparr>next_addr := Suc c\<rparr>)"
    by (rule world_ok_next [OF assms(1)]) (simp add: c)
  have "links_ok X ?H (seat_heap w) (c # ?idle)"
  proof -
    have "linked_at (seat_heap w) (c # ?idle) d z" if "linked_at (seat_heap w) ?idle d z" for d z
      using that by (auto simp: linked_at_def split: option.splits)
    moreover have "unlinked_from (seat_heap w) (c # ?idle) d" if "unlinked_from (seat_heap w) ?idle d" "d \<noteq> c" for d
      using that by (auto simp: unlinked_from_def)
    moreover have "linked_at (seat_heap w) (c # ?idle) c x"
      using seat link by (simp add: linked_at_def)
    ultimately show ?thesis
      using assms(1) un \<open>X c = None\<close> seat by (auto simp: world_ok_def links_ok_def)
  qed
  moreover have "sources_ok (insert c Y) ?H (the_poller w)"
    using assms(1,5) new by (auto simp: world_ok_def sources_ok_def)
  moreover have "seat_ok b ?H r t" if "seat_ok b (client_heap w) r t" for b r t
    using that free [OF that] by (simp add: seat_ok_other)
  ultimately show ?thesis
    using bound assms(3,4) by (auto simp: world_ok_def clients_ok_def seats_ok_def)
qed

lemma inv_add_source:
  assumes "world_ok g X Y w" and x: "client_heap w c = Some x" and "X c = None" and none: "cl_event_source x = None"
    and a: "a = next_addr w" and y: "y = x\<lparr>cl_event_source := Some a\<rparr>"
    and e: "es_func e = Client_handle_connection c" "\<not> es_killed e" "pollfd_idx e = -1"
  shows "world_ok g X Y (w\<lparr>next_addr := Suc a, the_poller := added a e (the_poller w),
    client_heap := (client_heap w)(c \<mapsto> y)\<rparr>)"
proof -
  let ?H = "(client_heap w)(c \<mapsto> y)" and ?p = "added a e (the_poller w)"
  have bound: "world_ok g X Y (w\<lparr>next_addr := Suc a\<rparr>)"
    by (rule world_ok_next [OF assms(1)]) (simp add: a)
  have poll: "poll_at (g_sources g) (g_signals g) (the_poller w) a" using assms(1) a by (simp add: world_ok_def)
  have ok: "sources_ok Y (client_heap w) (the_poller w)" using assms(1) by (simp add: world_ok_def)
  have none_c: "\<not> live_source (the_poller w) b (Client_handle_connection c)" for b
    using ok x none by (simp add: sources_ok_def)
  have "sources_ok Y ?H ?p"
    using ok x y e none none_c by (auto simp: sources_ok_def)
  moreover have "controls_ok D B C cs ?p n" if "controls_ok D B C cs (the_poller w) n" for D B C cs n
    using that e by (simp add: controls_ok_def)
  moreover have "poll_at (g_sources g) (g_signals g) ?p (Suc a)"
    by (rule poll_at_added [OF poll]) (use e in auto)
  moreover have "links_ok X ?H (seat_heap w) (idle_clients (the_server w))"
  proof -
    have "linked_at S idle c y = linked_at S idle c x" for S idle
      using y by (simp add: linked_at_def)
    then show ?thesis
      using assms(1,3) x y by (auto simp: world_ok_def links_ok_def)
  qed
  moreover have "pending (cl_connection y) \<le> g_input g c"
    using invD(9) [OF assms(1) x] y by simp
  moreover have "client_ok y" using invD(3) [OF assms(1) x] y by (simp add: client_ok_def)
  moreover have "seat_ok b ?H r t" if "seat_ok b (client_heap w) r t" for b r t
    using that x y by (auto simp: seat_ok_def on_duty_def)
  ultimately show ?thesis
    using bound x by (auto simp: world_ok_def clients_upd seats_ok_def)
qed

text \<open>A detached client without a source is freed.\<close>

lemma inv_free_client:
  assumes "world_ok g X Y w" and x: "X c = Some x" and none: "cl_event_source x = None"
  shows "world_ok (g\<lparr>g_clients := g_clients g - {c}\<rparr>) (X(c := None)) (Y - {c})
    (w\<lparr>client_heap := (client_heap w)(c := None)\<rparr>)"
proof -
  let ?H = "(client_heap w)(c := None)"
  have heap: "client_heap w c = Some x" and un: "unlinked_from (seat_heap w) (idle_clients (the_server w)) c"
    using assms(1) x by (auto simp: world_ok_def links_ok_def)
  have "seat_ok b ?H r t" if "seat_ok b (client_heap w) r t" "seat_heap w r = Some t" for b r t
    using that un by (auto simp: unlinked_from_def seat_ok_other)
  moreover have "links_ok (X(c := None)) ?H (seat_heap w) (idle_clients (the_server w))"
    using assms(1) un by (auto simp: world_ok_def links_ok_def unlinked_from_def)
  moreover have "sources_ok (Y - {c}) ?H (the_poller w)"
    using assms(1) heap none by (auto simp: world_ok_def sources_ok_def)
  ultimately show ?thesis
    using assms(1) by (auto simp: world_ok_def clients_ok_def seats_ok_def)
qed

text \<open>Control clients.\<close>

lemma inv_control_upd:
  assumes "world_ok g X Y w" and "control_heap w c = Some y" and "conn_ok (cc_connection z)"
    and "cc_event_source z = cc_event_source y" and "pending (cc_connection z) \<le> g_cinput g c"
  shows "world_ok g X Y (w\<lparr>control_heap := (control_heap w)(c \<mapsto> z)\<rparr>)"
proof -
  have "controls_ok D (g_cinput g) ((control_heap w)(c \<mapsto> z)) cs p n" if "controls_ok D (g_cinput g) (control_heap w) cs p n" for D cs p n
    using that assms(2-5) by (auto simp: controls_ok_def)
  with assms(1) show ?thesis by (simp add: world_ok_def)
qed

lemma inv_new_control:
  assumes "world_ok g X Y w" and c: "c = next_addr w" and a: "a = Suc c" and "conn_ok (cc_connection y)"
    and y: "cc_event_source y = Some a" "pending (cc_connection y) \<le> g_cinput g c"
    and e: "es_func e = Control_client_handle_connection c" "\<not> es_killed e" "pollfd_idx e = -1"
  shows "world_ok g X Y (w\<lparr>next_addr := Suc a, the_poller := added a e (the_poller w),
    control_heap := (control_heap w)(c \<mapsto> y),
    the_server := (the_server w)\<lparr>control_clients := c # control_clients (the_server w)\<rparr>\<rparr>)"
proof -
  let ?C = "(control_heap w)(c \<mapsto> y)" and ?p = "added a e (the_poller w)"
  have bound: "world_ok g X Y (w\<lparr>next_addr := Suc a\<rparr>)"
    by (rule world_ok_next [OF assms(1)]) (simp add: a c)
  have new: "control_heap w c = None"
    using assms(1) c by (cases "control_heap w c") (auto simp: world_ok_def controls_ok_def)
  have ctl: "controls_ok D B (control_heap w) cs (the_poller w) n \<Longrightarrow>
      \<not> live_source (the_poller w) b (Control_client_handle_connection c)" for D B cs n b
    using new by (simp add: controls_ok_def)
  have poll: "poll_at (g_sources g) (g_signals g) (the_poller w) c"
    using assms(1) c by (simp add: world_ok_def)
  have "controls_ok D (g_cinput g) ?C (c # cs) ?p (Suc a)"
    if "controls_ok D (g_cinput g) (control_heap w) cs (the_poller w) (Suc a)" for D cs
    using that ctl [OF that] new assms(4) y e a by (auto simp: controls_ok_def)
  moreover have "sources_ok Y (client_heap w) ?p" if "sources_ok Y (client_heap w) (the_poller w)"
    using that e by (simp add: sources_ok_def)
  moreover have "poll_at (g_sources g) (g_signals g) ?p (Suc a)"
    by (rule poll_at_added [OF poll]) (use e a in auto)
  ultimately show ?thesis
    using bound by (auto simp: world_ok_def)
qed

lemma inv_control_gone:
  assumes "world_ok g X Y w" and y: "control_heap w c = Some y" and a: "cc_event_source y = Some a"
    and p: "poll_inv (w\<lparr>the_poller := killed a (the_poller w)\<rparr>)"
  shows "world_ok (g\<lparr>g_controls := g_controls g - {c}\<rparr>) X Y (w\<lparr>the_poller := killed a (the_poller w),
    control_heap := (control_heap w)(c := None),
    the_server := (the_server w)\<lparr>control_clients := remove1 c (control_clients (the_server w))\<rparr>\<rparr>)"
proof -
  let ?p = "killed a (the_poller w)" and ?C = "(control_heap w)(c := None)"
  have ok: "controls_ok (g_controls g) (g_cinput g) (control_heap w) (control_clients (the_server w)) (the_poller w) (next_addr w)"
    using assms(1) by (simp add: world_ok_def)
  then have live: "live_source (the_poller w) a (Control_client_handle_connection c)"
    using y a by (simp add: controls_ok_def)
  have uniq: "f = Control_client_handle_connection c" if "live_source (the_poller w) a f" for f
    by (rule live_source_unique [OF invD(2) [OF assms(1)] that live])
  have "live_source ?p b (Control_client_handle_connection d) = (Option.bind (?C d) cc_event_source = Some b)" for b d
  proof (cases "d = c")
    case True
    then show ?thesis using ok y a by (auto simp: controls_ok_def)
  next
    case False
    with uniq [of "Control_client_handle_connection d"] have "\<not> live_source (the_poller w) a (Control_client_handle_connection d)" by auto
    with ok False show ?thesis by (auto simp: controls_ok_def)
  qed
  then have "controls_ok (g_controls g - {c}) (g_cinput g) ?C (remove1 c (control_clients (the_server w))) ?p (next_addr w)"
    using ok by (auto simp: controls_ok_def)
  moreover have "sources_ok Y (client_heap w) ?p"
  proof -
    have "live_source ?p b (Client_handle_connection d) = live_source (the_poller w) b (Client_handle_connection d)" for b d
      using uniq [of "Client_handle_connection d"] by auto
    with assms(1) show ?thesis by (simp add: world_ok_def sources_ok_def)
  qed
  moreover have "poll_at D ss ?p (next_addr w)" if "poll_at D ss (the_poller w) (next_addr w)" for D ss
    using that p by (simp add: poll_at_def poll_inv_def)
  ultimately show ?thesis
    using assms(1) by (simp add: world_ok_def)
qed

text \<open>An empty seat is freed.\<close>

lemma inv_free_seat:
  assumes "world_ok g X Y w" and st: "seat_heap w s = Some st" and none: "seat_clients st = []"
  shows "world_ok (g\<lparr>g_seats := g_seats g - {s}\<rparr>) X Y (w\<lparr>seat_heap := (seat_heap w)(s := None),
    the_server := (the_server w)\<lparr>seats := remove1 s (seats (the_server w))\<rparr>\<rparr>)"
proof -
  let ?S = "(seat_heap w)(s := None)"
  have "unlinked_from ?S idle c" if "unlinked_from (seat_heap w) idle c" for idle c
    using that by (auto simp: unlinked_from_def)
  moreover have "linked_at ?S idle c x" if "linked_at (seat_heap w) idle c x" for idle c x
    using that st none by (cases "cl_seat x") (auto simp: linked_at_def)
  ultimately have "links_ok X (client_heap w) ?S (idle_clients (the_server w))"
    using assms(1) by (auto simp: world_ok_def links_ok_def)
  moreover have "seats_ok b (D - {s}) H ?S (remove1 s ss) n" if "seats_ok b D H (seat_heap w) ss n" for b D H ss n
    using that by (auto simp: seats_ok_def)
  ultimately show ?thesis
    using assms(1) by (simp add: world_ok_def)
qed

end
