(* ===== verification/Messages.thy ===== *)
theory Messages
  imports Transitions
begin

text \<open>
  Messages of the two wire protocols (\<open>include/protocol.h\<close>, \<open>include/control.h\<close>) and the parts
  of \<open>seatd/client.c\<close> and \<open>seatd/control.c\<close> that queue and flush them. Integers are little
  endian on the wire, as on the machines the protocol runs on.
\<close>

section \<open>Encoding\<close>

definition u16_bytes :: "u16 \<Rightarrow> byte list" where
  "u16_bytes x = [ucast x, ucast (drop_bit 8 x)]"

definition bytes_u16 :: "byte list \<Rightarrow> u16" where
  "bytes_u16 bs = (case bs of a # b # _ \<Rightarrow> ucast a OR push_bit 8 (ucast b) | _ \<Rightarrow> 0)"

text \<open>\<open>struct proto_header\<close> and \<open>struct control_header\<close>: the opcode and the size of what follows.\<close>

definition proto_header :: "u16 \<Rightarrow> nat \<Rightarrow> byte list" where
  "proto_header opcode len = u16_bytes opcode @ u16_bytes (of_nat len)"

definition header_opcode :: "byte list \<Rightarrow> u16" where
  "header_opcode bs = bytes_u16 (take 2 bs)"

definition header_size :: "byte list \<Rightarrow> nat" where
  "header_size bs = unat (bytes_u16 (drop 2 bs))"

abbreviation (input) "CLIENT_OPEN_SEAT \<equiv> (1::u16)"
abbreviation (input) "CLIENT_CLOSE_SEAT \<equiv> (2::u16)"
abbreviation (input) "CLIENT_OPEN_DEVICE \<equiv> (3::u16)"
abbreviation (input) "CLIENT_CLOSE_DEVICE \<equiv> (4::u16)"
abbreviation (input) "CLIENT_DISABLE_SEAT \<equiv> (5::u16)"
abbreviation (input) "CLIENT_SWITCH_SESSION \<equiv> (6::u16)"
abbreviation (input) "CLIENT_PING \<equiv> (7::u16)"

abbreviation (input) SERVER_EVENT :: "u16 \<Rightarrow> u16" where "SERVER_EVENT opcode \<equiv> opcode + 32768"

abbreviation (input) "SERVER_SEAT_OPENED \<equiv> SERVER_EVENT 1"
abbreviation (input) "SERVER_SEAT_CLOSED \<equiv> SERVER_EVENT 2"
abbreviation (input) "SERVER_DEVICE_OPENED \<equiv> SERVER_EVENT 3"
abbreviation (input) "SERVER_DEVICE_CLOSED \<equiv> SERVER_EVENT 4"
abbreviation (input) "SERVER_DISABLE_SEAT \<equiv> SERVER_EVENT 5"
abbreviation (input) "SERVER_ENABLE_SEAT \<equiv> SERVER_EVENT 6"
abbreviation (input) "SERVER_PONG \<equiv> SERVER_EVENT 7"
abbreviation (input) "SERVER_SESSION_SWITCHED \<equiv> SERVER_EVENT 8"
abbreviation (input) "SERVER_SEAT_DISABLED \<equiv> SERVER_EVENT 9"
abbreviation (input) "SERVER_ERROR \<equiv> SERVER_EVENT 32767"

abbreviation (input) "MAX_PATH_LEN \<equiv> (256::nat)"
abbreviation (input) "MAX_SEAT_DEVICES \<equiv> (128::nat)"

abbreviation (input) "CONTROL_CREATE_GROUP_VT \<equiv> (1::u16)"
abbreviation (input) "CONTROL_DESTROY_GROUP_VT \<equiv> (2::u16)"
abbreviation (input) "CONTROL_GET_ACTIVE_VT \<equiv> (3::u16)"
abbreviation (input) "CONTROL_FIND_FREE_VT \<equiv> (4::u16)"
abbreviation (input) "CONTROL_SWITCH_VT \<equiv> (5::u16)"
abbreviation (input) "CONTROL_GROUP_VT_CREATED \<equiv> (100::u16)"
abbreviation (input) "CONTROL_VT_CHANGED \<equiv> (101::u16)"
abbreviation (input) "CONTROL_OK \<equiv> (102::u16)"
abbreviation (input) "CONTROL_ACTIVE_VT \<equiv> (103::u16)"
abbreviation (input) "CONTROL_FREE_VT \<equiv> (104::u16)"
abbreviation (input) "CONTROL_ERROR \<equiv> (255::u16)"

text \<open>A C string in a buffer, and the bytes of a string with its terminator.\<close>

definition cstring :: "byte list \<Rightarrow> string" where
  "cstring bs = map (\<lambda>b. char_of (unat b)) (takeWhile (\<lambda>b. b \<noteq> 0) bs)"

definition string_bytes :: "string \<Rightarrow> byte list" where
  "string_bytes s = map (\<lambda>c. of_nat (of_char c)) s @ [0]"

section \<open>Queueing messages\<close>

text \<open>\<open>connection_put\<close> of several parts; the first failure ends it.\<close>

primrec connection_put_all ::
    "kernel \<Rightarrow> byte list list \<Rightarrow> connection \<Rightarrow> ('a os_scheme, int \<times> connection) state" where
  "connection_put_all k [] n = State_Monad.return (0, n)"
| "connection_put_all k (b # bs) n = do {
     (r, n) \<leftarrow> connection_put k n b;
     if r = -1 then State_Monad.return (-1, n) else connection_put_all k bs n
   }"

definition client_put :: "kernel \<Rightarrow> nat \<Rightarrow> byte list list \<Rightarrow> (world, int) state" where
  "client_put k c bs = on_connection c (connection_put_all k bs)"

definition client_flush :: "kernel \<Rightarrow> nat \<Rightarrow> (world, int) state" where
  "client_flush k c = do {
     r \<leftarrow> on_connection c (connection_flush k);
     e \<leftarrow> get_errno;
     if r = -1 \<and> e = EAGAIN then do {
       x \<leftarrow> get_client c;
       a \<leftarrow> deref (cl_event_source x);
       _ \<leftarrow> event_source_fd_update a (EVENT_READABLE OR EVENT_WRITABLE);
       State_Monad.return 0
     }
     else State_Monad.return (if r = -1 then -1 else 0)
   }"

definition client_send_error :: "kernel \<Rightarrow> nat \<Rightarrow> int \<Rightarrow> (world, int) state" where
  "client_send_error k c error_code = client_put k c [proto_header SERVER_ERROR 4, int_bytes error_code]"

definition send_event :: "kernel \<Rightarrow> nat \<Rightarrow> u16 \<Rightarrow> (world, int) state" where
  "send_event k c opcode = do {
     r \<leftarrow> client_put k c [proto_header opcode 0];
     if r = -1 then State_Monad.return (-1)
     else do {
       r \<leftarrow> on_connection c (connection_flush k);
       State_Monad.return (if r = -1 then -1 else 0)
     }
   }"

definition client_send_disable_seat :: "kernel \<Rightarrow> nat \<Rightarrow> (world, int) state" where
  "client_send_disable_seat k c = send_event k c SERVER_DISABLE_SEAT"

definition client_send_enable_seat :: "kernel \<Rightarrow> nat \<Rightarrow> (world, int) state" where
  "client_send_enable_seat k c = send_event k c SERVER_ENABLE_SEAT"

section \<open>Control clients\<close>

definition control_client_destroy :: "kernel \<Rightarrow> nat \<Rightarrow> (world, unit) state" where
  "control_client_destroy k c = do {
     x \<leftarrow> get_control c;
     _ \<leftarrow> (case cc_event_source x of
       None \<Rightarrow> State_Monad.return ()
     | Some a \<Rightarrow> do {
         _ \<leftarrow> event_source_fd_destroy a;
         upd_control c (\<lambda>x. x\<lparr>cc_event_source := None\<rparr>)
       });
     v \<leftarrow> get_server;
     assert_that (c \<in> set (control_clients v));
     upd_server (\<lambda>v. v\<lparr>control_clients := remove1 c (control_clients v)\<rparr>);
     on_control_connection c (\<lambda>n. do { n \<leftarrow> connection_close_fds k n; State_Monad.return ((), n) });
     x \<leftarrow> get_control c;
     _ \<leftarrow> (if conn_fd (cc_connection x) \<noteq> -1 then do {
             _ \<leftarrow> sys_val k (Sys_close (conn_fd (cc_connection x)));
             upd_control c (\<lambda>x. x\<lparr>cc_connection := (cc_connection x)\<lparr>conn_fd := -1\<rparr>\<rparr>)
           } else State_Monad.return ());
     free_control c
   }"

definition control_client_flush :: "kernel \<Rightarrow> nat \<Rightarrow> (world, int) state" where
  "control_client_flush k c = do {
     r \<leftarrow> on_control_connection c (connection_flush k);
     e \<leftarrow> get_errno;
     if r = -1 \<and> e = EAGAIN then do {
       x \<leftarrow> get_control c;
       a \<leftarrow> deref (cc_event_source x);
       event_source_fd_update a (EVENT_READABLE OR EVENT_WRITABLE)
     }
     else if r \<ge> 0 then do {
       x \<leftarrow> get_control c;
       a \<leftarrow> deref (cc_event_source x);
       event_source_fd_update a EVENT_READABLE
     }
     else State_Monad.return (-1)
   }"

definition control_put :: "kernel \<Rightarrow> nat \<Rightarrow> byte list list \<Rightarrow> (world, int) state" where
  "control_put k c bs = do {
     r \<leftarrow> on_control_connection c (connection_put_all k bs);
     if r = -1 then State_Monad.return (-1) else control_client_flush k c
   }"

definition control_send_error :: "kernel \<Rightarrow> nat \<Rightarrow> int \<Rightarrow> (world, int) state" where
  "control_send_error k c error_code = control_put k c [proto_header CONTROL_ERROR 4, int_bytes error_code]"

definition control_send_ok :: "kernel \<Rightarrow> nat \<Rightarrow> (world, int) state" where
  "control_send_ok k c = control_put k c [proto_header CONTROL_OK 0]"

definition control_send_message :: "kernel \<Rightarrow> nat \<Rightarrow> u16 \<Rightarrow> byte list \<Rightarrow> (world, int) state" where
  "control_send_message k c opcode payload = control_put k c [proto_header opcode (length payload), payload]"

definition control_send_group_vt_created :: "kernel \<Rightarrow> nat \<Rightarrow> int \<Rightarrow> int \<Rightarrow> (world, int) state" where
  "control_send_group_vt_created k c owner_pid vt =
     control_send_message k c CONTROL_GROUP_VT_CREATED (int_bytes owner_pid @ int_bytes vt)"

definition control_send_vt_state :: "kernel \<Rightarrow> nat \<Rightarrow> u16 \<Rightarrow> int \<Rightarrow> (world, int) state" where
  "control_send_vt_state k c opcode vt = control_send_message k c opcode (int_bytes vt)"

definition control_send_vt_change :: "kernel \<Rightarrow> nat \<Rightarrow> int \<Rightarrow> int \<Rightarrow> (world, int) state" where
  "control_send_vt_change k c old_vt new_vt =
     control_send_message k c CONTROL_VT_CHANGED (int_bytes old_vt @ int_bytes new_vt)"

text \<open>
  The loop saves the next element before it handles one, and a failed send only removes the
  element itself, so it visits the clients that are in the list when it starts.
\<close>

primrec broadcast_loop :: "kernel \<Rightarrow> int \<Rightarrow> int \<Rightarrow> nat list \<Rightarrow> (world, unit) state" where
  "broadcast_loop k old_vt new_vt [] = State_Monad.return ()"
| "broadcast_loop k old_vt new_vt (c # cs) = do {
     r \<leftarrow> control_send_vt_change k c old_vt new_vt;
     _ \<leftarrow> (if r = -1 then control_client_destroy k c else State_Monad.return ());
     broadcast_loop k old_vt new_vt cs
   }"

definition control_broadcast_vt_change :: "kernel \<Rightarrow> int \<Rightarrow> int \<Rightarrow> (world, unit) state" where
  "control_broadcast_vt_change k old_vt new_vt = do {
     v \<leftarrow> get_server;
     broadcast_loop k old_vt new_vt (control_clients v)
   }"

section \<open>Sending keeps the invariant\<close>

lemma length_proto_header [simp]: "length (proto_header opcode len) = 4"
  by (simp add: proto_header_def u16_bytes_def)

lemma length_string_bytes [simp]: "length (string_bytes s) = Suc (length s)"
  by (simp add: string_bytes_def)

text \<open>Queueing the parts of a message appends their bytes to the output.\<close>

lemma connection_put_all_step [step_frame]: "state_io_rel os_step (connection_put_all k bs n)"
  by (induction bs arbitrary: n) (auto intro!: step.rules step_frame)

lemma connection_put_all_wp:
  assumes "send_ok k"
  shows "conn_ok n \<Longrightarrow> \<forall>b \<in> set bs. length b \<le> 256 \<Longrightarrow> wp (connection_put_all k bs n) (\<lambda>(r, n') w'.
    conn_ok n' \<and> (r = 0 \<or> r = -1) \<and> conn_fd n' = conn_fd n \<and> cin n' = cin n \<and> fds_in n' = fds_in n \<and>
    (r = 0 \<longrightarrow> sent_on (conn_fd n) (trace w') @ contents (cout n') =
      sent_on (conn_fd n) (trace w) @ contents (cout n) @ concat bs)) (w :: 'a os_scheme)"
proof (induction bs arbitrary: n w)
  case Nil
  then show ?case by (simp add: wp_simps)
next
  case (Cons b bs)
  have put: "wp (connection_put k n b) (\<lambda>(r, c') w'. conn_ok c' \<and> conn_fd c' = conn_fd n \<and>
    cin c' = cin n \<and> fds_in c' = fds_in n \<and> (r = 0 \<or> r = -1) \<and>
    sent_on (conn_fd n) (trace w') @ contents (cout c') =
      sent_on (conn_fd n) (trace w) @ contents (cout n) @ (if r = 0 then b else []) \<and>
    (r = 0 \<longrightarrow> want_flush c')) w"
    by (rule connection_put_wp) (use assms Cons.prems in auto)
  have rest: "wp (connection_put_all k bs c') (\<lambda>(r, n') w'.
      conn_ok n' \<and> (r = 0 \<or> r = -1) \<and> conn_fd n' = conn_fd n \<and> cin n' = cin n \<and> fds_in n' = fds_in n \<and>
      (r = 0 \<longrightarrow> sent_on (conn_fd n) (trace w') @ contents (cout n') =
        sent_on (conn_fd n) (trace w) @ contents (cout n) @ b @ concat bs)) w'"
    if "conn_ok c'" "conn_fd c' = conn_fd n" "cin c' = cin n" "fds_in c' = fds_in n"
      "sent_on (conn_fd n) (trace w') @ contents (cout c') =
        sent_on (conn_fd n) (trace w) @ contents (cout n) @ b" for c' and w' :: "'a os_scheme"
  proof (rule wp_mono [OF Cons.IH [OF that(1)]])
    show "\<forall>b \<in> set bs. length b \<le> 256" using Cons.prems by simp
  qed (use that(2-) in \<open>auto simp flip: append_assoc\<close>)
  show ?case
    unfolding connection_put_all.simps wp_simps
    by (rule wp_mono [OF put]) (auto intro!: rest)
qed

text \<open>\<open>only_conn c w w'\<close>: besides calls and the poller, only the connection of the client changed.\<close>

definition only_conn :: "nat \<Rightarrow> world \<Rightarrow> world \<Rightarrow> bool" where
  "only_conn c w w' \<longleftrightarrow> seat_heap w' = seat_heap w \<and> control_heap w' = control_heap w \<and>
     the_server w' = the_server w \<and> (\<exists>f. client_heap w' = (client_heap w)(c :=
       map_option (\<lambda>x. x\<lparr>cl_connection := f (cl_connection x)\<rparr>) (client_heap w c)))"

lemma only_conn_refl [simp]: "only_conn c w w"
  unfolding only_conn_def by (auto intro!: exI [of _ "\<lambda>n. n"] simp: option.map_ident)

lemma only_conn_trans: "only_conn c u v \<Longrightarrow> only_conn c v w \<Longrightarrow> only_conn c u w"
  unfolding only_conn_def by (force simp: option.map_comp comp_def)

lemma only_connD:
  assumes "only_conn c w w'"
  shows "seat_heap w' = seat_heap w" "control_heap w' = control_heap w" "the_server w' = the_server w"
    and "d \<noteq> c \<Longrightarrow> client_heap w' d = client_heap w d"
    and "client_heap w c = Some x \<Longrightarrow> \<exists>n. client_heap w' c = Some (x\<lparr>cl_connection := n\<rparr>)"
  using assms by (auto simp: only_conn_def)

lemma client_ok_connection: "client_ok x \<Longrightarrow> conn_ok n \<Longrightarrow> client_ok (x\<lparr>cl_connection := n\<rparr>)"
  by (simp add: client_ok_def)

lemma on_connection_wp:
  assumes ok: "world_ok g X Y w" and x: "client_heap w c = Some x" and X: "X c = None"
    and step: "state_io_rel os_step (f (cl_connection x))"
    and f: "wp (f (cl_connection x)) (\<lambda>(r, n) _. conn_ok n \<and> pending n \<le> g_input g c \<and> P r n) w"
  shows "wp (on_connection c f) (\<lambda>r w'. world_ok g X Y w' \<and> only_conn c w w' \<and>
    (\<exists>n. client_heap w' c = Some (x\<lparr>cl_connection := n\<rparr>) \<and> conn_ok n \<and> P r n)) w"
proof -
  have f': "wp (f (cl_connection x)) (\<lambda>(r, n) v. os_step w v \<and> conn_ok n \<and> pending n \<le> g_input g c \<and> P r n) w"
    using wp_frame [OF step, of w "\<lambda>_. os_step w"] f by (rule wp_both) auto
  have upd: "client_heap v c = Some x \<and> world_ok g X Y (v\<lparr>client_heap := (client_heap v)(c \<mapsto> x\<lparr>cl_connection := n\<rparr>)\<rparr>) \<and>
      only_conn c w (v\<lparr>client_heap := (client_heap v)(c \<mapsto> x\<lparr>cl_connection := n\<rparr>)\<rparr>)"
    if v: "os_step w v" and n: "conn_ok n" "pending n \<le> g_input g c" for n v
  proof -
    have heap: "client_heap v c = Some x" using os_step_world [OF v] x by simp
    have "world_ok g X Y (v\<lparr>client_heap := (client_heap v)(c \<mapsto> x\<lparr>cl_connection := n\<rparr>)\<rparr>)"
      using ok invD(3) [OF ok x] n
      by (intro inv_client_upd [where X = X and c = c, OF _ heap X])
        (auto simp: inv_os_step [OF v] on_duty_def client_ok_connection)
    moreover have "only_conn c w (v\<lparr>client_heap := (client_heap v)(c \<mapsto> x\<lparr>cl_connection := n\<rparr>)\<rparr>)"
      using os_step_world [OF v] x by (auto simp: only_conn_def intro!: exI [of _ "\<lambda>_. n"])
    ultimately show ?thesis using heap by simp
  qed
  show ?thesis
    unfolding on_connection_def
    by (simp add: wp_simps x, rule wp_mono [OF f']) (use upd in fastforce)
qed

lemma client_put_inv:
  assumes ok: "world_ok g X Y w" and x: "client_heap w c = Some x" and X: "X c = None"
    and send: "send_ok k" and len: "\<forall>b \<in> set bs. length b \<le> 256"
    and Q: "\<And>r w' n. world_ok g X Y w' \<Longrightarrow> only_conn c w w' \<Longrightarrow>
      client_heap w' c = Some (x\<lparr>cl_connection := n\<rparr>) \<Longrightarrow> r = 0 \<or> r = -1 \<Longrightarrow> Q r w'"
  shows "wp (client_put k c bs) Q w"
proof -
  have "wp (connection_put_all k bs (cl_connection x)) (\<lambda>(r, n) _. conn_ok n \<and> pending n \<le> g_input g c \<and> (r = 0 \<or> r = -1)) w"
    by (rule wp_mono [OF connection_put_all_wp [OF send inv_client(1) [OF ok x] len]])
      (use invD(9) [OF ok x] in auto)
  then show ?thesis
    unfolding client_put_def
    by (rule wp_mono [OF on_connection_wp [OF ok x X connection_put_all_step]]) (auto intro: Q)
qed

lemma flush_inv:
  assumes ok: "world_ok g X Y w" and x: "client_heap w c = Some x" and X: "X c = None" and send: "send_ok k"
    and Q: "\<And>r w' n. world_ok g X Y w' \<Longrightarrow> only_conn c w w' \<Longrightarrow>
      client_heap w' c = Some (x\<lparr>cl_connection := n\<rparr>) \<Longrightarrow> r = -1 \<or> 0 \<le> r \<Longrightarrow> Q r w'"
  shows "wp (on_connection c (connection_flush k)) Q w"
proof -
  have "wp (connection_flush k (cl_connection x)) (\<lambda>(r, n) _. conn_ok n \<and> pending n \<le> g_input g c \<and> (r = -1 \<or> 0 \<le> r)) w"
    by (rule wp_mono [OF connection_flush_wp [OF inv_client(1) [OF ok x] send]])
      (use invD(9) [OF ok x] in \<open>auto split: if_splits\<close>)
  then show ?thesis
    by (rule wp_mono [OF on_connection_wp [OF ok x X connection_flush_step]]) (auto intro: Q)
qed

lemma send_event_inv:
  assumes ok: "world_ok g X Y w" and x: "client_heap w c = Some x" and X: "X c = None" and send: "send_ok k"
    and Q: "\<And>r w' n. world_ok g X Y w' \<Longrightarrow> only_conn c w w' \<Longrightarrow>
      client_heap w' c = Some (x\<lparr>cl_connection := n\<rparr>) \<Longrightarrow> r = 0 \<or> r = -1 \<Longrightarrow> Q r w'"
  shows "wp (send_event k c opcode) Q w"
  unfolding send_event_def wp_simps
  by (rule client_put_inv [OF ok x X send])
    (auto intro!: Q flush_inv [where X = X and c = c, OF _ _ X send] elim: only_conn_trans)

lemma client_flush_inv:
  assumes ok: "world_ok g X Y w" and x: "client_heap w c = Some x" and X: "X c = None" and send: "send_ok k"
    and Y: "c \<notin> Y"
    and Q: "\<And>r w' n. world_ok g X Y w' \<Longrightarrow> only_conn c w w' \<Longrightarrow>
      client_heap w' c = Some (x\<lparr>cl_connection := n\<rparr>) \<Longrightarrow> Q r w'"
  shows "wp (client_flush k c) Q w"
proof -
  obtain a where a: "cl_event_source x = Some a"
    using inv_ready [OF ok x Y] by auto
  have upd: "wp (event_source_fd_update a ev) (\<lambda>_. Q 0) v"
    if v: "world_ok g X Y v" "only_conn c w v" and n: "client_heap v c = Some (x\<lparr>cl_connection := n\<rparr>)" for ev v n
  proof (rule event_source_fd_update_inv [OF v(1) inv_source [OF v(1) n]])
    show "cl_event_source (x\<lparr>cl_connection := n\<rparr>) = Some a" using a by simp
  qed (use v(2) n in \<open>auto intro!: Q simp: only_conn_def\<close>)
  show ?thesis
    unfolding client_flush_def wp_simps
    by (rule flush_inv [OF ok x X send])
      (auto simp: a intro: Q upd)
qed

section \<open>Control clients keep the invariant\<close>

definition only_control :: "nat \<Rightarrow> world \<Rightarrow> world \<Rightarrow> bool" where
  "only_control c w w' \<longleftrightarrow> seat_heap w' = seat_heap w \<and> client_heap w' = client_heap w \<and>
     the_server w' = the_server w \<and> (\<exists>f. control_heap w' = (control_heap w)(c :=
       map_option (\<lambda>x. x\<lparr>cc_connection := f (cc_connection x)\<rparr>) (control_heap w c)))"

lemma only_control_refl [simp]: "only_control c w w"
  unfolding only_control_def by (auto intro!: exI [of _ "\<lambda>n. n"] simp: option.map_ident)

lemma only_controlI:
  "client_heap w' = client_heap w \<Longrightarrow> seat_heap w' = seat_heap w \<Longrightarrow> control_heap w' = control_heap w \<Longrightarrow>
     the_server w' = the_server w \<Longrightarrow> only_control c w w'"
  unfolding only_control_def by (auto intro!: exI [of _ "\<lambda>n. n"] simp: option.map_ident)

lemma only_control_trans: "only_control c u v \<Longrightarrow> only_control c v w \<Longrightarrow> only_control c u w"
  unfolding only_control_def by (force simp: option.map_comp comp_def)

lemma on_control_connection_wp:
  assumes ok: "world_ok g X Y w" and y: "control_heap w c = Some y"
    and step: "state_io_rel os_step (f (cc_connection y))"
    and f: "wp (f (cc_connection y)) (\<lambda>(r, n) _. conn_ok n \<and> pending n \<le> g_cinput g c \<and> P r n) w"
  shows "wp (on_control_connection c f) (\<lambda>r w'. world_ok g X Y w' \<and> only_control c w w' \<and>
    (\<exists>n. control_heap w' c = Some (y\<lparr>cc_connection := n\<rparr>) \<and> conn_ok n \<and> P r n)) w"
proof -
  have f': "wp (f (cc_connection y)) (\<lambda>(r, n) v. os_step w v \<and> conn_ok n \<and> pending n \<le> g_cinput g c \<and> P r n) w"
    using wp_frame [OF step, of w "\<lambda>_. os_step w"] f by (rule wp_both) auto
  have upd: "control_heap v c = Some y \<and> world_ok g X Y (v\<lparr>control_heap := (control_heap v)(c \<mapsto> y\<lparr>cc_connection := n\<rparr>)\<rparr>) \<and>
      only_control c w (v\<lparr>control_heap := (control_heap v)(c \<mapsto> y\<lparr>cc_connection := n\<rparr>)\<rparr>)"
    if v: "os_step w v" and n: "conn_ok n" "pending n \<le> g_cinput g c" for n v
  proof -
    have heap: "control_heap v c = Some y" using os_step_world [OF v] y by simp
    have "world_ok g X Y (v\<lparr>control_heap := (control_heap v)(c \<mapsto> y\<lparr>cc_connection := n\<rparr>)\<rparr>)"
      using ok n by (intro inv_control_upd [OF _ heap]) (auto simp: inv_os_step [OF v])
    moreover have "only_control c w (v\<lparr>control_heap := (control_heap v)(c \<mapsto> y\<lparr>cc_connection := n\<rparr>)\<rparr>)"
      using os_step_world [OF v] y by (auto simp: only_control_def intro!: exI [of _ "\<lambda>_. n"])
    ultimately show ?thesis using heap by simp
  qed
  show ?thesis
    unfolding on_control_connection_def
    by (simp add: wp_simps y, rule wp_mono [OF f']) (use upd in fastforce)
qed

lemma inv_control_source:
  assumes "world_ok g X Y w" and "control_heap w c = Some y"
  shows "\<exists>a. cc_event_source y = Some a \<and> live_source (the_poller w) a (Control_client_handle_connection c)"
proof -
  have ok: "controls_ok (g_controls g) (g_cinput g) (control_heap w) (control_clients (the_server w)) (the_poller w) (next_addr w)"
    using assms(1) by (simp add: world_ok_def)
  then have "cc_event_source y \<noteq> None" using assms(2) by (simp add: controls_ok_def)
  with ok assms(2) show ?thesis by (auto simp: controls_ok_def)
qed

lemma control_flush_inv:
  assumes ok: "world_ok g X Y w" and y: "control_heap w c = Some y" and send: "send_ok k"
    and Q: "\<And>r w' n. world_ok g X Y w' \<Longrightarrow> only_control c w w' \<Longrightarrow>
      control_heap w' c = Some (y\<lparr>cc_connection := n\<rparr>) \<Longrightarrow> r = -1 \<or> 0 \<le> r \<Longrightarrow> Q r w'"
  shows "wp (on_control_connection c (connection_flush k)) Q w"
proof -
  have "wp (connection_flush k (cc_connection y)) (\<lambda>(r, n) _. conn_ok n \<and> pending n \<le> g_cinput g c \<and> (r = -1 \<or> 0 \<le> r)) w"
    by (rule wp_mono [OF connection_flush_wp [OF _ send]])
      (use invD(10) [OF ok y] in \<open>auto split: if_splits\<close>)
  then show ?thesis
    by (rule wp_mono [OF on_control_connection_wp [OF ok y connection_flush_step]]) (auto intro: Q)
qed

lemma control_update_inv:
  assumes ok: "world_ok g X Y w" and y: "control_heap w c = Some y" and a: "cc_event_source y = Some a"
    and Q: "\<And>w'. world_ok g X Y w' \<Longrightarrow> only_control c w w' \<Longrightarrow> control_heap w' c = Some y \<Longrightarrow> Q 0 w'"
  shows "wp (event_source_fd_update a ev) Q w"
proof -
  have "live_source (the_poller w) a (Control_client_handle_connection c)"
    using inv_control_source [OF ok y] a by auto
  then show ?thesis
    by (rule event_source_fd_update_inv [OF ok])
      (use y in \<open>auto intro!: Q only_controlI\<close>)
qed

lemma control_client_flush_inv:
  assumes ok: "world_ok g X Y w" and y: "control_heap w c = Some y" and send: "send_ok k"
    and Q: "\<And>r w' n. world_ok g X Y w' \<Longrightarrow> only_control c w w' \<Longrightarrow>
      control_heap w' c = Some (y\<lparr>cc_connection := n\<rparr>) \<Longrightarrow> Q r w'"
  shows "wp (control_client_flush k c) Q w"
proof -
  obtain a where a: "cc_event_source y = Some a"
    using inv_control_source [OF ok y] by auto
  show ?thesis
    unfolding control_client_flush_def wp_simps
    by (rule control_flush_inv [OF ok y send])
      (auto simp: a intro!: Q control_update_inv elim: only_control_trans)
qed

lemma control_put_inv:
  assumes ok: "world_ok g X Y w" and y: "control_heap w c = Some y" and send: "send_ok k"
    and len: "\<forall>b \<in> set bs. length b \<le> 256"
    and Q: "\<And>r w' n. world_ok g X Y w' \<Longrightarrow> only_control c w w' \<Longrightarrow>
      control_heap w' c = Some (y\<lparr>cc_connection := n\<rparr>) \<Longrightarrow> Q r w'"
  shows "wp (control_put k c bs) Q w"
proof -
  have "wp (connection_put_all k bs (cc_connection y)) (\<lambda>(r, n) _. conn_ok n \<and> pending n \<le> g_cinput g c \<and> (r = 0 \<or> r = -1)) w"
    by (rule wp_mono [OF connection_put_all_wp [OF send _ len]])
      (use invD(10) [OF ok y] in auto)
  then have "wp (on_control_connection c (connection_put_all k bs)) (\<lambda>r w'. world_ok g X Y w' \<and> only_control c w w' \<and>
    (\<exists>n. control_heap w' c = Some (y\<lparr>cc_connection := n\<rparr>) \<and> conn_ok n \<and> (r = 0 \<or> r = -1))) w"
    by (rule on_control_connection_wp [OF ok y connection_put_all_step])
  then show ?thesis
    unfolding control_put_def wp_simps
    by (rule wp_mono) (auto intro!: Q control_client_flush_inv [OF _ _ send] elim: only_control_trans)
qed

text \<open>The replies and notifications to control clients.\<close>

lemmas control_send_defs = control_send_error_def control_send_ok_def control_send_message_def
  control_send_group_vt_created_def control_send_vt_state_def control_send_vt_change_def

lemma control_send_inv:
  assumes "world_ok g X Y w" and "control_heap w c = Some y" and "send_ok k"
    and "\<And>r w' n. world_ok g X Y w' \<Longrightarrow> only_control c w w' \<Longrightarrow>
      control_heap w' c = Some (y\<lparr>cc_connection := n\<rparr>) \<Longrightarrow> Q r w'"
  shows "wp (control_send_error k c e) Q w" "wp (control_send_ok k c) Q w"
    "wp (control_send_group_vt_created k c pid vt) Q w" "wp (control_send_vt_state k c opcode vt) Q w"
    "wp (control_send_vt_change k c old_vt new_vt) Q w"
  unfolding control_send_defs
  by (rule control_put_inv [OF assms(1-3)], simp add: length_int_bytes, rule assms(4), assumption+)+

text \<open>A control client is destroyed, together with its event source.\<close>

definition without_control :: "nat \<Rightarrow> nat option \<Rightarrow> world \<Rightarrow> world" where
  "without_control c e w = w\<lparr>
     the_poller := (case e of None \<Rightarrow> the_poller w | Some a \<Rightarrow> killed a (the_poller w)),
     control_heap := (control_heap w)(c := None),
     the_server := (the_server w)\<lparr>control_clients := remove1 c (control_clients (the_server w))\<rparr>\<rparr>"

lemma event_source_fd_destroy_killed:
  assumes "live_source (the_poller w) a f"
  shows "wp (event_source_fd_destroy a) Q w = Q 0 (w\<lparr>the_poller := killed a (the_poller w)\<rparr>)"
proof -
  have "a \<in> fst ` set (fds (the_poller w))" using assms by (force simp: live_source_def)
  then show ?thesis by (simp add: event_source_fd_destroy_def wp_simps killed_def)
qed

lemma control_client_destroy_wp:
  assumes y: "control_heap w c = Some y" and mem: "c \<in> set (control_clients (the_server w))"
    and live: "\<And>a. cc_event_source y = Some a \<Longrightarrow> \<exists>f. live_source (the_poller w) a f"
  shows "wp (control_client_destroy k c) (\<lambda>_ w'. pdata w' = pdata (without_control c (cc_event_source y) w)) w"
proof (cases "cc_event_source y")
  case None
  then show ?thesis
    using y mem
    by (auto simp: control_client_destroy_def on_control_connection_def wp_simps data_eq without_control_def
        intro!: wp_data_calls [OF connection_close_fds_calls] wp_data_calls [OF sys_val_calls])
next
  case (Some a)
  then obtain f where "live_source (the_poller w) a f" using live by auto
  with Some show ?thesis
    using y mem
    by (auto simp: control_client_destroy_def on_control_connection_def wp_simps data_eq without_control_def
        event_source_fd_destroy_killed
        intro!: wp_data_calls [OF connection_close_fds_calls] wp_data_calls [OF sys_val_calls])
qed

lemma control_client_destroy_inv:
  assumes ok: "world_ok g X Y w" and y: "control_heap w c = Some y"
    and Q: "\<And>w'. world_ok (g\<lparr>g_controls := g_controls g - {c}\<rparr>) X Y w' \<Longrightarrow> client_heap w' = client_heap w \<Longrightarrow>
      seat_heap w' = seat_heap w \<Longrightarrow> control_heap w' = (control_heap w)(c := None) \<Longrightarrow>
      the_server w' = (the_server w)\<lparr>control_clients := remove1 c (control_clients (the_server w))\<rparr> \<Longrightarrow> Q () w'"
  shows "wp (control_client_destroy k c) Q w"
proof -
  obtain a where a: "cc_event_source y = Some a"
    and live: "live_source (the_poller w) a (Control_client_handle_connection c)"
    using inv_control_source [OF ok y] by auto
  have mem: "c \<in> set (control_clients (the_server w))"
    using ok y by (auto simp: world_ok_def controls_ok_def)
  have "wp (event_source_fd_destroy a) (\<lambda>_. poll_inv) w"
    by (rule wp_mono [OF event_source_fd_destroy_wp [OF invD(2) [OF ok] live]]) simp
  then have "poll_inv (w\<lparr>the_poller := killed a (the_poller w)\<rparr>)"
    by (simp add: event_source_fd_destroy_killed [OF live])
  then have "world_ok (g\<lparr>g_controls := g_controls g - {c}\<rparr>) X Y (without_control c (Some a) w)"
    using inv_control_gone [OF ok y a] by (simp add: without_control_def)
  then have keep: "world_ok (g\<lparr>g_controls := g_controls g - {c}\<rparr>) X Y w'"
    if "pdata w' = pdata (without_control c (Some a) w)" for w'
    using world_ok_data [OF that] by simp
  show ?thesis
    by (rule wp_mono [OF control_client_destroy_wp [OF y mem]])
      (use live a keep in \<open>auto intro!: Q simp: data_eq without_control_def\<close>)
qed

lemma broadcast_loop_inv:
  assumes send: "send_ok k"
  shows "world_ok g X Y w \<Longrightarrow> g_controls g = {} \<Longrightarrow> distinct cs \<Longrightarrow> set cs \<subseteq> dom (control_heap w) \<Longrightarrow>
    wp (broadcast_loop k old_vt new_vt cs) (\<lambda>_ w'. world_ok g X Y w' \<and> client_heap w' = client_heap w \<and>
      seat_heap w' = seat_heap w) w"
proof (induction cs arbitrary: w)
  case Nil
  then show ?case by (simp add: wp_simps)
next
  case (Cons c cs)
  then obtain y where y: "control_heap w c = Some y" by auto
  have rest: "wp (broadcast_loop k old_vt new_vt cs) (\<lambda>_ w'. world_ok g X Y w' \<and> client_heap w' = client_heap w \<and>
      seat_heap w' = seat_heap w) v"
    if "world_ok g X Y v" "client_heap v = client_heap w" "seat_heap v = seat_heap w"
      "dom (control_heap w) - {c} \<subseteq> dom (control_heap v)" for v
  proof (rule wp_mono [OF Cons.IH [OF that(1)]])
    have "set cs \<subseteq> dom (control_heap w) - {c}" using Cons.prems(3,4) by auto
    then show "set cs \<subseteq> dom (control_heap v)" using that(4) by (rule order_trans)
  qed (use Cons.prems that in auto)
  have g: "g\<lparr>g_controls := {}\<rparr> = g" using Cons.prems(2) by (cases g) simp
  show ?case
    unfolding broadcast_loop.simps wp_simps
    by (rule control_send_inv(5) [OF Cons.prems(1) y send])
      (auto intro!: control_client_destroy_inv rest simp: only_control_def Cons.prems(2) g split: if_splits)
qed

lemma control_broadcast_inv:
  assumes "send_ok k" and "world_ok g X Y w" and "g_controls g = {}"
    and "\<And>w'. world_ok g X Y w' \<Longrightarrow> client_heap w' = client_heap w \<Longrightarrow> seat_heap w' = seat_heap w \<Longrightarrow> Q () w'"
  shows "wp (control_broadcast_vt_change k old_vt new_vt) Q w"
  unfolding control_broadcast_vt_change_def wp_simps
  by (rule wp_mono [OF broadcast_loop_inv [OF assms(1-3)]])
    (use assms(2,4) in \<open>auto simp: world_ok_def controls_ok_def\<close>)

end
