(* ===== verification/Seat.thy ===== *)
theory Seat
  imports Messages
begin

text \<open>
  \<open>seatd/seat.c\<close>: seats, the clients on them, their devices, and the switching between clients
  by session or by virtual terminal (VT). One definition per function, in the order of the
  source as far as the calls allow. \<open>seat_destroy\<close>, which destroys clients, comes with
  \<open>seatd/client.c\<close>.
\<close>

section \<open>Virtual terminals\<close>

definition seat_create :: "kernel \<Rightarrow> string \<Rightarrow> bool \<Rightarrow> (world, nat option) state" where
  "seat_create k name bound = do {
     a \<leftarrow> calloc k;
     case a of
       None \<Rightarrow> State_Monad.return None
     | Some s \<Rightarrow> do {
         r \<leftarrow> sys_val k (Sys_strdup name);
         if r = -1 then State_Monad.return None
         else do {
           State_Monad.update (\<lambda>w. w\<lparr>seat_heap := (seat_heap w)(s \<mapsto>
             \<lparr>seat_name = name, seat_clients = [], active_client = None, next_client = None,
              vt_bound = bound, cur_vt = -1, pending_vt_switch = 0, group_vts = []\<rparr>)\<rparr>);
           State_Monad.return (Some s)
         }
       }
   }"

definition seat_update_vt :: "kernel \<Rightarrow> nat \<Rightarrow> (world, int) state" where
  "seat_update_vt k s = do {
     tty0fd \<leftarrow> terminal_open k 0;
     if tty0fd = -1 then State_Monad.return (-1)
     else do {
       vt \<leftarrow> terminal_current_vt k tty0fd;
       saved_errno \<leftarrow> get_errno;
       _ \<leftarrow> sys_val k (Sys_close tty0fd);
       if vt \<le> 0 then do {
         set_errno (if saved_errno \<noteq> 0 then saved_errno else ENOENT);
         State_Monad.return (-1)
       } else do {
         upd_seat s (\<lambda>x. x\<lparr>cur_vt := vt\<rparr>);
         State_Monad.return 0
       }
     }
   }"

definition vt_open :: "kernel \<Rightarrow> int \<Rightarrow> ('a os_scheme, int) state" where
  "vt_open k vt = do {
     ttyfd \<leftarrow> terminal_open k vt;
     if ttyfd = -1 then State_Monad.return (-1)
     else do {
       _ \<leftarrow> terminal_set_process_switching k ttyfd True;
       _ \<leftarrow> terminal_set_keyboard k ttyfd False;
       _ \<leftarrow> terminal_set_graphics k ttyfd True;
       _ \<leftarrow> sys_val k (Sys_close ttyfd);
       State_Monad.return 0
     }
   }"

definition vt_close :: "kernel \<Rightarrow> int \<Rightarrow> ('a os_scheme, int) state" where
  "vt_close k vt = do {
     ttyfd \<leftarrow> terminal_open k vt;
     if ttyfd = -1 then State_Monad.return (-1)
     else do {
       _ \<leftarrow> terminal_set_process_switching k ttyfd False;
       _ \<leftarrow> terminal_set_keyboard k ttyfd True;
       _ \<leftarrow> terminal_set_graphics k ttyfd False;
       _ \<leftarrow> sys_val k (Sys_close ttyfd);
       State_Monad.return 0
     }
   }"

definition vt_switch :: "kernel \<Rightarrow> nat \<Rightarrow> int \<Rightarrow> (world, int) state" where
  "vt_switch k s vt = do {
     st \<leftarrow> get_seat s;
     ttyfd \<leftarrow> terminal_open k (cur_vt st);
     if ttyfd = -1 then State_Monad.return (-1)
     else do {
       r \<leftarrow> terminal_set_process_switching k ttyfd True;
       if r = -1 then do {
         saved_errno \<leftarrow> get_errno;
         _ \<leftarrow> sys_val k (Sys_close ttyfd);
         set_errno saved_errno;
         State_Monad.return (-1)
       } else do {
         r \<leftarrow> terminal_switch_vt k ttyfd vt;
         if r = -1 then do {
           saved_errno \<leftarrow> get_errno;
           _ \<leftarrow> sys_val k (Sys_close ttyfd);
           set_errno saved_errno;
           State_Monad.return (-1)
         } else do {
           _ \<leftarrow> sys_val k (Sys_close ttyfd);
           State_Monad.return 0
         }
       }
     }
   }"

definition seat_find_group_vt :: "seat \<Rightarrow> int \<Rightarrow> seat_group_vt option" where
  "seat_find_group_vt st vt = List.find (\<lambda>g. gv_vt g = vt) (group_vts st)"

definition client_owns_vt :: "nat \<Rightarrow> int \<Rightarrow> (world, bool) state" where
  "client_owns_vt c vt = do {
     x \<leftarrow> get_client c;
     if cl_session x = vt then State_Monad.return True
     else case cl_seat x of
       None \<Rightarrow> State_Monad.return False
     | Some s \<Rightarrow> do {
         st \<leftarrow> get_seat s;
         State_Monad.return (case seat_find_group_vt st vt of
           None \<Rightarrow> False | Some g \<Rightarrow> gv_owner g = Some c)
       }
   }"

definition vt_for_client_open :: "nat \<Rightarrow> nat \<Rightarrow> (world, int) state" where
  "vt_for_client_open s c = do {
     st \<leftarrow> get_seat s;
     x \<leftarrow> get_client c;
     owns \<leftarrow> (if cur_vt st > 0 then client_owns_vt c (cur_vt st) else State_Monad.return False);
     State_Monad.return (if owns then cur_vt st else cl_session x)
   }"

text \<open>Whether the server the first client of the seat points to exists.\<close>

definition seat_get_server :: "nat \<Rightarrow> (world, bool) state" where
  "seat_get_server s = do {
     st \<leftarrow> get_seat s;
     case seat_clients st of
       [] \<Rightarrow> State_Monad.return False
     | c # _ \<Rightarrow> do { x \<leftarrow> get_client c; State_Monad.return (cl_server x) }
   }"

text \<open>The first client of a list that satisfies a condition.\<close>

primrec find_client :: "(client \<Rightarrow> bool) \<Rightarrow> nat list \<Rightarrow> (world, nat option) state" where
  "find_client P [] = State_Monad.return None"
| "find_client P (c # cs) = do {
     x \<leftarrow> get_client c;
     if P x then State_Monad.return (Some c) else find_client P cs
   }"

text \<open>What the log lines say about the owner of a VT.\<close>

datatype vt_owner =
    Owner_none
  | Owner_group string string int int
  | Owner_client int int int
  | Owner_unmanaged

definition describe_vt_owner :: "nat \<Rightarrow> int \<Rightarrow> (world, vt_owner) state" where
  "describe_vt_owner s vt =
     (if vt \<le> 0 then State_Monad.return Owner_none
      else do {
        st \<leftarrow> get_seat s;
        let g = seat_find_group_vt st vt;
        case (case g of None \<Rightarrow> None | Some g \<Rightarrow> map_option (Pair g) (gv_owner g)) of
          Some (g, c) \<Rightarrow> do {
            x \<leftarrow> get_client c;
            State_Monad.return (Owner_group (gv_user g) (gv_session g) (cl_pid x) (cl_session x))
          }
        | None \<Rightarrow> do {
            r \<leftarrow> find_client (\<lambda>x. cl_session x = vt) (seat_clients st);
            case r of
              None \<Rightarrow> State_Monad.return Owner_unmanaged
            | Some c \<Rightarrow> do {
                x \<leftarrow> get_client c;
                State_Monad.return (Owner_client (cl_pid x) (cl_uid x) (cl_session x))
              }
          }
      })"

definition describe_pending_vt_target :: "nat \<Rightarrow> (world, vt_owner) state" where
  "describe_pending_vt_target s = do {
     st \<leftarrow> get_seat s;
     if pending_vt_switch st \<le> 0 then State_Monad.return Owner_none
     else describe_vt_owner s (pending_vt_switch st)
   }"

definition vt_ack :: "kernel \<Rightarrow> nat \<Rightarrow> bool \<Rightarrow> (world, int) state" where
  "vt_ack k s release = do {
     st \<leftarrow> get_seat s;
     tty0fd \<leftarrow> terminal_open k (cur_vt st);
     if tty0fd = -1 then State_Monad.return (-1)
     else do {
       _ \<leftarrow> (if release then terminal_ack_release k tty0fd else terminal_ack_acquire k tty0fd);
       _ \<leftarrow> sys_val k (Sys_close tty0fd);
       State_Monad.return 0
     }
   }"

section \<open>Devices\<close>

definition seat_deactivate_device :: "kernel \<Rightarrow> seat_device \<Rightarrow> ('a os_scheme, int \<times> seat_device) state" where
  "seat_deactivate_device k d =
     (if \<not> dev_active d then State_Monad.return (0, d)
      else do {
        r \<leftarrow> (case dev_type d of
           SEAT_DEVICE_TYPE_DRM \<Rightarrow> drm_drop_master k (dev_fd d)
         | SEAT_DEVICE_TYPE_EVDEV \<Rightarrow> evdev_revoke k (dev_fd d)
         | SEAT_DEVICE_TYPE_HIDRAW \<Rightarrow> hidraw_revoke k (dev_fd d)
         | SEAT_DEVICE_TYPE_WSCONS \<Rightarrow> State_Monad.return 0
         | SEAT_DEVICE_TYPE_NORMAL \<Rightarrow> do { abort_now; State_Monad.return (-1) });
        State_Monad.return (if r = -1 then (-1, d) else (0, d\<lparr>dev_active := False\<rparr>))
      })"

definition seat_activate_device :: "kernel \<Rightarrow> seat_device \<Rightarrow> ('a os_scheme, int \<times> seat_device) state" where
  "seat_activate_device k d =
     (if dev_active d then State_Monad.return (0, d)
      else case dev_type d of
        SEAT_DEVICE_TYPE_DRM \<Rightarrow> do {
          m \<leftarrow> drm_is_master k (dev_fd d);
          _ \<leftarrow> (if m = 1 then State_Monad.return 0 else drm_set_master k (dev_fd d));
          State_Monad.return (0, d\<lparr>dev_active := True\<rparr>)
        }
      | SEAT_DEVICE_TYPE_EVDEV \<Rightarrow> do { set_errno EINVAL; State_Monad.return (-1, d) }
      | SEAT_DEVICE_TYPE_HIDRAW \<Rightarrow> do { set_errno EINVAL; State_Monad.return (-1, d) }
      | SEAT_DEVICE_TYPE_WSCONS \<Rightarrow> State_Monad.return (0, d)
      | SEAT_DEVICE_TYPE_NORMAL \<Rightarrow> do { abort_now; State_Monad.return (0, d) })"

text \<open>The loops over a client's devices; they go on after a failure.\<close>

primrec for_devices :: "(seat_device \<Rightarrow> bool) \<Rightarrow> (seat_device \<Rightarrow> ('a os_scheme, int \<times> seat_device) state) \<Rightarrow>
    seat_device list \<Rightarrow> ('a os_scheme, seat_device list) state" where
  "for_devices P f [] = State_Monad.return []"
| "for_devices P f (d # ds) = do {
     (_, d) \<leftarrow> (if P d then f d else State_Monad.return (0, d));
     ds \<leftarrow> for_devices P f ds;
     State_Monad.return (d # ds)
   }"

definition on_devices :: "nat \<Rightarrow> (seat_device list \<Rightarrow> (world, seat_device list) state) \<Rightarrow> (world, unit) state" where
  "on_devices c f = do {
     x \<leftarrow> get_client c;
     ds \<leftarrow> f (cl_devices x);
     upd_client c (\<lambda>x. x\<lparr>cl_devices := ds\<rparr>)
   }"

definition seat_drop_client_drm_master :: "kernel \<Rightarrow> nat \<Rightarrow> (world, unit) state" where
  "seat_drop_client_drm_master k c = on_devices c
     (for_devices (\<lambda>d. dev_type d = SEAT_DEVICE_TYPE_DRM \<and> dev_active d) (seat_deactivate_device k))"

definition seat_restore_client_drm_master :: "kernel \<Rightarrow> nat \<Rightarrow> (world, unit) state" where
  "seat_restore_client_drm_master k c = on_devices c
     (for_devices (\<lambda>d. dev_type d = SEAT_DEVICE_TYPE_DRM \<and> \<not> dev_active d) (seat_activate_device k))"

text \<open>A pointer to a device is its position in the list.\<close>

definition find_index :: "('b \<Rightarrow> bool) \<Rightarrow> 'b list \<Rightarrow> nat option" where
  "find_index P xs = (let i = length (takeWhile (\<lambda>x. \<not> P x) xs) in if i < length xs then Some i else None)"

definition seat_find_device :: "nat \<Rightarrow> int \<Rightarrow> (world, nat option) state" where
  "seat_find_device c did =
     (if did = 0 then do { set_errno EINVAL; State_Monad.return None }
      else do {
        x \<leftarrow> get_client c;
        case find_index (\<lambda>d. device_id d = did) (cl_devices x) of
          None \<Rightarrow> do { set_errno ENOENT; State_Monad.return None }
        | Some i \<Rightarrow> State_Monad.return (Some i)
      })"

definition device_type_of :: "kernel \<Rightarrow> string \<Rightarrow> seat_device_type option" where
  "device_type_of k path =
     (if path_is_evdev path then Some SEAT_DEVICE_TYPE_EVDEV
      else if path_is_drm path then Some SEAT_DEVICE_TYPE_DRM
      else if path_is_wscons path then Some SEAT_DEVICE_TYPE_WSCONS
      else if path_is_hidraw k path then Some SEAT_DEVICE_TYPE_HIDRAW
      else None)"

text \<open>
  The loop of \<open>seat_open_device\<close> over the open devices: the position of the one with the path,
  or the next device ID and the number of devices.
\<close>

primrec scan_devices :: "string \<Rightarrow> seat_device list \<Rightarrow> nat \<Rightarrow> int \<Rightarrow> nat + int \<times> nat" where
  "scan_devices path [] i did = Inr (did, i)"
| "scan_devices path (d # ds) i did =
     (if dev_path d = path then Inl i
      else scan_devices path ds (Suc i) (if device_id d \<ge> did then device_id d + 1 else did))"

definition seat_open_device :: "kernel \<Rightarrow> nat \<Rightarrow> string \<Rightarrow> (world, nat option) state" where
  "seat_open_device k c path = do {
     x \<leftarrow> get_client c;
     s \<leftarrow> deref (cl_seat x);
     st \<leftarrow> get_seat s;
     if cl_state x \<noteq> CLIENT_ACTIVE then do { set_errno EPERM; State_Monad.return None }
     else do {
       assert_that (active_client st = Some c);
       r \<leftarrow> sys k (Sys_realpath path);
       if sr_val r = -1 then State_Monad.return None
       else case device_type_of k (sr_str r) of
         None \<Rightarrow> do { set_errno ENOENT; State_Monad.return None }
       | Some type \<Rightarrow>
           let sanitized_path = sr_str r in
           case scan_devices sanitized_path (cl_devices x) 0 1 of
             Inl i \<Rightarrow> do {
               upd_client c (\<lambda>x. x\<lparr>cl_devices := (cl_devices x)[i :=
                 (cl_devices x ! i)\<lparr>ref_cnt := ref_cnt (cl_devices x ! i) + 1\<rparr>]\<rparr>);
               State_Monad.return (Some i)
             }
           | Inr (did, count) \<Rightarrow>
               if count \<ge> MAX_SEAT_DEVICES then do { set_errno EMFILE; State_Monad.return None }
               else do {
                 fd \<leftarrow> sys_val k (Sys_open sanitized_path [O_RDWR, O_NOCTTY, O_NOFOLLOW, O_CLOEXEC, O_NONBLOCK]);
                 if fd = -1 then State_Monad.return None
                 else do {
                   _ \<leftarrow> (if type = SEAT_DEVICE_TYPE_DRM then drm_set_master k fd else State_Monad.return 0);
                   r \<leftarrow> sys_val k Sys_calloc;
                   if r = -1 then do {
                     _ \<leftarrow> sys_val k (Sys_close fd);
                     set_errno ENOMEM;
                     State_Monad.return None
                   } else do {
                     r \<leftarrow> sys_val k (Sys_strdup sanitized_path);
                     if r = -1 then do {
                       _ \<leftarrow> sys_val k (Sys_close fd);
                       set_errno ENOMEM;
                       State_Monad.return None
                     } else do {
                       upd_client c (\<lambda>x. x\<lparr>cl_devices := \<lparr>device_id = did, dev_fd = fd, ref_cnt = 1,
                         dev_active = True, dev_path = sanitized_path, dev_type = type\<rparr> # cl_devices x\<rparr>);
                       State_Monad.return (Some 0)
                     }
                   }
                 }
               }
     }
   }"

definition seat_close_device :: "kernel \<Rightarrow> nat \<Rightarrow> nat \<Rightarrow> (world, unit) state" where
  "seat_close_device k c i = do {
     x \<leftarrow> get_client c;
     s \<leftarrow> deref (cl_seat x);
     _ \<leftarrow> get_seat s;
     if i \<ge> length (cl_devices x) then abort_now
     else do {
       let d = cl_devices x ! i;
       let d = d\<lparr>ref_cnt := ref_cnt d - 1\<rparr>;
       if ref_cnt d > 0 then upd_client c (\<lambda>x. x\<lparr>cl_devices := (cl_devices x)[i := d]\<rparr>)
       else do {
         stored_errno \<leftarrow> get_errno;
         upd_client c (\<lambda>x. x\<lparr>cl_devices := take i (cl_devices x) @ drop (Suc i) (cl_devices x)\<rparr>);
         _ \<leftarrow> (if dev_fd d \<noteq> -1 then do {
                 _ \<leftarrow> seat_deactivate_device k d;
                 sys_val k (Sys_close (dev_fd d))
               } else State_Monad.return 0);
         set_errno stored_errno
       }
     }
   }"

section \<open>Opening and disabling clients\<close>

definition seat_open_client :: "kernel \<Rightarrow> nat \<Rightarrow> nat \<Rightarrow> (world, int) state" where
  "seat_open_client k s c = do {
     x \<leftarrow> get_client c;
     assert_that (cl_seat x = Some s);
     if cl_state x \<noteq> CLIENT_NEW \<and> cl_state x \<noteq> CLIENT_DISABLED then do {
       set_errno EALREADY;
       State_Monad.return (-1)
     } else do {
       st \<leftarrow> get_seat s;
       if active_client st \<noteq> None then do { set_errno EBUSY; State_Monad.return (-1) }
       else do {
         open_vt \<leftarrow> vt_for_client_open s c;
         r \<leftarrow> (if vt_bound st then vt_open k open_vt else State_Monad.return 0);
         if r = -1 then State_Monad.return (-1)
         else do {
           on_devices c (for_devices (\<lambda>_. True) (seat_activate_device k));
           r \<leftarrow> client_send_enable_seat k c;
           if r = -1 then do {
             on_devices c (for_devices (\<lambda>_. True) (seat_deactivate_device k));
             _ \<leftarrow> (if vt_bound st then vt_close k open_vt else State_Monad.return 0);
             State_Monad.return (-1)
           } else do {
             upd_client c (\<lambda>x. x\<lparr>cl_state := CLIENT_ACTIVE\<rparr>);
             upd_seat s (\<lambda>x. x\<lparr>active_client := Some c\<rparr>);
             State_Monad.return 0
           }
         }
       }
     }
   }"

text \<open>The first client of a list that owns a VT.\<close>

primrec find_vt_client :: "int \<Rightarrow> nat list \<Rightarrow> (world, nat option) state" where
  "find_vt_client vt [] = State_Monad.return None"
| "find_vt_client vt (c # cs) = do {
     owns \<leftarrow> client_owns_vt c vt;
     if owns then State_Monad.return (Some c) else find_vt_client vt cs
   }"

definition seat_activate :: "kernel \<Rightarrow> nat \<Rightarrow> (world, int) state" where
  "seat_activate k s = do {
     st \<leftarrow> get_seat s;
     if active_client st \<noteq> None then State_Monad.return 0
     else case next_client st of
       Some c \<Rightarrow> do {
         upd_seat s (\<lambda>x. x\<lparr>next_client := None\<rparr>);
         seat_open_client k s c
       }
     | None \<Rightarrow>
         case seat_clients st of
           [] \<Rightarrow> State_Monad.return (-1)
         | c # cs \<Rightarrow>
             if vt_bound st \<and> cur_vt st = -1 then State_Monad.return (-1)
             else if vt_bound st then do {
               r \<leftarrow> find_vt_client (cur_vt st) (seat_clients st);
               case r of
                 None \<Rightarrow> State_Monad.return (-1)
               | Some c \<Rightarrow> seat_open_client k s c
             }
             else seat_open_client k s c
   }"

definition seat_disable_client :: "kernel \<Rightarrow> nat \<Rightarrow> (world, int) state" where
  "seat_disable_client k c = do {
     x \<leftarrow> get_client c;
     if cl_state x \<noteq> CLIENT_ACTIVE then do { set_errno EBUSY; State_Monad.return (-1) }
     else do {
       s \<leftarrow> deref (cl_seat x);
       st \<leftarrow> get_seat s;
       assert_that (active_client st = Some c);
       on_devices c (for_devices (\<lambda>_. True) (seat_deactivate_device k));
       upd_client c (\<lambda>x. x\<lparr>cl_state := CLIENT_PENDING_DISABLE\<rparr>);
       a \<leftarrow> deref (active_client st);
       r \<leftarrow> client_send_disable_seat k a;
       State_Monad.return (if r = -1 then -1 else 0)
     }
   }"

definition seat_ack_disable_client :: "kernel \<Rightarrow> nat \<Rightarrow> (world, int) state" where
  "seat_ack_disable_client k c = do {
     x \<leftarrow> get_client c;
     if cl_state x \<noteq> CLIENT_PENDING_DISABLE then do { set_errno EBUSY; State_Monad.return (-1) }
     else do {
       upd_client c (\<lambda>x. x\<lparr>cl_state := CLIENT_DISABLED\<rparr>);
       s \<leftarrow> deref (cl_seat x);
       st \<leftarrow> get_seat s;
       if active_client st \<noteq> Some c then State_Monad.return 0
       else do {
         upd_seat s (\<lambda>x. x\<lparr>active_client := None\<rparr>);
         _ \<leftarrow> seat_activate k s;
         State_Monad.return 0
       }
     }
   }"

section \<open>Adding and removing clients\<close>

text \<open>
  The search for a free session number: \<open>i\<close> is the position of the traversal, which starts
  again from the first client whenever the number is taken.
\<close>

function next_session_from :: "int list \<Rightarrow> nat \<Rightarrow> int \<Rightarrow> int" where
  "next_session_from ss i n =
     (if i \<ge> length ss then n
      else if ss ! i = n then next_session_from ss 0 (n + 1)
      else next_session_from ss (Suc i) n)"
  by pat_completeness auto

termination
proof (relation "inv_image (less_than <*lex*> less_than) (\<lambda>(ss, i, n). (card {x \<in> set ss. x \<ge> n}, length ss - i))")
  fix ss :: "int list" and i and n :: int
  assume "\<not> length ss \<le> i" "ss ! i = n"
  then have "n \<in> {x \<in> set ss. x \<ge> n}" by (auto simp: nth_mem)
  then have "{x \<in> set ss. x \<ge> n + 1} \<subset> {x \<in> set ss. x \<ge> n}"
    by (intro psubsetI) (auto simp: set_eq_iff intro: exI [of _ n])
  then have "card {x \<in> set ss. x \<ge> n + 1} < card {x \<in> set ss. x \<ge> n}"
    by (intro psubset_card_mono) auto
  then show "((ss, 0, n + 1), (ss, i, n)) \<in> inv_image (less_than <*lex*> less_than)
      (\<lambda>(ss, i, n). (card {x \<in> set ss. x \<ge> n}, length ss - i))"
    by simp
qed auto

declare next_session_from.simps [simp del]

primrec client_sessions :: "nat list \<Rightarrow> (world, int list) state" where
  "client_sessions [] = State_Monad.return []"
| "client_sessions (c # cs) = do {
     x \<leftarrow> get_client c;
     ss \<leftarrow> client_sessions cs;
     State_Monad.return (cl_session x # ss)
   }"

text \<open>The end of \<open>seat_add_client\<close>, once the session is known.\<close>

definition seat_link_client :: "nat \<Rightarrow> nat \<Rightarrow> int \<Rightarrow> (world, int) state" where
  "seat_link_client s c session = do {
     upd_client c (\<lambda>x. x\<lparr>cl_session := session, cl_seat := Some s\<rparr>);
     client_link_remove c;
     insert_seat_client s c;
     State_Monad.return 0
   }"

definition seat_add_client :: "kernel \<Rightarrow> nat \<Rightarrow> nat \<Rightarrow> (world, int) state" where
  "seat_add_client k s c = do {
     x \<leftarrow> get_client c;
     st \<leftarrow> get_seat s;
     if cl_seat x \<noteq> None then do { set_errno EBUSY; State_Monad.return (-1) }
     else do {
       busy \<leftarrow> (case active_client st of
           Some a \<Rightarrow> if vt_bound st then do {
               y \<leftarrow> get_client a;
               State_Monad.return (cl_state y \<noteq> CLIENT_PENDING_DISABLE)
             } else State_Monad.return False
         | None \<Rightarrow> State_Monad.return False);
       if busy then do { set_errno EBUSY; State_Monad.return (-1) }
       else if cl_session x \<noteq> -1 then do { set_errno EINVAL; State_Monad.return (-1) }
       else if vt_bound st then do {
         _ \<leftarrow> seat_update_vt k s;
         st \<leftarrow> get_seat s;
         if cur_vt st = -1 then do { set_errno EINVAL; State_Monad.return (-1) }
         else do {
           taken \<leftarrow> (if active_client st \<noteq> None
                     then find_client (\<lambda>y. cl_session y = cur_vt st) (seat_clients st)
                     else State_Monad.return None);
           if taken \<noteq> None then do { set_errno EBUSY; State_Monad.return (-1) }
           else seat_link_client s c (cur_vt st)
         }
       } else do {
         ss \<leftarrow> client_sessions (seat_clients st);
         seat_link_client s c (next_session_from ss 0 1)
       }
     }
   }"

text \<open>Closing the first device until none is left; every round lowers a reference count.\<close>

primrec close_devices :: "nat \<Rightarrow> kernel \<Rightarrow> nat \<Rightarrow> (world, unit) state" where
  "close_devices 0 k c = set_stuck"
| "close_devices (Suc n) k c = do {
     x \<leftarrow> get_client c;
     if cl_devices x = [] then State_Monad.return ()
     else do {
       seat_close_device k c 0;
       close_devices n k c
     }
   }"

definition refs :: "seat_device list \<Rightarrow> nat" where
  "refs ds = sum_list (map (\<lambda>d. nat (max 1 (ref_cnt d))) ds)"

text \<open>The loop over the grouped VTs that removes those of a client.\<close>

primrec remove_group_vts ::
    "kernel \<Rightarrow> bool \<Rightarrow> nat \<Rightarrow> seat_group_vt list \<Rightarrow> ('a os_scheme, seat_group_vt list) state" where
  "remove_group_vts k bound c [] = State_Monad.return []"
| "remove_group_vts k bound c (g # gs) =
     (if gv_owner g = Some c then do {
        _ \<leftarrow> (if bound then vt_close k (gv_vt g) else State_Monad.return 0);
        remove_group_vts k bound c gs
      } else do {
        gs \<leftarrow> remove_group_vts k bound c gs;
        State_Monad.return (g # gs)
      })"

text \<open>The end of \<open>seat_remove_client\<close>, once the seat no longer lists the client.\<close>

definition seat_client_left :: "kernel \<Rightarrow> nat \<Rightarrow> nat \<Rightarrow> (world, unit) state" where
  "seat_client_left k s c = do {
     st \<leftarrow> get_seat s;
     let was_current = (active_client st = Some c);
     _ \<leftarrow> (if was_current then do {
             upd_seat s (\<lambda>st. st\<lparr>active_client := None\<rparr>);
             seat_activate k s
           } else State_Monad.return 0);
     st \<leftarrow> get_seat s;
     x \<leftarrow> get_client c;
     _ \<leftarrow> (if vt_bound st \<and> (was_current \<and> active_client st = None \<or>
                \<not> was_current \<and> cl_state x \<noteq> CLIENT_CLOSED)
           then vt_close k (cl_session x) else State_Monad.return 0);
     upd_client c (\<lambda>x. x\<lparr>cl_state := CLIENT_CLOSED, cl_seat := None\<rparr>)
   }"

definition seat_remove_client :: "kernel \<Rightarrow> nat \<Rightarrow> (world, unit) state" where
  "seat_remove_client k c = do {
     x \<leftarrow> get_client c;
     s \<leftarrow> deref (cl_seat x);
     upd_seat s (\<lambda>st. if next_client st = Some c then st\<lparr>next_client := None\<rparr> else st);
     client_link_remove c;
     client_link_init c;
     close_devices (Suc (refs (cl_devices x))) k c;
     st \<leftarrow> get_seat s;
     gs \<leftarrow> remove_group_vts k (vt_bound st) c (group_vts st);
     upd_seat s (\<lambda>st. st\<lparr>group_vts := gs\<rparr>);
     seat_client_left k s c
   }"

section \<open>Switching\<close>

definition seat_set_next_session :: "kernel \<Rightarrow> nat \<Rightarrow> int \<Rightarrow> (world, int) state" where
  "seat_set_next_session k c session = do {
     x \<leftarrow> get_client c;
     if cl_state x \<noteq> CLIENT_ACTIVE then do { set_errno EPERM; State_Monad.return (-1) }
     else do {
       s \<leftarrow> deref (cl_seat x);
       st \<leftarrow> get_seat s;
       assert_that (active_client st = Some c);
       if session \<le> 0 then do { set_errno EINVAL; State_Monad.return (-1) }
       else if vt_bound st \<and> cur_vt st = session then State_Monad.return 0
       else if \<not> vt_bound st \<and> session = cl_session x then State_Monad.return 0
       else if pending_vt_switch st > 0 then do { set_errno EBUSY; State_Monad.return (-1) }
       else if next_client st \<noteq> None then State_Monad.return 0
       else if vt_bound st then do {
         upd_seat s (\<lambda>x. x\<lparr>pending_vt_switch := session\<rparr>);
         r \<leftarrow> vt_switch k s session;
         if r = -1 then do {
           upd_seat s (\<lambda>x. x\<lparr>pending_vt_switch := 0\<rparr>);
           State_Monad.return (-1)
         } else State_Monad.return 0
       } else do {
         target \<leftarrow> find_client (\<lambda>y. cl_session y = session) (seat_clients st);
         case target of
           None \<Rightarrow> do { set_errno EINVAL; State_Monad.return (-1) }
         | Some t \<Rightarrow> do {
             upd_seat s (\<lambda>x. x\<lparr>next_client := Some t\<rparr>);
             a \<leftarrow> deref (active_client st);
             _ \<leftarrow> seat_disable_client k a;
             State_Monad.return 0
           }
       }
     }
   }"

definition seat_vt_activate :: "kernel \<Rightarrow> nat \<Rightarrow> (world, int) state" where
  "seat_vt_activate k s = do {
     st \<leftarrow> get_seat s;
     if \<not> vt_bound st then State_Monad.return (-1)
     else do {
       _ \<leftarrow> seat_update_vt k s;
       _ \<leftarrow> vt_ack k s False;
       State_Monad.return 0
     }
   }"

text \<open>The decision of \<open>seat_vt_release\<close> on the DRM devices of the active client.\<close>

definition vt_release_drm :: "kernel \<Rightarrow> nat \<Rightarrow> nat \<Rightarrow> (world, unit) state" where
  "vt_release_drm k s a = do {
     x \<leftarrow> get_client a;
     st \<leftarrow> get_seat s;
     if cl_state x \<noteq> CLIENT_ACTIVE then State_Monad.return ()
     else if pending_vt_switch st > 0 then do {
       _ \<leftarrow> describe_pending_vt_target s;
       owns \<leftarrow> client_owns_vt a (pending_vt_switch st);
       if owns then State_Monad.return () else seat_drop_client_drm_master k a
     }
     else seat_drop_client_drm_master k a
   }"

definition seat_vt_release :: "kernel \<Rightarrow> nat \<Rightarrow> (world, int) state" where
  "seat_vt_release k s = do {
     st \<leftarrow> get_seat s;
     if \<not> vt_bound st then State_Monad.return (-1)
     else do {
       _ \<leftarrow> seat_update_vt k s;
       st \<leftarrow> get_seat s;
       _ \<leftarrow> (case active_client st of
           None \<Rightarrow> State_Monad.return ()
         | Some a \<Rightarrow> vt_release_drm k s a);
       _ \<leftarrow> vt_ack k s True;
       State_Monad.return 0
     }
   }"

definition seat_get_active_vt :: "kernel \<Rightarrow> nat \<Rightarrow> (world, int) state" where
  "seat_get_active_vt k s = do {
     st \<leftarrow> get_seat s;
     if \<not> vt_bound st then do { set_errno EINVAL; State_Monad.return (-1) }
     else do {
       r \<leftarrow> seat_update_vt k s;
       if r = -1 then State_Monad.return (-1)
       else do { st \<leftarrow> get_seat s; State_Monad.return (cur_vt st) }
     }
   }"

definition seat_find_available_vt :: "kernel \<Rightarrow> nat \<Rightarrow> (world, int) state" where
  "seat_find_available_vt k s = do {
     st \<leftarrow> get_seat s;
     if \<not> vt_bound st then do { set_errno EINVAL; State_Monad.return (-1) }
     else do {
       tty0fd \<leftarrow> terminal_open k 0;
       if tty0fd = -1 then State_Monad.return (-1)
       else do {
         vt \<leftarrow> terminal_find_available k tty0fd;
         saved_errno \<leftarrow> get_errno;
         _ \<leftarrow> sys_val k (Sys_close tty0fd);
         _ \<leftarrow> (if vt = -1 then set_errno saved_errno else State_Monad.return ());
         State_Monad.return vt
       }
     }
   }"

definition seat_switch_vt :: "kernel \<Rightarrow> nat \<Rightarrow> int \<Rightarrow> (world, int) state" where
  "seat_switch_vt k s vt = do {
     st \<leftarrow> get_seat s;
     if \<not> vt_bound st then do { set_errno EINVAL; State_Monad.return (-1) }
     else if vt \<le> 0 then do { set_errno EINVAL; State_Monad.return (-1) }
     else do {
       r \<leftarrow> seat_update_vt k s;
       st \<leftarrow> get_seat s;
       if r = -1 then State_Monad.return (-1)
       else if cur_vt st = vt then State_Monad.return 0
       else if pending_vt_switch st > 0 then do { set_errno EBUSY; State_Monad.return (-1) }
       else do {
         upd_seat s (\<lambda>x. x\<lparr>pending_vt_switch := vt\<rparr>);
         r \<leftarrow> vt_switch k s vt;
         if r = -1 then do {
           upd_seat s (\<lambda>x. x\<lparr>pending_vt_switch := 0\<rparr>);
           State_Monad.return (-1)
         } else State_Monad.return 0
       }
     }
   }"

section \<open>Grouped VTs\<close>

text \<open>The VT of a new group: the requested one, or a free one (\<open>None\<close> when there is none).\<close>

definition choose_group_vt :: "kernel \<Rightarrow> int \<Rightarrow> ('a os_scheme, int option) state" where
  "choose_group_vt k requested_vt =
     (if requested_vt > 0 then State_Monad.return (Some requested_vt)
      else do {
        tty0fd \<leftarrow> terminal_open k 0;
        if tty0fd = -1 then State_Monad.return None
        else do {
          vt \<leftarrow> terminal_find_available k tty0fd;
          _ \<leftarrow> sys_val k (Sys_close tty0fd);
          State_Monad.return (if vt = -1 then None else Some vt)
        }
      })"

definition seat_create_group_vt ::
    "kernel \<Rightarrow> nat \<Rightarrow> nat \<Rightarrow> int \<Rightarrow> string \<Rightarrow> string \<Rightarrow> (world, int) state" where
  "seat_create_group_vt k s owner requested_vt user session = do {
     st \<leftarrow> get_seat s;
     x \<leftarrow> get_client owner;
     if \<not> vt_bound st then do { set_errno EINVAL; State_Monad.return (-1) }
     else if cl_seat x \<noteq> Some s then do { set_errno EINVAL; State_Monad.return (-1) }
     else do {
       chosen \<leftarrow> choose_group_vt k requested_vt;
       case chosen of
         None \<Rightarrow> State_Monad.return (-1)
       | Some vt \<Rightarrow>
           if vt = cl_session x \<or> seat_find_group_vt st vt \<noteq> None then do {
             set_errno EBUSY;
             State_Monad.return (-1)
           } else do {
             r \<leftarrow> sys_val k Sys_calloc;
             if r = -1 then State_Monad.return (-1)
             else do {
               u \<leftarrow> sys_val k (Sys_strdup user);
               t \<leftarrow> sys_val k (Sys_strdup session);
               if u = -1 \<or> t = -1 then State_Monad.return (-1)
               else do {
                 r \<leftarrow> vt_open k vt;
                 if r = -1 then State_Monad.return (-1)
                 else do {
                   upd_seat s (\<lambda>x. x\<lparr>group_vts := \<lparr>gv_owner = Some owner, gv_vt = vt,
                     gv_user = user, gv_session = session\<rparr> # group_vts x\<rparr>);
                   State_Monad.return vt
                 }
               }
             }
           }
     }
   }"

definition seat_destroy_group_vt :: "kernel \<Rightarrow> nat \<Rightarrow> int \<Rightarrow> (world, int) state" where
  "seat_destroy_group_vt k s vt = do {
     st \<leftarrow> get_seat s;
     case find_index (\<lambda>g. gv_vt g = vt) (group_vts st) of
       None \<Rightarrow> do { set_errno ENOENT; State_Monad.return (-1) }
     | Some i \<Rightarrow> do {
         upd_seat s (\<lambda>x. x\<lparr>group_vts := take i (group_vts x) @ drop (Suc i) (group_vts x)\<rparr>);
         _ \<leftarrow> (if vt_bound st then vt_close k vt else State_Monad.return 0);
         State_Monad.return 0
       }
   }"

text \<open>\<open>None\<close> is the return value \<open>-1\<close>, \<open>Some pid\<close> what is stored through the pointer.\<close>

definition seat_get_group_vt_owner_pid :: "nat \<Rightarrow> int \<Rightarrow> (world, int option) state" where
  "seat_get_group_vt_owner_pid s vt = do {
     st \<leftarrow> get_seat s;
     case (case seat_find_group_vt st vt of None \<Rightarrow> None | Some g \<Rightarrow> gv_owner g) of
       None \<Rightarrow> do { set_errno ENOENT; State_Monad.return None }
     | Some c \<Rightarrow> do { x \<leftarrow> get_client c; State_Monad.return (Some (cl_pid x)) }
   }"

definition seat_handle_vt_event :: "kernel \<Rightarrow> nat \<Rightarrow> int \<Rightarrow> int \<Rightarrow> (world, unit) state" where
  "seat_handle_vt_event k s old_vt new_vt = do {
     st \<leftarrow> get_seat s;
     let pending_vt = pending_vt_switch st;
     _ \<leftarrow> describe_vt_owner s old_vt;
     _ \<leftarrow> describe_vt_owner s new_vt;
     _ \<leftarrow> describe_pending_vt_target s;
     _ \<leftarrow> (if pending_vt > 0 then upd_seat s (\<lambda>x. x\<lparr>pending_vt_switch := 0\<rparr>) else State_Monad.return ());
     upd_seat s (\<lambda>x. x\<lparr>cur_vt := new_vt\<rparr>);
     server \<leftarrow> seat_get_server s;
     _ \<leftarrow> (if server then control_broadcast_vt_change k old_vt new_vt else State_Monad.return ());
     st \<leftarrow> get_seat s;
     case active_client st of
       None \<Rightarrow> do { _ \<leftarrow> seat_activate k s; State_Monad.return () }
     | Some a \<Rightarrow> do {
         owns \<leftarrow> client_owns_vt a new_vt;
         if owns then seat_restore_client_drm_master k a
         else do {
           x \<leftarrow> get_client a;
           if cl_state x = CLIENT_ACTIVE then do {
             _ \<leftarrow> seat_disable_client k a;
             State_Monad.return ()
           } else State_Monad.return ()
         }
       }
   }"

end
