(* ===== verification/Client.thy ===== *)
theory Client
  imports Seat
begin

text \<open>
  \<open>seatd/client.c\<close>: the clients of the seatd protocol, from accepting one to destroying it, and
  the handling of its messages; with \<open>seat_destroy\<close> of \<open>seatd/seat.c\<close>, \<open>server_get_seat\<close> of
  \<open>seatd/server.c\<close> and \<open>control_find_owner_client\<close> of \<open>seatd/control.c\<close>, which go through the
  lists of seats and clients. The build is that of the daemon (\<open>LIBSEAT\<close> is not defined).
\<close>

section \<open>Creating and destroying clients\<close>

definition get_peer :: "kernel \<Rightarrow> int \<Rightarrow> ('a os_scheme, (int \<times> int \<times> int) option) state" where
  "get_peer k fd = do {
     r \<leftarrow> sys k (Sys_peercred fd);
     State_Monad.return (if sr_val r = -1 then None else Some (sr_cred r))
   }"

definition client_create :: "kernel \<Rightarrow> int \<Rightarrow> (world, nat option) state" where
  "client_create k client_fd = do {
     peer \<leftarrow> get_peer k client_fd;
     case peer of
       None \<Rightarrow> State_Monad.return None
     | Some (pid, uid, gid) \<Rightarrow> do {
         a \<leftarrow> calloc k;
         case a of
           None \<Rightarrow> State_Monad.return None
         | Some c \<Rightarrow> do {
             State_Monad.update (\<lambda>w. w\<lparr>client_heap := (client_heap w)(c \<mapsto>
               \<lparr>cl_link_null = True, cl_server = True, cl_event_source = None,
                cl_connection = new_connection client_fd, cl_pid = pid, cl_uid = uid, cl_gid = gid,
                cl_seat = None, cl_session = -1, cl_state = CLIENT_NEW, cl_devices = []\<rparr>)\<rparr>);
             insert_idle c;
             State_Monad.return (Some c)
           }
       }
   }"

definition client_destroy :: "kernel \<Rightarrow> nat \<Rightarrow> (world, unit) state" where
  "client_destroy k c = do {
     upd_client c (\<lambda>x. x\<lparr>cl_server := False\<rparr>);
     x \<leftarrow> get_client c;
     _ \<leftarrow> (if conn_fd (cl_connection x) \<noteq> -1 then do {
             _ \<leftarrow> sys_val k (Sys_close (conn_fd (cl_connection x)));
             upd_client c (\<lambda>x. x\<lparr>cl_connection := (cl_connection x)\<lparr>conn_fd := -1\<rparr>\<rparr>)
           } else State_Monad.return ());
     _ \<leftarrow> (if cl_seat x \<noteq> None then seat_remove_client k c else State_Monad.return ());
     client_link_remove c;
     x \<leftarrow> get_client c;
     _ \<leftarrow> (case cl_event_source x of
         None \<Rightarrow> State_Monad.return ()
       | Some a \<Rightarrow> do {
           _ \<leftarrow> event_source_fd_destroy a;
           upd_client c (\<lambda>x. x\<lparr>cl_event_source := None\<rparr>)
         });
     on_connection c (\<lambda>n. do { n \<leftarrow> connection_close_fds k n; State_Monad.return ((), n) });
     x \<leftarrow> get_client c;
     assert_that (cl_devices x = []);
     free_client c
   }"

text \<open>
  The loops that destroy all clients of a list: each round destroys the first one. The
  lists only shrink here, so their length bounds the rounds.
\<close>

primrec destroy_seat_clients :: "nat \<Rightarrow> kernel \<Rightarrow> nat \<Rightarrow> (world, unit) state" where
  "destroy_seat_clients 0 k s = set_stuck"
| "destroy_seat_clients (Suc n) k s = do {
     st \<leftarrow> get_seat s;
     case seat_clients st of
       [] \<Rightarrow> State_Monad.return ()
     | c # _ \<Rightarrow> do {
         x \<leftarrow> get_client c;
         assert_that (cl_seat x = Some s);
         client_destroy k c;
         destroy_seat_clients n k s
       }
   }"

definition seat_destroy :: "kernel \<Rightarrow> nat \<Rightarrow> (world, unit) state" where
  "seat_destroy k s = do {
     st \<leftarrow> get_seat s;
     destroy_seat_clients (Suc (length (seat_clients st))) k s;
     upd_seat s (\<lambda>x. x\<lparr>group_vts := []\<rparr>);
     v \<leftarrow> get_server;
     assert_that (s \<in> set (seats v));
     upd_server (\<lambda>v. v\<lparr>seats := remove1 s (seats v)\<rparr>);
     free_seat s
   }"

section \<open>Requests\<close>

primrec find_seat :: "string \<Rightarrow> nat list \<Rightarrow> (world, nat option) state" where
  "find_seat name [] = State_Monad.return None"
| "find_seat name (s # ss) = do {
     st \<leftarrow> get_seat s;
     if seat_name st = name then State_Monad.return (Some s) else find_seat name ss
   }"

definition server_get_seat :: "string \<Rightarrow> (world, nat option) state" where
  "server_get_seat name = do { v \<leftarrow> get_server; find_seat name (seats v) }"

definition client_get_seat_name :: string where
  "client_get_seat_name = ''seat0''"

definition handle_open_seat :: "kernel \<Rightarrow> nat \<Rightarrow> (world, int) state" where
  "handle_open_seat k c = do {
     let name = client_get_seat_name;
     x \<leftarrow> get_client c;
     assert_that (cl_server x);
     r \<leftarrow> server_get_seat name;
     case r of
       None \<Rightarrow> State_Monad.return (-1)
     | Some s \<Rightarrow> do {
         r \<leftarrow> seat_add_client k s c;
         if r = -1 then State_Monad.return (-1)
         else do {
           let name_len = length name + 1;
           r \<leftarrow> client_put k c [proto_header SERVER_SEAT_OPENED (2 + name_len),
                  u16_bytes (of_nat name_len), string_bytes name];
           if r = -1 then State_Monad.return (-1)
           else do {
             _ \<leftarrow> seat_open_client k s c;
             State_Monad.return 0
           }
         }
       }
   }"

definition handle_close_seat :: "kernel \<Rightarrow> nat \<Rightarrow> (world, int) state" where
  "handle_close_seat k c = do {
     x \<leftarrow> get_client c;
     if cl_seat x = None then State_Monad.return (-1)
     else do {
       seat_remove_client k c;
       x \<leftarrow> get_client c;
       assert_that (cl_server x);
       insert_idle c;
       client_put k c [proto_header SERVER_SEAT_CLOSED 0]
     }
   }"

definition handle_open_device :: "kernel \<Rightarrow> nat \<Rightarrow> string \<Rightarrow> (world, int) state" where
  "handle_open_device k c path = do {
     x \<leftarrow> get_client c;
     if cl_seat x = None then State_Monad.return (-1)
     else do {
       r \<leftarrow> seat_open_device k c path;
       case r of
         None \<Rightarrow> do { e \<leftarrow> get_errno; client_send_error k c e }
       | Some i \<Rightarrow> do {
           x \<leftarrow> get_client c;
           let d = cl_devices x ! i;
           dupfd \<leftarrow> sys_val k (Sys_dup (dev_fd d));
           if dupfd = -1 then do {
             seat_close_device k c i;
             e \<leftarrow> get_errno;
             client_send_error k c e
           } else do {
             r \<leftarrow> on_connection c (\<lambda>n. connection_put_fd n dupfd);
             if r = -1 then State_Monad.return (-1)
             else client_put k c [proto_header SERVER_DEVICE_OPENED 4, int_bytes (device_id d)]
           }
         }
     }
   }"

definition handle_close_device :: "kernel \<Rightarrow> nat \<Rightarrow> int \<Rightarrow> (world, int) state" where
  "handle_close_device k c dev = do {
     x \<leftarrow> get_client c;
     if cl_seat x = None then State_Monad.return (-1)
     else do {
       r \<leftarrow> seat_find_device c dev;
       case r of
         None \<Rightarrow> client_send_error k c EBADF
       | Some i \<Rightarrow> do {
           seat_close_device k c i;
           client_put k c [proto_header SERVER_DEVICE_CLOSED 0]
         }
     }
   }"

definition handle_switch_session :: "kernel \<Rightarrow> nat \<Rightarrow> int \<Rightarrow> (world, int) state" where
  "handle_switch_session k c session = do {
     x \<leftarrow> get_client c;
     if cl_seat x = None then State_Monad.return (-1)
     else do {
       r \<leftarrow> seat_set_next_session k c session;
       if r = -1 then do { e \<leftarrow> get_errno; client_send_error k c e }
       else client_put k c [proto_header SERVER_SESSION_SWITCHED 0]
     }
   }"

definition handle_disable_seat :: "kernel \<Rightarrow> nat \<Rightarrow> (world, int) state" where
  "handle_disable_seat k c = do {
     x \<leftarrow> get_client c;
     if cl_seat x = None then State_Monad.return (-1)
     else do {
       r \<leftarrow> seat_ack_disable_client k c;
       if r = -1 then do { e \<leftarrow> get_errno; client_send_error k c e }
       else client_put k c [proto_header SERVER_SEAT_DISABLED 0]
     }
   }"

definition handle_ping :: "kernel \<Rightarrow> nat \<Rightarrow> (world, int) state" where
  "handle_ping k c = client_put k c [proto_header SERVER_PONG 0]"

definition client_get :: "nat \<Rightarrow> nat \<Rightarrow> (world, byte list option) state" where
  "client_get c count = on_connection c (\<lambda>n. connection_get n count)"

text \<open>The case \<open>CLIENT_OPEN_DEVICE\<close> of \<open>client_handle_opcode\<close>.\<close>

definition open_device_message :: "kernel \<Rightarrow> nat \<Rightarrow> nat \<Rightarrow> (world, int) state" where
  "open_device_message k c len =
     (if 2 > len then State_Monad.return (-1)
      else do {
        r \<leftarrow> client_get c 2;
        case r of
          None \<Rightarrow> State_Monad.return (-1)
        | Some msg \<Rightarrow> do {
            let path_len = unat (bytes_u16 msg);
            if path_len \<noteq> len - 2 then State_Monad.return (-1)
            else if path_len > MAX_PATH_LEN then State_Monad.return (-1)
            else do {
              r \<leftarrow> client_get c path_len;
              case r of
                None \<Rightarrow> State_Monad.return (-1)
              | Some path \<Rightarrow>
                  if path_len = 0 \<or> length (takeWhile (\<lambda>b. b \<noteq> 0) path) \<noteq> path_len - 1
                  then State_Monad.return (-1)
                  else handle_open_device k c (cstring path)
            }
          }
      })"

text \<open>The cases with one integer argument.\<close>

definition int_message :: "nat \<Rightarrow> nat \<Rightarrow> (int \<Rightarrow> (world, int) state) \<Rightarrow> (world, int) state" where
  "int_message c len handle =
     (if 4 \<noteq> len then State_Monad.return (-1)
      else do {
        r \<leftarrow> client_get c 4;
        case r of None \<Rightarrow> State_Monad.return (-1) | Some msg \<Rightarrow> handle (bytes_int msg)
      })"

definition client_handle_opcode :: "kernel \<Rightarrow> nat \<Rightarrow> u16 \<Rightarrow> nat \<Rightarrow> (world, int) state" where
  "client_handle_opcode k c opcode len = do {
     res \<leftarrow> (if opcode = CLIENT_OPEN_SEAT then
               (if len \<noteq> 0 then State_Monad.return (-1) else handle_open_seat k c)
             else if opcode = CLIENT_CLOSE_SEAT then
               (if len \<noteq> 0 then State_Monad.return (-1) else handle_close_seat k c)
             else if opcode = CLIENT_OPEN_DEVICE then open_device_message k c len
             else if opcode = CLIENT_CLOSE_DEVICE then int_message c len (handle_close_device k c)
             else if opcode = CLIENT_SWITCH_SESSION then int_message c len (handle_switch_session k c)
             else if opcode = CLIENT_DISABLE_SEAT then
               (if len \<noteq> 0 then State_Monad.return (-1) else handle_disable_seat k c)
             else if opcode = CLIENT_PING then
               (if len \<noteq> 0 then State_Monad.return (-1) else handle_ping k c)
             else State_Monad.return (-1));
     if res \<noteq> -1 then client_flush k c else State_Monad.return res
   }"

section \<open>The connection handler\<close>

text \<open>
  The loop over the complete messages in the buffer. Every round takes a header of four bytes
  off a buffer of at most 256, so 65 rounds are enough.
\<close>

primrec client_messages :: "nat \<Rightarrow> kernel \<Rightarrow> nat \<Rightarrow> (world, int) state" where
  "client_messages 0 k c = do { set_stuck; State_Monad.return 0 }"
| "client_messages (Suc n) k c = do {
     r \<leftarrow> client_get c 4;
     case r of
       None \<Rightarrow> State_Monad.return 0
     | Some header \<Rightarrow> do {
         x \<leftarrow> get_client c;
         if connection_pending (cl_connection x) < header_size header then do {
           on_connection c (\<lambda>n. State_Monad.return ((), connection_restore n 4));
           State_Monad.return 0
         } else do {
           r \<leftarrow> client_handle_opcode k c (header_opcode header) (header_size header);
           if r = -1 then State_Monad.return (-1) else client_messages n k c
         }
       }
   }"

text \<open>The parts of \<open>client_handle_connection\<close> for a writable and a readable socket; \<open>-1\<close> is \<open>goto fail\<close>.\<close>

definition client_writable :: "kernel \<Rightarrow> nat \<Rightarrow> (world, int) state" where
  "client_writable k c = do {
     len \<leftarrow> on_connection c (connection_flush k);
     e \<leftarrow> get_errno;
     if len = -1 \<and> e \<noteq> EAGAIN then State_Monad.return (-1)
     else if len \<ge> 0 then do {
       x \<leftarrow> get_client c;
       a \<leftarrow> deref (cl_event_source x);
       _ \<leftarrow> event_source_fd_update a EVENT_READABLE;
       State_Monad.return 0
     }
     else State_Monad.return 0
   }"

definition client_readable :: "kernel \<Rightarrow> nat \<Rightarrow> (world, int) state" where
  "client_readable k c = do {
     len \<leftarrow> on_connection c (connection_read k);
     e \<leftarrow> get_errno;
     if len = -1 \<and> e \<noteq> EAGAIN then State_Monad.return (-1)
     else if len = 0 then State_Monad.return (-1)
     else client_messages 65 k c
   }"

definition client_handle_connection :: "kernel \<Rightarrow> nat \<Rightarrow> u32 \<Rightarrow> (world, int) state" where
  "client_handle_connection k c ev = do {
     r \<leftarrow> (if ev AND EVENT_ERROR \<noteq> 0 then State_Monad.return (-1)
           else if ev AND EVENT_HANGUP \<noteq> 0 then State_Monad.return (-1)
           else do {
             r \<leftarrow> (if ev AND EVENT_WRITABLE \<noteq> 0 then client_writable k c else State_Monad.return 0);
             if r = -1 then State_Monad.return (-1)
             else if ev AND EVENT_READABLE \<noteq> 0 then client_readable k c
             else State_Monad.return 0
           });
     if r = -1 then do { client_destroy k c; State_Monad.return (-1) }
     else State_Monad.return (0::int)
   }"

end
