(* ===== verification/Control.thy ===== *)
theory Control
  imports Client
begin

text \<open>
  \<open>seatd/control.c\<close>: the control socket, through which the display manager of the same user
  creates and destroys grouped VTs and switches between VTs.
\<close>

section \<open>Requests\<close>

definition prepare_control_fd :: "kernel \<Rightarrow> int \<Rightarrow> ('a os_scheme, int) state" where
  "prepare_control_fd k fd = do {
     flags \<leftarrow> sys_val k (Sys_fcntl fd F_GETFD);
     if flags = -1 then State_Monad.return (-1)
     else do {
       r \<leftarrow> sys_val k (Sys_fcntl fd (F_SETFD (flags OR FD_CLOEXEC)));
       if r = -1 then State_Monad.return (-1)
       else do {
         flags \<leftarrow> sys_val k (Sys_fcntl fd F_GETFL);
         if flags = -1 then State_Monad.return (-1)
         else do {
           r \<leftarrow> sys_val k (Sys_fcntl fd (F_SETFL (flags OR O_NONBLOCK_FLAG)));
           State_Monad.return (if r = -1 then -1 else 0)
         }
       }
     }
   }"

primrec find_owner :: "int \<Rightarrow> nat list \<Rightarrow> (world, nat option) state" where
  "find_owner pid [] = State_Monad.return None"
| "find_owner pid (s # ss) = do {
     st \<leftarrow> get_seat s;
     r \<leftarrow> find_client (\<lambda>x. cl_pid x = pid) (seat_clients st);
     case r of Some c \<Rightarrow> State_Monad.return (Some c) | None \<Rightarrow> find_owner pid ss
   }"

definition control_find_owner_client :: "int \<Rightarrow> (world, nat option) state" where
  "control_find_owner_client owner_pid = do { v \<leftarrow> get_server; find_owner owner_pid (seats v) }"

definition control_get :: "nat \<Rightarrow> nat \<Rightarrow> (world, byte list option) state" where
  "control_get c count = on_control_connection c (\<lambda>n. connection_get n count)"

abbreviation (input) "CONTROL_NAME_MAX \<equiv> (64::nat)"

text \<open>\<open>struct control_create_group_vt_request\<close>, with the last byte of the two names set to 0.\<close>

record control_create_group_vt_request =
  rq_owner_pid :: int
  rq_vt :: int
  rq_user :: string
  rq_session :: string

definition decode_create_request :: "byte list \<Rightarrow> control_create_group_vt_request" where
  "decode_create_request bs = \<lparr>rq_owner_pid = bytes_int (take 4 bs), rq_vt = bytes_int (take 4 (drop 4 bs)),
     rq_user = cstring (take (CONTROL_NAME_MAX - 1) (drop 8 bs)),
     rq_session = cstring (take (CONTROL_NAME_MAX - 1) (drop 72 bs))\<rparr>"

abbreviation (input) "CREATE_REQUEST_SIZE \<equiv> (136::nat)"

definition handle_create_group_vt :: "kernel \<Rightarrow> nat \<Rightarrow> (world, int) state" where
  "handle_create_group_vt k c = do {
     r \<leftarrow> control_get c CREATE_REQUEST_SIZE;
     case r of
       None \<Rightarrow> State_Monad.return 0
     | Some bs \<Rightarrow> do {
         let request = decode_create_request bs;
         owner \<leftarrow> control_find_owner_client (rq_owner_pid request);
         case owner of
           None \<Rightarrow> control_send_error k c ESRCH
         | Some ow \<Rightarrow> do {
             x \<leftarrow> get_client ow;
             case cl_seat x of
               None \<Rightarrow> control_send_error k c ESRCH
             | Some s \<Rightarrow> do {
                 vt \<leftarrow> seat_create_group_vt k s ow (rq_vt request) (rq_user request) (rq_session request);
                 if vt = -1 then do { e \<leftarrow> get_errno; control_send_error k c e }
                 else do {
                   x \<leftarrow> get_client ow;
                   control_send_group_vt_created k c (cl_pid x) vt
                 }
               }
           }
       }
   }"

text \<open>The requests that act on the seat \<open>seat0\<close>.\<close>

definition with_seat0 :: "kernel \<Rightarrow> nat \<Rightarrow> (nat \<Rightarrow> (world, int) state) \<Rightarrow> (world, int) state" where
  "with_seat0 k c f = do {
     r \<leftarrow> server_get_seat ''seat0'';
     case r of
       None \<Rightarrow> control_send_error k c ENOENT
     | Some s \<Rightarrow> f s
   }"

definition handle_destroy_group_vt :: "kernel \<Rightarrow> nat \<Rightarrow> (world, int) state" where
  "handle_destroy_group_vt k c = do {
     r \<leftarrow> control_get c 4;
     case r of
       None \<Rightarrow> State_Monad.return 0
     | Some bs \<Rightarrow> with_seat0 k c (\<lambda>s. do {
         r \<leftarrow> seat_destroy_group_vt k s (bytes_int bs);
         if r = -1 then do { e \<leftarrow> get_errno; control_send_error k c e }
         else State_Monad.return 0
       })
   }"

definition handle_get_active_vt :: "kernel \<Rightarrow> nat \<Rightarrow> (world, int) state" where
  "handle_get_active_vt k c = with_seat0 k c (\<lambda>s. do {
     vt \<leftarrow> seat_get_active_vt k s;
     if vt = -1 then do { e \<leftarrow> get_errno; control_send_error k c e }
     else control_send_vt_state k c CONTROL_ACTIVE_VT vt
   })"

definition handle_find_free_vt :: "kernel \<Rightarrow> nat \<Rightarrow> (world, int) state" where
  "handle_find_free_vt k c = with_seat0 k c (\<lambda>s. do {
     vt \<leftarrow> seat_find_available_vt k s;
     if vt = -1 then do { e \<leftarrow> get_errno; control_send_error k c e }
     else control_send_vt_state k c CONTROL_FREE_VT vt
   })"

definition handle_switch_vt :: "kernel \<Rightarrow> nat \<Rightarrow> (world, int) state" where
  "handle_switch_vt k c = do {
     r \<leftarrow> control_get c 4;
     case r of
       None \<Rightarrow> State_Monad.return 0
     | Some bs \<Rightarrow> with_seat0 k c (\<lambda>s. do {
         r \<leftarrow> seat_switch_vt k s (bytes_int bs);
         if r = -1 then do { e \<leftarrow> get_errno; control_send_error k c e }
         else control_send_ok k c
       })
   }"

definition control_client_handle_opcode :: "kernel \<Rightarrow> nat \<Rightarrow> u16 \<Rightarrow> nat \<Rightarrow> (world, int) state" where
  "control_client_handle_opcode k c opcode len =
     (if opcode = CONTROL_CREATE_GROUP_VT then
        (if len \<noteq> CREATE_REQUEST_SIZE then control_send_error k c EPROTO else handle_create_group_vt k c)
      else if opcode = CONTROL_DESTROY_GROUP_VT then
        (if len \<noteq> 4 then control_send_error k c EPROTO else handle_destroy_group_vt k c)
      else if opcode = CONTROL_GET_ACTIVE_VT then
        (if len \<noteq> 0 then control_send_error k c EPROTO else handle_get_active_vt k c)
      else if opcode = CONTROL_FIND_FREE_VT then
        (if len \<noteq> 0 then control_send_error k c EPROTO else handle_find_free_vt k c)
      else if opcode = CONTROL_SWITCH_VT then
        (if len \<noteq> 4 then control_send_error k c EPROTO else handle_switch_vt k c)
      else control_send_error k c EPROTO)"

section \<open>The connection handlers\<close>

text \<open>
  A request that is refused leaves its payload in the buffer, where it is read as the next
  header; still every round takes a header of four bytes, so 65 rounds are enough.
\<close>

primrec control_messages :: "nat \<Rightarrow> kernel \<Rightarrow> nat \<Rightarrow> (world, int) state" where
  "control_messages 0 k c = do { set_stuck; State_Monad.return 0 }"
| "control_messages (Suc n) k c = do {
     r \<leftarrow> control_get c 4;
     case r of
       None \<Rightarrow> State_Monad.return 0
     | Some header \<Rightarrow> do {
         x \<leftarrow> get_control c;
         if connection_pending (cc_connection x) < header_size header then do {
           on_control_connection c (\<lambda>n. State_Monad.return ((), connection_restore n 4));
           State_Monad.return 0
         } else do {
           r \<leftarrow> control_client_handle_opcode k c (header_opcode header) (header_size header);
           if r = -1 then State_Monad.return (-1) else control_messages n k c
         }
       }
   }"

definition control_writable :: "kernel \<Rightarrow> nat \<Rightarrow> (world, int) state" where
  "control_writable k c = do {
     len \<leftarrow> on_control_connection c (connection_flush k);
     e \<leftarrow> get_errno;
     if len = -1 \<and> e \<noteq> EAGAIN then State_Monad.return (-1)
     else if len \<ge> 0 then do {
       x \<leftarrow> get_control c;
       a \<leftarrow> deref (cc_event_source x);
       event_source_fd_update a EVENT_READABLE
     }
     else State_Monad.return 0
   }"

definition control_readable :: "kernel \<Rightarrow> nat \<Rightarrow> (world, int) state" where
  "control_readable k c = do {
     len \<leftarrow> on_control_connection c (connection_read k);
     e \<leftarrow> get_errno;
     if len = -1 \<and> e \<noteq> EAGAIN then State_Monad.return (-1)
     else if len = 0 then State_Monad.return (-1)
     else control_messages 65 k c
   }"

definition control_client_handle_connection :: "kernel \<Rightarrow> nat \<Rightarrow> u32 \<Rightarrow> (world, int) state" where
  "control_client_handle_connection k c ev = do {
     r \<leftarrow> (if ev AND EVENT_ERROR \<noteq> 0 then State_Monad.return (-1)
           else do {
             r \<leftarrow> (if ev AND EVENT_WRITABLE \<noteq> 0 then control_writable k c else State_Monad.return 0);
             if r = -1 then State_Monad.return (-1)
             else do {
               r \<leftarrow> (if ev AND EVENT_READABLE \<noteq> 0 then control_readable k c else State_Monad.return 0);
               if r = -1 then State_Monad.return (-1)
               else if ev AND EVENT_HANGUP \<noteq> 0 then State_Monad.return (-1)
               else State_Monad.return (0::int)
             }
           });
     if r = -1 then do { control_client_destroy k c; State_Monad.return (-1) }
     else State_Monad.return 0
   }"

definition control_handle_connection :: "kernel \<Rightarrow> int \<Rightarrow> u32 \<Rightarrow> (world, int) state" where
  "control_handle_connection k fd ev =
     (if ev AND (EVENT_ERROR OR EVENT_HANGUP) \<noteq> 0 then State_Monad.return (-1)
      else if ev AND EVENT_READABLE = 0 then State_Monad.return 0
      else do {
        new_fd \<leftarrow> sys_val k (Sys_accept fd);
        if new_fd = -1 then State_Monad.return 0
        else do {
          r \<leftarrow> prepare_control_fd k new_fd;
          if r \<noteq> 0 then do { _ \<leftarrow> sys_val k (Sys_close new_fd); State_Monad.return 0 }
          else do {
            peer \<leftarrow> get_peer k new_fd;
            case peer of
              None \<Rightarrow> do { _ \<leftarrow> sys_val k (Sys_close new_fd); State_Monad.return 0 }
            | Some (pid, uid, gid) \<Rightarrow> do {
                euid \<leftarrow> sys_val k Sys_geteuid;
                if uid \<noteq> euid then do { _ \<leftarrow> sys_val k (Sys_close new_fd); State_Monad.return 0 }
                else do {
                  a \<leftarrow> calloc k;
                  case a of
                    None \<Rightarrow> do { _ \<leftarrow> sys_val k (Sys_close new_fd); State_Monad.return 0 }
                  | Some c \<Rightarrow> do {
                      State_Monad.update (\<lambda>w. w\<lparr>control_heap := (control_heap w)(c \<mapsto>
                        \<lparr>cc_event_source = None, cc_connection = new_connection new_fd,
                         cc_pid = pid, cc_uid = uid, cc_gid = gid\<rparr>)\<rparr>);
                      upd_server (\<lambda>v. v\<lparr>control_clients := c # control_clients v\<rparr>);
                      e \<leftarrow> poller_add_fd k new_fd EVENT_READABLE (Control_client_handle_connection c);
                      upd_control c (\<lambda>x. x\<lparr>cc_event_source := e\<rparr>);
                      if e = None then do { control_client_destroy k c; State_Monad.return 0 }
                      else State_Monad.return 0
                    }
                }
              }
          }
        }
      })"

end
