(* ===== verification/Server.thy ===== *)
theory Server
  imports Control
begin

text \<open>
  \<open>seatd/server.c\<close>: start and end of the server, its handlers for signals, VT events and new
  connections, and the table that gives the event loop the handler of a source.
\<close>

section \<open>Handlers\<close>

definition server_handle_vt_acq :: "kernel \<Rightarrow> (world, int) state" where
  "server_handle_vt_acq k = do {
     r \<leftarrow> server_get_seat ''seat0'';
     case r of
       None \<Rightarrow> State_Monad.return (-1)
     | Some s \<Rightarrow> do { _ \<leftarrow> seat_vt_activate k s; State_Monad.return 0 }
   }"

definition server_handle_vt_rel :: "kernel \<Rightarrow> (world, int) state" where
  "server_handle_vt_rel k = do {
     r \<leftarrow> server_get_seat ''seat0'';
     case r of
       None \<Rightarrow> State_Monad.return (-1)
     | Some s \<Rightarrow> do { _ \<leftarrow> seat_vt_release k s; State_Monad.return 0 }
   }"

definition server_handle_kill :: "(world, int) state" where
  "server_handle_kill = do { upd_server (\<lambda>v. v\<lparr>running := False\<rparr>); State_Monad.return 0 }"

definition server_set_cloexec :: "kernel \<Rightarrow> int \<Rightarrow> ('a os_scheme, int) state" where
  "server_set_cloexec k fd = do {
     flags \<leftarrow> sys_val k (Sys_fcntl fd F_GETFD);
     if flags = -1 then State_Monad.return (-1)
     else do {
       r \<leftarrow> sys_val k (Sys_fcntl fd (F_SETFD (flags OR FD_CLOEXEC)));
       State_Monad.return (if r = -1 then -1 else 0)
     }
   }"

definition server_set_nonblock :: "kernel \<Rightarrow> int \<Rightarrow> ('a os_scheme, int) state" where
  "server_set_nonblock k fd = do {
     r \<leftarrow> server_set_cloexec k fd;
     if r = -1 then State_Monad.return (-1)
     else do {
       flags \<leftarrow> sys_val k (Sys_fcntl fd F_GETFL);
       if flags = -1 then State_Monad.return (-1)
       else do {
         r \<leftarrow> sys_val k (Sys_fcntl fd (F_SETFL (flags OR O_NONBLOCK_FLAG)));
         State_Monad.return (if r = -1 then -1 else 0)
       }
     }
   }"

text \<open>The two descriptors a successful \<open>pipe\<close> stores.\<close>

definition pipe_fds :: "sysret \<Rightarrow> int \<times> int" where
  "pipe_fds r = (case sr_ints r of a # b # _ \<Rightarrow> (a, b) | _ \<Rightarrow> (0, 0))"

text \<open>\<open>None\<close> is the return value \<open>-1\<close>.\<close>

definition create_vt_event_pipe :: "kernel \<Rightarrow> ('a os_scheme, (int \<times> int) option) state" where
  "create_vt_event_pipe k = do {
     r \<leftarrow> sys k Sys_pipe2;
     if sr_val r = 0 then State_Monad.return (Some (pipe_fds r))
     else do {
       e \<leftarrow> get_errno;
       if e \<noteq> ENOSYS \<and> e \<noteq> EINVAL then State_Monad.return None
       else do {
         r \<leftarrow> sys k Sys_pipe;
         if sr_val r = -1 then State_Monad.return None
         else do {
           let p = pipe_fds r;
           a \<leftarrow> server_set_cloexec k (fst p);
           b \<leftarrow> (if a = -1 then State_Monad.return (-1) else server_set_cloexec k (snd p));
           if b = -1 then do {
             _ \<leftarrow> sys_val k (Sys_close (fst p));
             _ \<leftarrow> sys_val k (Sys_close (snd p));
             State_Monad.return None
           } else State_Monad.return (Some p)
         }
       }
     }
   }"

text \<open>
  The thread that waits for VT switches and writes the two VT numbers to the pipe. It runs
  until the server clears \<open>vt_event_running\<close>, so the model bounds its rounds. The answer to
  \<open>VT_WAITEVENT\<close> has the event mask in \<open>sr_out\<close> and the old and new VT in \<open>sr_ints\<close>.
\<close>

abbreviation (input) "VT_EVENT_SWITCH \<equiv> (1::int)"

primrec server_vt_event_loop :: "nat \<Rightarrow> kernel \<Rightarrow> (world, unit) state" where
  "server_vt_event_loop 0 k = set_stuck"
| "server_vt_event_loop (Suc n) k = do {
     v \<leftarrow> get_server;
     if \<not> vt_event_running v then State_Monad.return ()
     else do {
       r \<leftarrow> sys k (Sys_vt_waitevent (vt_event_fd v));
       e \<leftarrow> get_errno;
       if sr_val r = -1 then (if e = EINTR then server_vt_event_loop n k else State_Monad.return ())
       else if sr_out r AND VT_EVENT_SWITCH = 0 then server_vt_event_loop n k
       else do {
         let (old_vt, new_vt) = pipe_fds r;
         t \<leftarrow> sys_val k (Sys_write (snd (vt_event_pipe v)) (int_bytes old_vt @ int_bytes new_vt));
         e \<leftarrow> get_errno;
         if t = -1 \<and> e \<noteq> EINTR then State_Monad.return () else server_vt_event_loop n k
       }
     }
   }"

text \<open>The loop of \<open>server_handle_vt_event\<close>: one round per complete message in the pipe.\<close>

primrec vt_event_messages :: "nat \<Rightarrow> kernel \<Rightarrow> int \<Rightarrow> (world, unit) state" where
  "vt_event_messages 0 k fd = set_stuck"
| "vt_event_messages (Suc n) k fd = do {
     r \<leftarrow> sys k (Sys_read fd 8);
     if sr_val r \<noteq> 8 then State_Monad.return ()
     else do {
       seat \<leftarrow> server_get_seat ''seat0'';
       _ \<leftarrow> (case seat of
           None \<Rightarrow> State_Monad.return ()
         | Some s \<Rightarrow> seat_handle_vt_event k s (bytes_int (take 4 (sr_data r))) (bytes_int (drop 4 (sr_data r))));
       vt_event_messages n k fd
     }
   }"

definition server_handle_vt_event :: "kernel \<Rightarrow> int \<Rightarrow> u32 \<Rightarrow> (world, int) state" where
  "server_handle_vt_event k fd ev =
     (if ev AND (EVENT_ERROR OR EVENT_HANGUP) \<noteq> 0 then State_Monad.return (-1)
      else if ev AND EVENT_READABLE = 0 then State_Monad.return 0
      else do { vt_event_messages (retry_fuel k) k fd; State_Monad.return 0 })"

definition server_add_client :: "kernel \<Rightarrow> int \<Rightarrow> (world, int) state" where
  "server_add_client k fd = do {
     r \<leftarrow> server_set_nonblock k fd;
     if r \<noteq> 0 then do { _ \<leftarrow> sys_val k (Sys_close fd); State_Monad.return (-1) }
     else do {
       client \<leftarrow> client_create k fd;
       case client of
         None \<Rightarrow> do { _ \<leftarrow> sys_val k (Sys_close fd); State_Monad.return (-1) }
       | Some c \<Rightarrow> do {
           e \<leftarrow> poller_add_fd k fd EVENT_READABLE (Client_handle_connection c);
           upd_client c (\<lambda>x. x\<lparr>cl_event_source := e\<rparr>);
           if e = None then do { client_destroy k c; State_Monad.return (-1) }
           else State_Monad.return 0
         }
     }
   }"

definition server_handle_connection :: "kernel \<Rightarrow> int \<Rightarrow> u32 \<Rightarrow> (world, int) state" where
  "server_handle_connection k fd ev =
     (if ev AND (EVENT_ERROR OR EVENT_HANGUP) \<noteq> 0 then do {
        _ \<leftarrow> sys_val k (Sys_shutdown fd);
        upd_server (\<lambda>v. v\<lparr>running := False\<rparr>);
        State_Monad.return (-1)
      }
      else if ev AND EVENT_READABLE \<noteq> 0 then do {
        new_fd \<leftarrow> sys_val k (Sys_accept fd);
        if new_fd = -1 then State_Monad.return 0
        else do {
          _ \<leftarrow> server_add_client k new_fd;
          State_Monad.return 0
        }
      }
      else State_Monad.return 0)"

text \<open>The functions that the function pointers of the sources stand for.\<close>

fun call_fd :: "kernel \<Rightarrow> fd_func \<Rightarrow> int \<Rightarrow> u32 \<Rightarrow> (world, int) state" where
  "call_fd k (Client_handle_connection c) fd ev = client_handle_connection k c ev"
| "call_fd k (Control_client_handle_connection c) fd ev = control_client_handle_connection k c ev"
| "call_fd k Server_handle_connection fd ev = server_handle_connection k fd ev"
| "call_fd k Control_handle_connection fd ev = control_handle_connection k fd ev"
| "call_fd k Server_handle_vt_event fd ev = server_handle_vt_event k fd ev"

fun call_signal :: "kernel \<Rightarrow> signal_func \<Rightarrow> int \<Rightarrow> (world, int) state" where
  "call_signal k Server_handle_vt_rel sig = server_handle_vt_rel k"
| "call_signal k Server_handle_vt_acq sig = server_handle_vt_acq k"
| "call_signal k Server_handle_kill sig = server_handle_kill"

section \<open>Start and end\<close>

text \<open>
  The loops of \<open>server_finish\<close>. They destroy the first element of a list until it is empty;
  the model bounds the rounds by the length of the list when the loop starts.
\<close>

definition finish_control_client :: "kernel \<Rightarrow> nat \<Rightarrow> (world, unit) state" where
  "finish_control_client k c = do {
     upd_server (\<lambda>v. v\<lparr>control_clients := remove1 c (control_clients v)\<rparr>);
     x \<leftarrow> get_control c;
     _ \<leftarrow> (case cc_event_source x of
         None \<Rightarrow> State_Monad.return 0
       | Some a \<Rightarrow> event_source_fd_destroy a);
     on_control_connection c (\<lambda>n. do { n \<leftarrow> connection_close_fds k n; State_Monad.return ((), n) });
     _ \<leftarrow> sys_val k (Sys_close (conn_fd (cc_connection x)));
     free_control c
   }"

primrec finish_control_clients :: "nat \<Rightarrow> kernel \<Rightarrow> (world, unit) state" where
  "finish_control_clients 0 k = set_stuck"
| "finish_control_clients (Suc n) k = do {
     v \<leftarrow> get_server;
     case control_clients v of
       [] \<Rightarrow> State_Monad.return ()
     | c # _ \<Rightarrow> do { finish_control_client k c; finish_control_clients n k }
   }"

primrec finish_idle_clients :: "nat \<Rightarrow> kernel \<Rightarrow> (world, unit) state" where
  "finish_idle_clients 0 k = set_stuck"
| "finish_idle_clients (Suc n) k = do {
     v \<leftarrow> get_server;
     case idle_clients v of
       [] \<Rightarrow> State_Monad.return ()
     | c # _ \<Rightarrow> do { client_destroy k c; finish_idle_clients n k }
   }"

primrec finish_seats :: "nat \<Rightarrow> kernel \<Rightarrow> (world, unit) state" where
  "finish_seats 0 k = set_stuck"
| "finish_seats (Suc n) k = do {
     v \<leftarrow> get_server;
     case seats v of
       [] \<Rightarrow> State_Monad.return ()
     | s # _ \<Rightarrow> do { seat_destroy k s; finish_seats n k }
   }"

definition close_unless_unset :: "kernel \<Rightarrow> int \<Rightarrow> ('a os_scheme, unit) state" where
  "close_unless_unset k fd =
     (if fd \<noteq> -1 then do { _ \<leftarrow> sys_val k (Sys_close fd); State_Monad.return () } else State_Monad.return ())"

definition server_finish :: "kernel \<Rightarrow> (world, unit) state" where
  "server_finish k = do {
     upd_server (\<lambda>v. v\<lparr>vt_event_running := False\<rparr>);
     v \<leftarrow> get_server;
     _ \<leftarrow> (if vt_event_thread_started v then do {
             _ \<leftarrow> sys_val k Sys_pthread_cancel;
             _ \<leftarrow> sys_val k Sys_pthread_join;
             upd_server (\<lambda>v. v\<lparr>vt_event_thread_started := False\<rparr>)
           } else State_Monad.return ());
     close_unless_unset k (vt_event_fd v);
     close_unless_unset k (fst (vt_event_pipe v));
     close_unless_unset k (snd (vt_event_pipe v));
     upd_server (\<lambda>v. v\<lparr>vt_event_fd := -1, vt_event_pipe := (-1, -1)\<rparr>);
     v \<leftarrow> get_server;
     finish_control_clients (Suc (length (control_clients v))) k;
     v \<leftarrow> get_server;
     finish_idle_clients (Suc (length (idle_clients v))) k;
     v \<leftarrow> get_server;
     finish_seats (Suc (length (seats v))) k;
     _ \<leftarrow> poller_finish k;
     State_Monad.return ()
   }"

abbreviation (input) "SIGINT \<equiv> (2::int)"
abbreviation (input) "SIGUSR1 \<equiv> (10::int)"
abbreviation (input) "SIGUSR2 \<equiv> (12::int)"
abbreviation (input) "SIGTERM \<equiv> (15::int)"

text \<open>The chain of \<open>poller_add_signal\<close> calls; the first failure ends it.\<close>

primrec add_signals :: "kernel \<Rightarrow> (int \<times> signal_func) list \<Rightarrow> ('a poll_os_scheme, bool) state" where
  "add_signals k [] = State_Monad.return True"
| "add_signals k (s # ss) = do {
     a \<leftarrow> poller_add_signal k (fst s) (snd s);
     if a = None then State_Monad.return False else add_signals k ss
   }"

text \<open>The start of the thread that watches for VT events; failures are only logged.\<close>

definition start_vt_events :: "kernel \<Rightarrow> (world, unit) state" where
  "start_vt_events k = do {
     fd \<leftarrow> terminal_open k 0;
     upd_server (\<lambda>v. v\<lparr>vt_event_fd := fd\<rparr>);
     p \<leftarrow> (if fd \<noteq> -1 then create_vt_event_pipe k else State_Monad.return None);
     case p of
       None \<Rightarrow> State_Monad.return ()
     | Some p \<Rightarrow> do {
         upd_server (\<lambda>v. v\<lparr>vt_event_pipe := p\<rparr>);
         r \<leftarrow> server_set_nonblock k (fst p);
         if r \<noteq> 0 then State_Monad.return ()
         else do {
           e \<leftarrow> poller_add_fd k (fst p) EVENT_READABLE Server_handle_vt_event;
           if e = None then State_Monad.return ()
           else do {
             upd_server (\<lambda>v. v\<lparr>vt_event_running := True\<rparr>);
             r \<leftarrow> sys_val k Sys_pthread_create;
             if r \<noteq> 0 then upd_server (\<lambda>v. v\<lparr>vt_event_running := False\<rparr>)
             else upd_server (\<lambda>v. v\<lparr>vt_event_thread_started := True\<rparr>)
           }
         }
       }
   }"

definition server_init :: "kernel \<Rightarrow> (world, int) state" where
  "server_init k = do {
     r \<leftarrow> poller_init k;
     if r = -1 then State_Monad.return (-1)
     else do {
       upd_server (\<lambda>v. v\<lparr>seats := [], idle_clients := [], control_clients := [], vt_event_fd := -1,
         vt_event_pipe := (-1, -1), vt_event_thread_started := False, vt_event_running := False\<rparr>);
       ok \<leftarrow> add_signals k [(SIGUSR1, Server_handle_vt_rel), (SIGUSR2, Server_handle_vt_acq),
              (SIGINT, Server_handle_kill), (SIGTERM, Server_handle_kill)];
       if \<not> ok then do { server_finish k; State_Monad.return (-1) }
       else do {
         vtenv \<leftarrow> sys k (Sys_getenv ''SEATD_VTBOUND'');
         seat \<leftarrow> seat_create k ''seat0'' (sr_val vtenv = 0 \<or> sr_str vtenv = ''1'');
         case seat of
           None \<Rightarrow> do { server_finish k; State_Monad.return (-1) }
         | Some s \<Rightarrow> do {
             upd_server (\<lambda>v. v\<lparr>seats := s # seats v\<rparr>);
             start_vt_events k;
             upd_server (\<lambda>v. v\<lparr>running := True\<rparr>);
             State_Monad.return 0
           }
       }
     }
   }"

end
