(* ===== verification/Seat_Inv.thy ===== *)
theory Seat_Inv
  imports Seat
begin

text \<open>
  The operations of \<open>seatd/seat.c\<close> keep the invariant of the server's data, and fail no assertion
  on the way. Each lemma is a rule for symbolic execution: the operation ends in any state the
  continuation accepts.
\<close>

section \<open>Virtual terminals keep the invariant\<close>

lemma vt_calls [calls_frame]:
  assumes "0 \<le> vt"
  shows "state_io_rel os_calls (vt_open k vt)" "state_io_rel os_calls (vt_close k vt)"
  unfolding vt_open_def vt_close_def using assms by (intro calls.rules calls_frame; assumption)+

lemma seat_update_vt_wp:
  assumes st: "seat_heap w s = Some st"
    and Q: "\<And>r w' v. pdata w' = pdata (w\<lparr>seat_heap := (seat_heap w)(s \<mapsto> st\<lparr>cur_vt := v\<rparr>)\<rparr>) \<Longrightarrow>
      v = cur_vt st \<or> 0 < v \<Longrightarrow> r = 0 \<and> 0 < v \<or> r = -1 \<Longrightarrow> Q r w'"
  shows "wp (seat_update_vt k s) Q w"
proof -
  have same: "Q (-1) w'" if "pdata w' = pdata w" for w'
    by (rule Q [where v = "cur_vt st"]) (use that st in \<open>auto simp: data_eq fun_upd_idem\<close>)
  show ?thesis
    unfolding seat_update_vt_def wp_simps
    by (rule wp_data_calls [OF terminal_open_calls])
      (auto intro!: wp_data_calls [OF terminal_calls(2)] wp_data_calls [OF sys_val_calls] same Q
        simp: data_eq st Let_def)
qed

lemma seat_update_vt_inv:
  assumes ok: "world_ok g X Y w" and st: "seat_heap w s = Some st"
    and Q: "\<And>r w' v. world_ok g X Y w' \<Longrightarrow>
      pdata w' = pdata (w\<lparr>seat_heap := (seat_heap w)(s \<mapsto> st\<lparr>cur_vt := v\<rparr>)\<rparr>) \<Longrightarrow>
      v = cur_vt st \<or> 0 < v \<Longrightarrow> r = 0 \<and> 0 < v \<or> r = -1 \<Longrightarrow> Q r w'"
  shows "wp (seat_update_vt k s) Q w"
proof (rule seat_update_vt_wp [OF st])
  fix r w' v
  assume w': "pdata w' = pdata (w\<lparr>seat_heap := (seat_heap w)(s \<mapsto> st\<lparr>cur_vt := v\<rparr>)\<rparr>)"
    and v: "v = cur_vt st \<or> 0 < v" and r: "r = 0 \<and> 0 < v \<or> r = (-1 :: int)"
  have "world_ok g X Y (w\<lparr>seat_heap := (seat_heap w)(s \<mapsto> st\<lparr>cur_vt := v\<rparr>)\<rparr>)"
    using v
  proof
    assume "v = cur_vt st"
    then have "w\<lparr>seat_heap := (seat_heap w)(s \<mapsto> st\<lparr>cur_vt := v\<rparr>)\<rparr> = w"
      using st by (simp add: fun_upd_idem)
    then show ?thesis using ok by simp
  qed (intro inv_cur_vt [OF ok st], simp)
  then show "Q r w'"
    using Q [OF _ w' v r] world_ok_data [OF w'] by simp
qed

lemma vt_switch_wp:
  assumes "seat_heap w s = Some st" and "0 \<le> cur_vt st" and "\<And>r w'. pdata w' = pdata w \<Longrightarrow> Q r w'"
  shows "wp (vt_switch k s vt) Q w"
  unfolding vt_switch_def wp_simps
  by (auto simp: assms(1,2) wp_simps data_eq Let_def intro!: assms(3)
      wp_data_calls [OF terminal_open_calls] wp_data_calls [OF terminal_calls(3)]
      wp_data_calls [OF terminal_calls(4)] wp_data_calls [OF sys_val_calls])

lemma vt_ack_wp:
  assumes "seat_heap w s = Some st" and "0 \<le> cur_vt st" and "\<And>r w'. pdata w' = pdata w \<Longrightarrow> Q r w'"
  shows "wp (vt_ack k s release) Q w"
  unfolding vt_ack_def wp_simps
  by (auto simp: assms(1,2) wp_simps data_eq Let_def intro!: assms(3)
      wp_data_calls [OF terminal_open_calls] wp_data_calls [OF terminal_calls(5)]
      wp_data_calls [OF terminal_calls(6)] wp_data_calls [OF sys_val_calls])

section \<open>Searching\<close>

text \<open>The searches are pure; their results in terms of the heaps.\<close>

definition owns_vt :: "world \<Rightarrow> nat \<Rightarrow> int \<Rightarrow> bool" where
  "owns_vt w c vt = (case client_heap w c of None \<Rightarrow> False | Some x \<Rightarrow> cl_session x = vt \<or>
     (case cl_seat x of None \<Rightarrow> False | Some s \<Rightarrow>
       (case seat_heap w s of None \<Rightarrow> False | Some st \<Rightarrow>
         (case seat_find_group_vt st vt of None \<Rightarrow> False | Some g \<Rightarrow> gv_owner g = Some c))))"

lemma client_owns_vt_wp:
  assumes "client_heap w c = Some x" and "\<And>s. cl_seat x = Some s \<Longrightarrow> \<exists>st. seat_heap w s = Some st"
  shows "wp (client_owns_vt c vt) Q w = Q (owns_vt w c vt) w"
proof (cases "cl_seat x")
  case None
  with assms(1) show ?thesis
    by (cases "cl_session x = vt") (simp_all add: client_owns_vt_def wp_simps owns_vt_def)
next
  case (Some s)
  with assms obtain st where "seat_heap w s = Some st" by auto
  with assms(1) Some show ?thesis
    by (cases "cl_session x = vt") (simp_all add: client_owns_vt_def wp_simps owns_vt_def)
qed

lemma find_client_wp:
  "set cs \<subseteq> dom (client_heap w) \<Longrightarrow>
     wp (find_client P cs) Q w = Q (List.find (\<lambda>c. P (the (client_heap w c))) cs) w"
  by (induction cs) (auto simp: wp_simps)

lemma client_sessions_wp:
  "set cs \<subseteq> dom (client_heap w) \<Longrightarrow>
     wp (client_sessions cs) Q w = Q (map (\<lambda>c. cl_session (the (client_heap w c))) cs) w"
  by (induction cs arbitrary: Q) (auto simp: wp_simps)

lemma find_vt_client_wp:
  assumes "\<And>c. c \<in> set cs \<Longrightarrow> \<exists>x. client_heap w c = Some x \<and> (\<forall>s. cl_seat x = Some s \<longrightarrow> (\<exists>st. seat_heap w s = Some st))"
  shows "wp (find_vt_client vt cs) Q w = Q (List.find (\<lambda>c. owns_vt w c vt) cs) w"
  using assms
proof (induction cs)
  case (Cons c cs)
  from Cons.prems [of c] obtain x where "client_heap w c = Some x"
    "\<And>s. cl_seat x = Some s \<Longrightarrow> \<exists>st. seat_heap w s = Some st" by auto
  then have "wp (client_owns_vt c vt) Q w = Q (owns_vt w c vt) w" for Q
    by (rule client_owns_vt_wp)
  with Cons show ?case by (simp add: wp_simps)
qed (simp add: wp_simps)

lemma inv_clients_dom:
  assumes "world_ok g X Y w" and "seat_heap w s = Some st"
  shows "set (seat_clients st) \<subseteq> dom (client_heap w)"
  using inv_seat_client [OF assms] by auto

lemma client_owns_vt_inv:
  assumes ok: "world_ok g X Y w" and x: "client_heap w c = Some x" and "X c = None"
  shows "wp (client_owns_vt c vt) Q w = Q (owns_vt w c vt) w"
  by (rule client_owns_vt_wp [OF x]) (use inv_member [OF ok x] assms(3) in auto)

lemma find_vt_client_inv:
  assumes ok: "world_ok g X Y w" and st: "seat_heap w s = Some st"
  shows "wp (find_vt_client vt (seat_clients st)) Q w = Q (List.find (\<lambda>c. owns_vt w c vt) (seat_clients st)) w"
  by (rule find_vt_client_wp) (use inv_seat_client [OF ok st] st in fastforce)

lemma find_Some_mem: "List.find P xs = Some x \<Longrightarrow> x \<in> set xs \<and> P x"
  by (auto simp: find_Some_iff)

lemma describe_vt_owner_inv:
  assumes ok: "world_ok g X Y w" and st: "seat_heap w s = Some st" and Q: "\<And>r. Q r w"
  shows "wp (describe_vt_owner s vt) Q w"
proof -
  have owner: "\<exists>x. client_heap w c = Some x" if "v \<in> set (group_vts st)" "gv_owner v = Some c" for v c
    using invD(4) [OF ok st] that inv_seat_client [OF ok st] by (fastforce simp: seat_ok_def)
  have group: "\<exists>x. client_heap w c = Some x" if "seat_find_group_vt st vt = Some v" "gv_owner v = Some c" for v c
    using that by (intro owner [of v]) (auto simp: seat_find_group_vt_def dest: find_Some_mem)
  have found: "\<exists>x. client_heap w c = Some x" if "List.find P (seat_clients st) = Some c" for P c
    using find_Some_mem [OF that] inv_seat_client [OF ok st] by auto
  have search: "wp (do {
      r \<leftarrow> find_client (\<lambda>x. cl_session x = vt) (seat_clients st);
      case r of
        None \<Rightarrow> State_Monad.return Owner_unmanaged
      | Some c \<Rightarrow> do {
          x \<leftarrow> get_client c;
          State_Monad.return (Owner_client (cl_pid x) (cl_uid x) (cl_session x))
        }
    }) Q w"
    using inv_clients_dom [OF ok st] found Q by (fastforce simp: wp_simps find_client_wp)
  show ?thesis
  proof (cases "case seat_find_group_vt st vt of None \<Rightarrow> None | Some v \<Rightarrow> map_option (Pair v) (gv_owner v)")
    case None
    then show ?thesis
      using st search Q by (simp add: describe_vt_owner_def wp_simps)
  next
    case (Some p)
    then obtain v c where p: "p = (v, c)" "seat_find_group_vt st vt = Some v" "gv_owner v = Some c"
      by (auto split: option.splits)
    then obtain x where "client_heap w c = Some x" using group by blast
    with Some p(1) show ?thesis
      using st Q by (simp add: describe_vt_owner_def wp_simps)
  qed
qed

lemma describe_pending_inv:
  assumes ok: "world_ok g X Y w" and st: "seat_heap w s = Some st" and Q: "\<And>r. Q r w"
  shows "wp (describe_pending_vt_target s) Q w"
  unfolding describe_pending_vt_target_def wp_simps
  by (simp add: st wp_simps Q describe_vt_owner_inv [OF ok st])

section \<open>Devices\<close>

text \<open>Everything of a device but its \<open>active\<close> flag, which is all that switching changes.\<close>

definition dev_key :: "seat_device \<Rightarrow> int \<times> int \<times> int \<times> string \<times> seat_device_type" where
  "dev_key d = (device_id d, dev_fd d, ref_cnt d, dev_path d, dev_type d)"

lemma dev_key_active [simp]: "dev_key (d\<lparr>dev_active := b\<rparr>) = dev_key d"
  by (simp add: dev_key_def)

lemma devices_ok_key:
  assumes "map dev_key ds' = map dev_key ds"
  shows "devices_ok ds' = devices_ok ds"
proof -
  define f where "f = (\<lambda>k :: int \<times> int \<times> int \<times> string \<times> seat_device_type.
    0 < fst k \<and> 0 < fst (snd (snd k)) \<and> snd (snd (snd (snd k))) \<noteq> SEAT_DEVICE_TYPE_NORMAL)"
  have "devices_ok xs \<longleftrightarrow> distinct (map fst (map dev_key xs)) \<and>
      distinct (map (\<lambda>k. fst (snd (snd (snd k)))) (map dev_key xs)) \<and>
      length (map dev_key xs) \<le> 128 \<and> (\<forall>k \<in> set (map dev_key xs). f k)" for xs
    by (simp add: devices_ok_def dev_key_def f_def comp_def)
  then show ?thesis using assms by metis
qed

lemma seat_deactivate_device_wp:
  assumes "dev_type d \<noteq> SEAT_DEVICE_TYPE_NORMAL"
    and "\<And>r d' w'. pdata w' = pdata w \<Longrightarrow> dev_key d' = dev_key d \<Longrightarrow> Q (r, d') w'"
  shows "wp (seat_deactivate_device k d) Q w"
  using assms(1)
  by (cases "dev_type d")
    (auto simp: seat_deactivate_device_def wp_simps
      intro!: assms(2) wp_data_calls [OF device_calls(2)] wp_data_calls [OF device_calls(4)] wp_data_calls [OF device_calls(5)])

lemma seat_activate_device_wp:
  assumes "dev_type d \<noteq> SEAT_DEVICE_TYPE_NORMAL"
    and "\<And>r d' w'. pdata w' = pdata w \<Longrightarrow> dev_key d' = dev_key d \<Longrightarrow> Q (r, d') w'"
  shows "wp (seat_activate_device k d) Q w"
  using assms(1)
  by (cases "dev_type d")
    (auto simp: seat_activate_device_def wp_simps
      intro!: assms(2) wp_data_calls [OF device_calls(1)] wp_data_calls [OF device_calls(3)])

lemma for_devices_wp:
  assumes "\<And>d w Q. dev_type d \<noteq> SEAT_DEVICE_TYPE_NORMAL \<Longrightarrow>
      (\<And>r d' w'. pdata w' = pdata w \<Longrightarrow> dev_key d' = dev_key d \<Longrightarrow> Q (r, d') w') \<Longrightarrow> wp (f d) Q w"
  shows "\<forall>d \<in> set ds. dev_type d \<noteq> SEAT_DEVICE_TYPE_NORMAL \<Longrightarrow>
    (\<And>ds' w'. pdata w' = pdata w \<Longrightarrow> map dev_key ds' = map dev_key ds \<Longrightarrow> Q ds' w') \<Longrightarrow>
    wp (for_devices P f ds) Q w"
proof (induction ds arbitrary: w Q)
  case Nil
  then show ?case by (simp add: wp_simps)
next
  case (Cons d ds)
  have rest: "wp (for_devices P f ds) (\<lambda>ds'. Q (d' # ds')) v" if "pdata v = pdata w" "dev_key d' = dev_key d" for d' v
    by (rule Cons.IH) (use Cons.prems that in auto)
  show ?case
    unfolding for_devices.simps wp_simps
    using Cons.prems(1) by (auto intro!: assms rest)
qed

lemma on_devices_inv:
  assumes ok: "world_ok g X Y w" and x: "client_heap w c = Some x" and X: "X c = None"
    and f: "f = seat_deactivate_device k \<or> f = seat_activate_device k"
    and Q: "\<And>w' ds. world_ok g X Y w' \<Longrightarrow>
      pdata w' = pdata (w\<lparr>client_heap := (client_heap w)(c \<mapsto> x\<lparr>cl_devices := ds\<rparr>)\<rparr>) \<Longrightarrow>
      map dev_key ds = map dev_key (cl_devices x) \<Longrightarrow> Q () w'"
  shows "wp (on_devices c (for_devices P f)) Q w"
proof -
  have types: "\<forall>d \<in> set (cl_devices x). dev_type d \<noteq> SEAT_DEVICE_TYPE_NORMAL"
    using inv_client(2) [OF ok x] by (simp add: devices_ok_def)
  have loop: "wp (for_devices P f (cl_devices x)) Q' w"
    if "\<And>ds' w'. pdata w' = pdata w \<Longrightarrow> map dev_key ds' = map dev_key (cl_devices x) \<Longrightarrow> Q' ds' w'" for Q'
    using f that by (elim disjE) (auto intro!: for_devices_wp types seat_deactivate_device_wp seat_activate_device_wp)
  have upd: "Q () (v\<lparr>client_heap := (client_heap v)(c \<mapsto> x\<lparr>cl_devices := ds\<rparr>)\<rparr>)"
    if v: "pdata v = pdata w" and ds: "map dev_key ds = map dev_key (cl_devices x)" for v ds
  proof (rule Q [OF _ _ ds])
    have "(ds = []) = (cl_devices x = [])" using ds by (metis map_is_Nil_conv)
    then have "client_ok (x\<lparr>cl_devices := ds\<rparr>)"
      using invD(3) [OF ok x] devices_ok_key [OF ds] by (auto simp: client_ok_def)
    then show "world_ok g X Y (v\<lparr>client_heap := (client_heap v)(c \<mapsto> x\<lparr>cl_devices := ds\<rparr>)\<rparr>)"
      using ok x X v invD(9) [OF ok x]
      by (intro inv_client_upd [where X = X and c = c and x = x]) (auto simp: world_ok_data [OF v] on_duty_def data_eq)
    show "pdata (v\<lparr>client_heap := (client_heap v)(c \<mapsto> x\<lparr>cl_devices := ds\<rparr>)\<rparr>) =
        pdata (w\<lparr>client_heap := (client_heap w)(c \<mapsto> x\<lparr>cl_devices := ds\<rparr>)\<rparr>)"
      using v by (simp add: data_eq)
  qed
  show ?thesis
    unfolding on_devices_def wp_simps x
    by (simp add: x, rule loop) (use x upd in \<open>auto simp: data_eq\<close>)
qed

section \<open>Opening and disabling clients\<close>

lemma vt_for_client_open_inv:
  assumes ok: "world_ok g X Y w" and x: "client_heap w c = Some x" and X: "X c = None"
    and st: "seat_heap w s = Some st" and seat: "cl_seat x = Some s"
    and Q: "\<And>vt. 0 \<le> vt \<Longrightarrow> Q vt w"
  shows "wp (vt_for_client_open s c) Q w"
proof -
  have "0 \<le> cl_session x" using inv_client(4) [OF ok x] seat by simp
  then show ?thesis
    unfolding vt_for_client_open_def
    by (auto simp: wp_simps x st client_owns_vt_inv [OF ok x X] intro!: Q)
qed

lemma inv_activate:
  assumes ok: "world_ok g X Y w" and x: "client_heap w c = Some x" and seat: "cl_seat x = Some s" and X: "X c = None"
    and st: "seat_heap w s = Some st" and none: "active_client st = None"
    and H: "H = (client_heap w)(c \<mapsto> x\<lparr>cl_state := CLIENT_ACTIVE\<rparr>)"
    and S: "S = (seat_heap w)(s \<mapsto> st\<lparr>active_client := Some c\<rparr>)"
  shows "world_ok g X Y (w\<lparr>client_heap := H, seat_heap := S\<rparr>)"
proof -
  have "c \<in> set (seat_clients st)"
    using inv_member [OF ok x seat X] st by auto
  then show ?thesis
    unfolding H S by (intro inv_state [OF ok x st _ refl]) (simp_all add: on_duty_def none)
qed

lemma seat_open_client_inv:
  assumes ok: "world_ok g X Y w" and x: "client_heap w c = Some x" and seat: "cl_seat x = Some s" and X: "X c = None"
    and st: "seat_heap w s = Some st" and send: "send_ok k" and Q: "\<And>r w'. world_ok g X Y w' \<Longrightarrow> Q r w'"
  shows "wp (seat_open_client k s c) Q w"
  unfolding seat_open_client_def client_send_enable_seat_def
  using ok x seat X st send
  by (auto simp: wp_simps data_eq only_conn_def
      intro!: Q vt_for_client_open_inv wp_calls_inv [OF vt_calls(1)] wp_calls_inv [OF vt_calls(2)]
        on_devices_inv [where X = X and c = c] send_event_inv [where X = X and c = c]
        inv_activate [where X = X and c = c])

lemma inv_next':
  "world_ok g X Y w \<Longrightarrow> seat_heap w s = Some st \<Longrightarrow> S = (seat_heap w)(s \<mapsto> st\<lparr>next_client := v\<rparr>) \<Longrightarrow>
     (\<And>c. v = Some c \<Longrightarrow> c \<in> set (seat_clients st)) \<Longrightarrow> world_ok g X Y (w\<lparr>seat_heap := S\<rparr>)"
  by (simp add: inv_next)

lemma seat_activate_inv:
  assumes ok: "world_ok g X Y w" and st: "seat_heap w s = Some st" and send: "send_ok k"
    and Q: "\<And>r w'. world_ok g X Y w' \<Longrightarrow> Q r w'"
  shows "wp (seat_activate k s) Q w"
proof -
  have open_next: "wp (seat_open_client k s c) Q v"
    if mem: "c \<in> set (seat_clients st)"
      and v: "v = w \<or> v = w\<lparr>seat_heap := (seat_heap w)(s \<mapsto> st\<lparr>next_client := None\<rparr>)\<rparr>" for c v
  proof -
    obtain x where x: "client_heap w c = Some x" "cl_seat x = Some s"
      using inv_seat_client [OF ok st mem] by auto
    have X: "X c = None" using inv_not_detached [OF ok st mem] .
    have ok': "world_ok g X Y v" using v ok st by (auto intro: inv_next)
    obtain st' where "seat_heap v s = Some st'" using v st by auto
    then show ?thesis
      using v x by (intro seat_open_client_inv [OF ok' _ x(2) X _ send Q]) auto
  qed
  have queued: "c \<in> set (seat_clients st)" if "next_client st = Some c" for c
    using invD(4) [OF ok st] that by (simp add: seat_ok_def)
  have search: "wp (find_vt_client vt cs) Q' w = Q' (List.find (\<lambda>c. owns_vt w c vt) cs) w"
    if "seat_clients st = cs" for vt cs Q'
    using find_vt_client_inv [OF ok st] that by simp
  show ?thesis
    unfolding seat_activate_def
    by (cases "seat_clients st")
      (auto simp: wp_simps st search simp del: find_vt_client.simps
        intro!: Q ok open_next dest: queued find_Some_mem)
qed

lemma inv_pending_disable:
  assumes ok: "world_ok g X Y w" and x: "client_heap w c = Some x" and X: "X c = None"
    and "cl_state x = CLIENT_ACTIVE" and H: "H = (client_heap w)(c \<mapsto> x\<lparr>cl_state := CLIENT_PENDING_DISABLE\<rparr>)"
  shows "world_ok g X Y (w\<lparr>client_heap := H\<rparr>)"
proof -
  have "cl_seat x \<noteq> None"
    using inv_duty [OF ok x _ X] assms(4) by (auto simp: on_duty_def)
  then show ?thesis
    unfolding H using assms(4) invD(3,9) [OF ok x]
    by (intro inv_client_upd [OF ok x X]) (auto simp: client_ok_def on_duty_def)
qed

lemma seat_disable_client_inv:
  assumes ok: "world_ok g X Y w" and x: "client_heap w c = Some x" and X: "X c = None" and send: "send_ok k"
    and Q: "\<And>r w'. world_ok g X Y w' \<Longrightarrow> Q r w'"
  shows "wp (seat_disable_client k c) Q w"
proof (cases "cl_state x = CLIENT_ACTIVE")
  case True
  then obtain s st where "cl_seat x = Some s" "seat_heap w s = Some st" "active_client st = Some c"
    using inv_duty [OF ok x _ X] by (auto simp: on_duty_def)
  with True ok x X send show ?thesis
    unfolding seat_disable_client_def client_send_disable_seat_def
    by (auto simp: wp_simps data_eq only_conn_def
        intro!: Q on_devices_inv [where X = X and c = c] send_event_inv [where X = X and c = c]
          inv_pending_disable [where X = X and c = c])
next
  case False
  with ok x show ?thesis
    unfolding seat_disable_client_def by (auto simp: wp_simps intro!: Q)
qed

lemma inv_disabled:
  assumes ok: "world_ok g X Y w" and x: "client_heap w c = Some x" and st: "seat_heap w s = Some st"
    and a: "active_client st = Some c"
    and H: "H = (client_heap w)(c \<mapsto> x\<lparr>cl_state := CLIENT_DISABLED\<rparr>)"
    and S: "S = (seat_heap w)(s \<mapsto> st\<lparr>active_client := None\<rparr>)"
  shows "world_ok g X Y (w\<lparr>client_heap := H, seat_heap := S\<rparr>)"
  unfolding H S using inv_active(1) [OF ok st a]
  by (intro inv_state [OF ok x st _ refl]) (simp_all add: on_duty_def a)

lemma seat_ack_disable_client_inv:
  assumes ok: "world_ok g X Y w" and x: "client_heap w c = Some x" and X: "X c = None" and send: "send_ok k"
    and Q: "\<And>r w'. world_ok g X Y w' \<Longrightarrow> Q r w'"
  shows "wp (seat_ack_disable_client k c) Q w"
proof (cases "cl_state x = CLIENT_PENDING_DISABLE")
  case True
  then obtain s st where "cl_seat x = Some s" "seat_heap w s = Some st" "active_client st = Some c"
    using inv_duty [OF ok x _ X] by (auto simp: on_duty_def)
  with True ok x send show ?thesis
    unfolding seat_ack_disable_client_def
    by (auto simp: wp_simps intro!: Q seat_activate_inv [where s = s] inv_disabled)
next
  case False
  with ok x show ?thesis
    unfolding seat_ack_disable_client_def by (auto simp: wp_simps intro!: Q)
qed

section \<open>Closing devices\<close>

text \<open>The list of devices after one reference to the device at a position is given up.\<close>

definition drop_ref :: "nat \<Rightarrow> seat_device list \<Rightarrow> seat_device list" where
  "drop_ref i ds = (let d = (ds ! i)\<lparr>ref_cnt := ref_cnt (ds ! i) - 1\<rparr> in
     if ref_cnt d > 0 then ds[i := d] else take i ds @ drop (Suc i) ds)"

lemma map_list_update_same: "i < length xs \<Longrightarrow> f y = f (xs ! i) \<Longrightarrow> map f (xs[i := y]) = map f xs"
  by (simp add: map_update list_update_same_conv)

lemma distinct_map_remove:
  assumes "distinct (map f xs)"
  shows "distinct (map f (take i xs @ drop (Suc i) xs))"
  using assms set_take_disj_set_drop_if_distinct [OF assms, of i "Suc i"]
  by (metis distinct_append distinct_drop distinct_take drop_map le_SucI map_append order_refl take_map)

lemma devices_ok_drop_ref:
  assumes "devices_ok ds" and i: "i < length ds"
  shows "devices_ok (drop_ref i ds)"
proof (cases "ref_cnt (ds ! i) > 1")
  case True
  let ?d = "(ds ! i)\<lparr>ref_cnt := ref_cnt (ds ! i) - 1\<rparr>"
  have "drop_ref i ds = ds[i := ?d]" using True by (simp add: drop_ref_def)
  moreover have "0 < device_id d \<and> 0 < ref_cnt d \<and> dev_type d \<noteq> SEAT_DEVICE_TYPE_NORMAL"
    if "d \<in> set (ds[i := ?d])" for d
    using set_update_subset_insert [THEN subsetD, OF that] True assms nth_mem [OF i]
    by (auto simp: devices_ok_def)
  ultimately show ?thesis
    using assms i by (simp add: devices_ok_def map_list_update_same)
next
  case False
  then have "drop_ref i ds = take i ds @ drop (Suc i) ds" by (simp add: drop_ref_def)
  moreover have "set (take i ds @ drop (Suc i) ds) \<subseteq> set ds"
    by (auto dest: in_set_takeD in_set_dropD)
  ultimately show ?thesis
    using assms unfolding devices_ok_def by (auto intro!: distinct_map_remove simp del: map_append)
qed

lemma seat_close_device_wp:
  assumes x: "client_heap w c = Some x" and seat: "cl_seat x = Some s" and st: "seat_heap w s = Some st"
    and i: "i < length (cl_devices x)" and type: "dev_type (cl_devices x ! i) \<noteq> SEAT_DEVICE_TYPE_NORMAL"
    and Q: "\<And>w'. pdata w' = pdata (w\<lparr>client_heap := (client_heap w)(c \<mapsto> x\<lparr>cl_devices := drop_ref i (cl_devices x)\<rparr>)\<rparr>) \<Longrightarrow> Q () w'"
  shows "wp (seat_close_device k c i) Q w"
  using x seat st i type
  by (auto simp: seat_close_device_def wp_simps Let_def drop_ref_def data_eq
      intro!: Q seat_deactivate_device_wp wp_data_calls [OF sys_val_calls])

lemma seat_close_device_inv:
  assumes ok: "world_ok g X Y w" and x: "client_heap w c = Some x" and X: "X c = None" and seat: "cl_seat x = Some s"
    and i: "i < length (cl_devices x)"
    and Q: "\<And>w'. world_ok g X Y w' \<Longrightarrow>
      pdata w' = pdata (w\<lparr>client_heap := (client_heap w)(c \<mapsto> x\<lparr>cl_devices := drop_ref i (cl_devices x)\<rparr>)\<rparr>) \<Longrightarrow> Q () w'"
  shows "wp (seat_close_device k c i) Q w"
proof -
  obtain st where st: "seat_heap w s = Some st"
    using inv_member [OF ok x seat X] by auto
  have devs: "devices_ok (cl_devices x)" using inv_client(2) [OF ok x] .
  then have type: "dev_type (cl_devices x ! i) \<noteq> SEAT_DEVICE_TYPE_NORMAL"
    using nth_mem [OF i] by (auto simp: devices_ok_def)
  have "world_ok g X Y (w\<lparr>client_heap := (client_heap w)(c \<mapsto> x\<lparr>cl_devices := drop_ref i (cl_devices x)\<rparr>)\<rparr>)"
    using invD(3,9) [OF ok x] devices_ok_drop_ref [OF devs i] seat
    by (intro inv_client_upd [OF ok x X]) (auto simp: client_ok_def on_duty_def)
  then have "world_ok g X Y w'" if "pdata w' = pdata (w\<lparr>client_heap := (client_heap w)(c \<mapsto> x\<lparr>cl_devices := drop_ref i (cl_devices x)\<rparr>)\<rparr>)" for w'
    using world_ok_data [OF that] by simp
  then show ?thesis
    by (intro seat_close_device_wp [OF x seat st i type] Q)
qed

text \<open>Closing devices one reference at a time ends, with no device left.\<close>

lemma refs_drop_ref:
  assumes "ds \<noteq> []"
  shows "refs (drop_ref 0 ds) < refs ds"
  using assms by (cases ds) (auto simp: refs_def drop_ref_def Let_def)

lemma close_devices_wp:
  assumes Q: "\<And>w'. pdata w' = pdata (w0\<lparr>client_heap := (client_heap w0)(c \<mapsto> x0\<lparr>cl_devices := []\<rparr>)\<rparr>) \<Longrightarrow> Q () w'"
    and x0: "cl_seat x0 = Some s" and st: "seat_heap w0 s = Some st"
  shows "refs ds < n \<Longrightarrow> devices_ok ds \<Longrightarrow>
    pdata w = pdata (w0\<lparr>client_heap := (client_heap w0)(c \<mapsto> x0\<lparr>cl_devices := ds\<rparr>)\<rparr>) \<Longrightarrow> wp (close_devices n k c) Q w"
proof (induction n arbitrary: ds w)
  case (Suc n)
  have heap: "client_heap w c = Some (x0\<lparr>cl_devices := ds\<rparr>)" "seat_heap w s = Some st"
    using Suc.prems(3) st by (simp_all add: data_eq)
  show ?case
  proof (cases ds)
    case Nil
    have "Q () w" using Q [of w] Suc.prems(3) unfolding Nil by blast
    then show ?thesis using heap Nil by (simp add: wp_simps)
  next
    case (Cons d ds')
    have type: "dev_type d \<noteq> SEAT_DEVICE_TYPE_NORMAL"
      using Suc.prems(2) Cons by (simp add: devices_ok_def)
    have step: "wp (close_devices n k c) Q v"
      if v: "pdata v = pdata (w\<lparr>client_heap := (client_heap w)(c \<mapsto> x0\<lparr>cl_devices := drop_ref 0 ds\<rparr>)\<rparr>)" for v
    proof (rule Suc.IH)
      show "refs (drop_ref 0 ds) < n" using refs_drop_ref [of ds] Cons Suc.prems(1) by simp
      show "devices_ok (drop_ref 0 ds)" using Suc.prems(2) Cons by (intro devices_ok_drop_ref) simp_all
      show "pdata v = pdata (w0\<lparr>client_heap := (client_heap w0)(c \<mapsto> x0\<lparr>cl_devices := drop_ref 0 ds\<rparr>)\<rparr>)"
        using v Suc.prems(3) by (auto simp: data_eq fun_eq_iff)
    qed
    show ?thesis
      using Cons heap type x0
      by (auto simp: wp_simps intro!: seat_close_device_wp [OF heap(1)] step)
  qed
qed simp

section \<open>Adding and removing clients\<close>

text \<open>The session number found is the least one from the start on that no client has.\<close>

lemma next_session_spec:
  "(\<forall>j < i. j < length ss \<longrightarrow> ss ! j \<noteq> n) \<Longrightarrow>
     n \<le> next_session_from ss i n \<and> next_session_from ss i n \<notin> set ss \<and> {n..<next_session_from ss i n} \<subseteq> set ss"
proof (induction ss i n rule: next_session_from.induct)
  case (1 ss i n)
  show ?case
  proof (cases "i \<ge> length ss")
    case True
    then have "n \<notin> set ss" using "1.prems" by (auto simp: in_set_conv_nth)
    then show ?thesis using True by (simp add: next_session_from.simps [of ss i n])
  next
    case False
    show ?thesis
    proof (cases "ss ! i = n")
      case True
      with False have "n \<in> set ss" by (metis leI nth_mem)
      moreover have "{n..<m} \<subseteq> insert n {n + 1..<m}" for m by auto
      moreover have "next_session_from ss i n = next_session_from ss 0 (n + 1)"
        using False True by (simp add: next_session_from.simps [of ss i n])
      moreover have "n + 1 \<le> next_session_from ss 0 (n + 1) \<and> next_session_from ss 0 (n + 1) \<notin> set ss \<and>
          {n + 1..<next_session_from ss 0 (n + 1)} \<subseteq> set ss"
        using "1.IH"(1) [OF False True] by simp
      ultimately show ?thesis by (auto 4 3)
    next
      case ne: False
      have "\<forall>j < Suc i. j < length ss \<longrightarrow> ss ! j \<noteq> n"
        using "1.prems" ne by (auto simp: less_Suc_eq)
      then show ?thesis
        using "1.IH"(2) [OF False ne] False ne by (simp add: next_session_from.simps [of ss i n])
    qed
  qed
qed

lemma remove1_seats:
  assumes "\<And>s st. S s = Some st \<Longrightarrow> c \<notin> set (seat_clients st)"
  shows "(\<lambda>s. map_option (\<lambda>st. st\<lparr>seat_clients := remove1 c (seat_clients st)\<rparr>) (S s)) = S"
proof
  fix s
  show "map_option (\<lambda>st. st\<lparr>seat_clients := remove1 c (seat_clients st)\<rparr>) (S s) = S s"
    using assms by (cases "S s") (auto simp: remove1_idem)
qed

lemma inv_free_link:
  assumes "world_ok g X Y w" and "client_heap w c = Some x" and "cl_seat x = None" and "seat_heap w s = Some st"
  shows "c \<notin> set (seat_clients st)"
  using inv_seat_client [OF assms(1,4), of c] assms(2,3) by auto

lemma inv_linked:
  assumes "world_ok g X Y w" and "client_heap w c = Some x" and "X c = None"
  shows "\<not> cl_link_null x" and "distinct (idle_clients (the_server w))"
  using assms by (auto simp: world_ok_def links_ok_def linked_at_def)

lemma seat_link_client_inv:
  assumes ok: "world_ok g X Y w" and x: "client_heap w c = Some x" and X: "X c = None" and none: "cl_seat x = None"
    and st: "seat_heap w s = Some st" and n: "0 \<le> n" and vt: "vt_bound st \<longrightarrow> 0 \<le> cur_vt st"
    and Q: "\<And>w'. world_ok g X Y w' \<Longrightarrow> client_heap w' = (client_heap w)
        (c \<mapsto> x\<lparr>cl_session := n, cl_seat := Some s, cl_link_null := False\<rparr>) \<Longrightarrow>
      seat_heap w' = (seat_heap w)(s \<mapsto> st\<lparr>seat_clients := c # seat_clients st\<rparr>) \<Longrightarrow> Q 0 w'"
  shows "wp (seat_link_client s c n) Q w"
proof -
  have seats: "(\<lambda>s. map_option (\<lambda>st. st\<lparr>seat_clients := remove1 c (seat_clients st)\<rparr>) (seat_heap w s)) = seat_heap w"
    by (rule remove1_seats) (rule inv_free_link [OF ok x none])
  have free: "\<not> in_some_list v c"
    if "seat_heap v = seat_heap w" "idle_clients (the_server v) = remove1 c (idle_clients (the_server w))" for v
    using that inv_free_link [OF ok x none] inv_linked(2) [OF ok x X]
    by (auto simp: in_some_list_def split: option.split)
  have "world_ok g X Y (w\<lparr>client_heap := (client_heap w)(c \<mapsto> x\<lparr>cl_session := n, cl_seat := Some s, cl_link_null := False\<rparr>),
      seat_heap := (seat_heap w)(s \<mapsto> st\<lparr>seat_clients := c # seat_clients st\<rparr>),
      the_server := (the_server w)\<lparr>idle_clients := remove1 c (idle_clients (the_server w))\<rparr>\<rparr>)" (is "world_ok g X Y ?v")
    by (rule inv_link [OF ok x X none st n vt]) (cases x, simp)
  then have keep: "world_ok g X Y w'" if "pdata w' = pdata ?v" for w'
    using world_ok_data [OF that] by simp
  show ?thesis
    unfolding seat_link_client_def client_link_remove_def insert_seat_client_def
    using inv_linked(1) [OF ok x X] x st seats free
    by (auto simp: wp_simps data_eq intro!: Q keep)
qed

lemma seat_add_client_inv:
  assumes ok: "world_ok g X Y w" and x: "client_heap w c = Some x" and X: "X c = None"
    and st: "seat_heap w s = Some st"
    and Q: "\<And>r w'. world_ok g X Y w' \<Longrightarrow> (r = -1 \<or> (\<exists>y t. client_heap w' c = Some y \<and> cl_seat y = Some s \<and>
      seat_heap w' s = Some t)) \<Longrightarrow> Q r w'"
  shows "wp (seat_add_client k s c) Q w"
proof -
  have active: "\<exists>y. client_heap w a = Some y" if "active_client st = Some a" for a
    using inv_active(2) [OF ok st that] by auto
  have dom: "set (seat_clients st) \<subseteq> dom (client_heap w)"
    by (rule inv_clients_dom [OF ok st])
  have bound: "0 \<le> cur_vt st \<or> cur_vt st = -1"
    using invD(4) [OF ok st] by (auto simp: seat_ok_def)
  have session: "0 \<le> next_session_from ss 0 1" for ss
    using next_session_spec [of 0 ss 1] by simp
  have link: "wp (seat_link_client s c n) Q w" if "0 \<le> n" "\<not> vt_bound st" "cl_seat x = None" for n
    by (rule seat_link_client_inv [OF ok x X that(3) st that(1)]) (use that(2) in \<open>auto intro!: Q\<close>)
  have link_vt: "wp (seat_link_client s c n) Q v"
    if "world_ok g X Y v" "client_heap v = client_heap w" "seat_heap v = (seat_heap w)(s \<mapsto> st\<lparr>cur_vt := n\<rparr>)"
      "0 \<le> n" "cl_seat x = None" for v n
    by (rule seat_link_client_inv [OF that(1) _ X that(5)]) (use that x in \<open>auto intro!: Q\<close>)
  show ?thesis
    unfolding seat_add_client_def
    using x st ok
    apply (cases "active_client st")
    subgoal
      using dom bound
      by (auto simp: wp_simps client_sessions_wp session data_eq find_client_wp
          intro!: Q seat_update_vt_inv [OF ok st] link link_vt)
    subgoal for a
      using active [of a] dom bound
      by (auto simp: wp_simps client_sessions_wp session data_eq find_client_wp
          intro!: Q seat_update_vt_inv [OF ok st] link link_vt)
    done
qed

lemma remove_group_vts_wp:
  "\<forall>v \<in> set gs. 0 < gv_vt v \<Longrightarrow>
    (\<And>w'. pdata w' = pdata w \<Longrightarrow> Q (filter (\<lambda>v. gv_owner v \<noteq> Some c) gs) w') \<Longrightarrow>
    wp (remove_group_vts k bound c gs) Q w"
proof (induction gs arbitrary: w Q)
  case (Cons v gs)
  then show ?case
    by (auto simp: wp_simps intro!: wp_data_calls [OF vt_calls(2)] Cons.IH)
qed (simp add: wp_simps)

lemma remove1_seat:
  assumes "S s = Some st" and "\<And>r t. r \<noteq> s \<Longrightarrow> S r = Some t \<Longrightarrow> c \<notin> set (seat_clients t)"
  shows "(\<lambda>r. map_option (\<lambda>st. st\<lparr>seat_clients := remove1 c (seat_clients st)\<rparr>) (S r)) =
    S(s \<mapsto> st\<lparr>seat_clients := remove1 c (seat_clients st)\<rparr>)"
proof
  fix r
  show "map_option (\<lambda>st. st\<lparr>seat_clients := remove1 c (seat_clients st)\<rparr>) (S r) =
      (S(s \<mapsto> st\<lparr>seat_clients := remove1 c (seat_clients st)\<rparr>)) r"
    using assms by (cases "S r") (auto simp: remove1_idem)
qed

lemma client_link_remove_seat:
  assumes "client_heap w c = Some x" and "\<not> cl_link_null x" and "seat_heap w s = Some st"
    and "\<And>r t. r \<noteq> s \<Longrightarrow> seat_heap w r = Some t \<Longrightarrow> c \<notin> set (seat_clients t)"
    and "c \<notin> set (idle_clients (the_server w))"
  shows "wp (client_link_remove c) Q w = Q () (w\<lparr>
    seat_heap := (seat_heap w)(s \<mapsto> st\<lparr>seat_clients := remove1 c (seat_clients st)\<rparr>),
    client_heap := (client_heap w)(c \<mapsto> x\<lparr>cl_link_null := True\<rparr>)\<rparr>)"
proof -
  have "(the_server w)\<lparr>idle_clients := remove1 c (idle_clients (the_server w))\<rparr> = the_server w"
    using assms(5) by (simp add: remove1_idem)
  then show ?thesis
    using assms(1,2) remove1_seat [where S = "seat_heap w", OF assms(3,4)]
    by (simp add: client_link_remove_def wp_simps)
qed

text \<open>
  The first part of \<open>seat_remove_client\<close>, up to \<open>seat_client_left\<close>: the client is off the lists,
  without devices and without grouped VTs.
\<close>

lemma seat_remove_client_left:
  assumes ok: "world_ok g X Y w" and x: "client_heap w c = Some x" and seat: "cl_seat x = Some s" and X: "X c = None"
    and st: "seat_heap w s = Some st"
    and y_def: "y = x\<lparr>cl_link_null := False, cl_devices := []\<rparr>"
    and st1_def: "st1 = st\<lparr>next_client := (if next_client st = Some c then None else next_client st),
      seat_clients := remove1 c (seat_clients st), group_vts := filter (\<lambda>v. gv_owner v \<noteq> Some c) (group_vts st)\<rparr>"
    and fin: "\<And>v. pdata v = pdata (w\<lparr>client_heap := (client_heap w)(c \<mapsto> y), seat_heap := (seat_heap w)(s \<mapsto> st1)\<rparr>) \<Longrightarrow>
      wp (seat_client_left k s c) Q v"
  shows "wp (seat_remove_client k c) Q w"
proof -
  define st' where "st' = (if next_client st = Some c then st\<lparr>next_client := None\<rparr> else st)"
  let ?v = "w\<lparr>seat_heap := (seat_heap w)(s \<mapsto> st')\<rparr>"
  define u where "u = w\<lparr>seat_heap := (seat_heap w)(s \<mapsto> st'\<lparr>seat_clients := remove1 c (seat_clients st)\<rparr>),
    client_heap := (client_heap w)(c \<mapsto> x\<lparr>cl_link_null := False\<rparr>)\<rparr>"
  have st': "seat_clients st' = seat_clients st" "group_vts st' = group_vts st" "vt_bound st' = vt_bound st"
    by (simp_all add: st'_def)
  have unlink: "wp (client_link_remove c) Q' ?v = Q' () (?v\<lparr>
      seat_heap := (seat_heap w)(s \<mapsto> st'\<lparr>seat_clients := remove1 c (seat_clients st)\<rparr>),
      client_heap := (client_heap w)(c \<mapsto> x\<lparr>cl_link_null := True\<rparr>)\<rparr>)" for Q'
  proof -
    have "c \<notin> set (seat_clients t)" if "r \<noteq> s" "seat_heap w r = Some t" for r t
      using inv_seat_client [OF ok that(2), of c] x seat that(1) by auto
    moreover have "c \<notin> set (idle_clients (the_server w))"
      using ok x seat by (auto simp: world_ok_def links_ok_def)
    ultimately show ?thesis
      using client_link_remove_seat [of ?v c x s st' Q'] x inv_linked(1) [OF ok x X]
      by (simp add: st')
  qed
  have gvs: "\<forall>v \<in> set (group_vts st). 0 < gv_vt v"
    using invD(4) [OF ok st] by (auto simp: seat_ok_def)
  have groups: "wp (remove_group_vts k (vt_bound st) c (group_vts st)) (\<lambda>gs s'. wp (do { upd_seat s (\<lambda>st. st\<lparr>group_vts := gs\<rparr>); seat_client_left k s c }) Q s') u'"
    if u': "pdata u' = pdata (u\<lparr>client_heap := (client_heap u)(c \<mapsto> x\<lparr>cl_link_null := False, cl_devices := []\<rparr>)\<rparr>)" for u'
  proof (rule remove_group_vts_wp [OF gvs])
    fix w' assume "pdata w' = pdata u'"
    then have w': "client_heap w' = (client_heap w)(c \<mapsto> y)" "control_heap w' = control_heap w" "the_server w' = the_server w"
      "seat_heap w' = (seat_heap w)(s \<mapsto> st'\<lparr>seat_clients := remove1 c (seat_clients st)\<rparr>)"
      "the_poller w' = the_poller w" "next_addr w' = next_addr w" "flags w' = flags w"
      using u' by (simp_all add: data_eq u_def y_def)
    have "st'\<lparr>seat_clients := remove1 c (seat_clients st), group_vts := filter (\<lambda>v. gv_owner v \<noteq> Some c) (group_vts st)\<rparr> = st1"
      by (cases st) (simp add: st'_def st1_def)
    with w' show "wp (do { upd_seat s (\<lambda>sta. sta\<lparr>group_vts := filter (\<lambda>v. gv_owner v \<noteq> Some c) (group_vts st)\<rparr>); seat_client_left k s c }) Q w'"
      by (simp add: wp_simps) (rule fin, simp add: data_eq)
  qed
  have devs: "wp (close_devices (Suc (refs (cl_devices x))) k c) (\<lambda>_ s'. wp (do {
     st \<leftarrow> get_seat s;
     gs \<leftarrow> remove_group_vts k (vt_bound st) c (group_vts st);
     upd_seat s (\<lambda>st. st\<lparr>group_vts := gs\<rparr>);
     seat_client_left k s c }) Q s') u"
  proof (rule close_devices_wp [where ?w0.0 = u and ?x0.0 = "x\<lparr>cl_link_null := False\<rparr>" and ds = "cl_devices x"])
    fix u' assume u': "pdata u' = pdata (u\<lparr>client_heap := (client_heap u)(c \<mapsto> x\<lparr>cl_link_null := False, cl_devices := []\<rparr>)\<rparr>)"
    then have "seat_heap u' s = Some (st'\<lparr>seat_clients := remove1 c (seat_clients st)\<rparr>)"
      by (simp add: data_eq u_def)
    with groups [OF u'] show "wp (do {
        st \<leftarrow> get_seat s;
        gs \<leftarrow> remove_group_vts k (vt_bound st) c (group_vts st);
        upd_seat s (\<lambda>st. st\<lparr>group_vts := gs\<rparr>);
        seat_client_left k s c }) Q u'"
      by (simp add: wp_simps st')
  qed (use seat inv_client(2) [OF ok x] in \<open>auto simp: u_def data_eq\<close>)
  show ?thesis
    unfolding seat_remove_client_def
    using x seat st devs
    by (simp add: wp_simps unlink client_link_init_def u_def flip: st'_def del: close_devices.simps)
qed

lemma seat_remove_client_inv:
  assumes ok: "world_ok g X Y w" and x: "client_heap w c = Some x" and seat: "cl_seat x = Some s" and X: "X c = None"
    and s: "s \<in> g_seats g" and send: "send_ok k"
    and Q: "\<And>w'. world_ok g (X(c \<mapsto> x\<lparr>cl_link_null := False, cl_devices := [], cl_state := CLIENT_CLOSED, cl_seat := None\<rparr>)) Y w' \<Longrightarrow> Q () w'"
  shows "wp (seat_remove_client k c) Q w"
proof -
  obtain st where st: "seat_heap w s = Some st" and mem: "c \<in> set (seat_clients st)"
    using inv_member [OF ok x seat X] by auto
  define y where "y = x\<lparr>cl_link_null := False, cl_devices := []\<rparr>"
  define st1 where "st1 = st\<lparr>next_client := (if next_client st = Some c then None else next_client st),
    seat_clients := remove1 c (seat_clients st), group_vts := filter (\<lambda>v. gv_owner v \<noteq> Some c) (group_vts st)\<rparr>"
  have left: "world_ok g (X(c \<mapsto> y)) Y v"
    if "pdata v = pdata (w\<lparr>client_heap := (client_heap w)(c \<mapsto> y), seat_heap := (seat_heap w)(s \<mapsto> leave c st)\<rparr>)" for v
    using world_ok_data [OF that] inv_leave [OF ok x X seat st y_def] by simp
  have session: "0 \<le> cl_session y" using inv_client(4) [OF ok x] seat by (simp add: y_def)
  have close: "Q () (v\<lparr>client_heap := H\<rparr>)"
    if v: "world_ok g (X(c \<mapsto> y)) Y v" and H: "H = (client_heap v)(c \<mapsto> y\<lparr>cl_state := CLIENT_CLOSED, cl_seat := None\<rparr>)" for v H
    unfolding H
  proof (rule Q)
    have "client_ok (y\<lparr>cl_state := CLIENT_CLOSED, cl_seat := None\<rparr>)"
      using invD(3) [OF ok x] by (auto simp: client_ok_def y_def)
    from inv_detached_upd [where c = c and x = y, OF v _ this] invD(9) [OF ok x]
    show "world_ok g (X(c \<mapsto> x\<lparr>cl_link_null := False, cl_devices := [], cl_state := CLIENT_CLOSED, cl_seat := None\<rparr>)) Y
        (v\<lparr>client_heap := (client_heap v)(c \<mapsto> y\<lparr>cl_state := CLIENT_CLOSED, cl_seat := None\<rparr>)\<rparr>)"
      by (simp add: y_def)
  qed
  have tail: "client_heap v c = Some y \<and> (\<exists>t. seat_heap v s = Some t)" if "world_ok g (X(c \<mapsto> y)) Y v" for v
    using invD(8) [OF that, of c y] invD(6) [OF that s] by simp
  have fin: "wp (seat_client_left k s c) Q v"
    if v: "pdata v = pdata (w\<lparr>client_heap := (client_heap w)(c \<mapsto> y), seat_heap := (seat_heap w)(s \<mapsto> st1)\<rparr>)" for v
  proof (cases "active_client st = Some c")
    case True
    let ?u = "v\<lparr>seat_heap := (seat_heap v)(s \<mapsto> st1\<lparr>active_client := None\<rparr>)\<rparr>"
    have "st1\<lparr>active_client := None\<rparr> = leave c st"
      using True by (cases st) (simp add: st1_def leave_def)
    then have u: "world_ok g (X(c \<mapsto> y)) Y ?u" using v by (intro left) (simp add: data_eq)
    have "wp (seat_activate k s) (\<lambda>_ u. world_ok g (X(c \<mapsto> y)) Y u \<and> client_heap u c = Some y \<and>
        (\<exists>t. seat_heap u s = Some t)) ?u"
      by (rule seat_activate_inv [OF u _ send]) (auto dest: tail)
    moreover have "seat_heap v s = Some st1" "active_client st1 = Some c"
      using v True by (simp_all add: data_eq st1_def)
    ultimately show ?thesis
      unfolding seat_client_left_def
      by (auto simp: wp_simps data_eq elim!: wp_mono
          intro!: close wp_calls_inv [OF vt_calls(2) [OF session]])
  next
    case False
    have "st1 = leave c st"
      using False by (cases st) (simp add: st1_def leave_def)
    then have u: "world_ok g (X(c \<mapsto> y)) Y v" using v by (intro left) (simp add: data_eq)
    moreover have "seat_heap v s = Some st1" "active_client st1 \<noteq> Some c"
      using v False by (simp_all add: data_eq st1_def)
    ultimately show ?thesis
      unfolding seat_client_left_def
      using tail [OF u]
      by (auto simp: wp_simps data_eq intro!: close wp_calls_inv [OF vt_calls(2) [OF session]])
  qed
  show ?thesis
    by (rule seat_remove_client_left [OF ok x seat X st y_def st1_def fin])
qed

end
