(* ===== verification/Seat_Vt_Inv.thy ===== *)
theory Seat_Vt_Inv
  imports Seat_Inv
begin

text \<open>
  The operations of \<open>seatd/seat.c\<close> on sessions, virtual terminals, grouped VTs and devices being
  opened: they keep the invariant of the server's data and fail no assertion.
\<close>

section \<open>Switching sessions\<close>

lemma inv_pending':
  "world_ok g X Y w \<Longrightarrow> seat_heap w s = Some st \<Longrightarrow> S = (seat_heap w)(s \<mapsto> st\<lparr>pending_vt_switch := v\<rparr>) \<Longrightarrow>
     0 \<le> v \<Longrightarrow> world_ok g X Y (w\<lparr>seat_heap := S\<rparr>)"
  by (simp add: inv_pending)

lemma vt_switch_inv:
  assumes ok: "world_ok g X Y w" and "seat_heap w s = Some st" and "0 \<le> cur_vt st"
    and Q: "\<And>r w'. world_ok g X Y w' \<Longrightarrow> pdata w' = pdata w \<Longrightarrow> Q r w'"
  shows "wp (vt_switch k s vt) Q w"
  by (rule vt_switch_wp [OF assms(2,3)]) (use ok Q world_ok_data in blast)

lemma vt_ack_inv:
  assumes ok: "world_ok g X Y w" and "seat_heap w s = Some st" and "0 \<le> cur_vt st"
    and Q: "\<And>r w'. world_ok g X Y w' \<Longrightarrow> pdata w' = pdata w \<Longrightarrow> Q r w'"
  shows "wp (vt_ack k s release) Q w"
  by (rule vt_ack_wp [OF assms(2,3)]) (use ok Q world_ok_data in blast)

text \<open>A switch that is requested, and withdrawn when the request fails.\<close>

lemma vt_request_inv:
  assumes ok: "world_ok g X Y v" and st: "seat_heap v s = Some t" and vt: "0 \<le> cur_vt t" "0 \<le> n"
    and S: "S = (seat_heap v)(s \<mapsto> t\<lparr>pending_vt_switch := n\<rparr>)"
    and Q: "\<And>r w'. world_ok g X Y w' \<Longrightarrow> seat_heap w' = S \<Longrightarrow>
      world_ok g X Y (w'\<lparr>seat_heap := (seat_heap v)(s \<mapsto> t\<lparr>pending_vt_switch := 0\<rparr>)\<rparr>) \<Longrightarrow> Q r w'"
  shows "wp (vt_switch k s vt) Q (v\<lparr>seat_heap := S\<rparr>)"
proof (rule vt_switch_wp [where st = "t\<lparr>pending_vt_switch := n\<rparr>"])
  fix r w' assume w': "pdata w' = pdata (v\<lparr>seat_heap := S\<rparr>)"
  have "pdata (w'\<lparr>seat_heap := (seat_heap v)(s \<mapsto> t\<lparr>pending_vt_switch := 0\<rparr>)\<rparr>) =
      pdata (v\<lparr>seat_heap := (seat_heap v)(s \<mapsto> t\<lparr>pending_vt_switch := 0\<rparr>)\<rparr>)"
    using w' by (simp add: data_eq)
  from world_ok_data [OF this] world_ok_data [OF w'] w' show "Q r w'"
    using inv_pending [OF ok st] vt by (intro Q) (simp_all add: S data_eq)
qed (simp_all add: S vt)

lemma seat_set_next_session_inv:
  assumes ok: "world_ok g X Y w" and x: "client_heap w c = Some x" and X: "X c = None" and send: "send_ok k"
    and Q: "\<And>r w'. world_ok g X Y w' \<Longrightarrow> Q r w'"
  shows "wp (seat_set_next_session k c session) Q w"
proof (cases "cl_state x = CLIENT_ACTIVE")
  case True
  then obtain s st where seat: "cl_seat x = Some s" "seat_heap w s = Some st" "active_client st = Some c" "c \<in> set (seat_clients st)"
    using inv_duty [OF ok x _ X] by (auto simp: on_duty_def)
  have vt: "vt_bound st \<longrightarrow> 0 \<le> cur_vt st"
    using invD(4) [OF ok seat(2)] seat(4) by (auto simp: seat_ok_def)
  have target: "wp (seat_disable_client k c) Q' (w\<lparr>seat_heap := (seat_heap w)(s \<mapsto> st\<lparr>next_client := Some t\<rparr>)\<rparr>)"
    if "List.find P (seat_clients st) = Some t" "\<And>r w'. world_ok g X Y w' \<Longrightarrow> Q' r w'" for P t Q'
    by (rule seat_disable_client_inv [OF inv_next [OF ok seat(2)] _ X send that(2)])
      (use find_Some_mem [OF that(1)] x in auto)
  show ?thesis
    unfolding seat_set_next_session_def
    using True x seat vt inv_clients_dom [OF ok seat(2)]
    by (auto simp: wp_simps find_client_wp ok
        intro!: Q vt_request_inv [where n = session, OF ok seat(2)] target split: option.split)
next
  case False
  with ok x show ?thesis
    unfolding seat_set_next_session_def by (auto simp: wp_simps intro!: Q)
qed

section \<open>Virtual terminal signals\<close>

lemma seat_vt_activate_inv:
  assumes ok: "world_ok g X Y w" and st: "seat_heap w s = Some st" and vt: "vt_bound st \<longrightarrow> 0 \<le> cur_vt st"
    and Q: "\<And>r w'. world_ok g X Y w' \<Longrightarrow> Q r w'"
  shows "wp (seat_vt_activate k s) Q w"
  unfolding seat_vt_activate_def
  using ok st vt by (auto simp: wp_simps data_eq intro!: Q seat_update_vt_inv [OF ok st] vt_ack_inv)

lemma on_devices_only:
  assumes "world_ok g X Y w" and "client_heap w c = Some x" and "X c = None"
    and "f = seat_deactivate_device k \<or> f = seat_activate_device k"
    and "\<And>w'. world_ok g X Y w' \<Longrightarrow> seat_heap w' = seat_heap w \<Longrightarrow> Q () w'"
  shows "wp (on_devices c (for_devices P f)) Q w"
  by (rule on_devices_inv [OF assms(1-4)]) (use assms(5) in \<open>auto simp: data_eq\<close>)

lemma drm_master_inv:
  assumes "world_ok g X Y w" and "client_heap w c = Some x" and "X c = None"
    and "\<And>w'. world_ok g X Y w' \<Longrightarrow> seat_heap w' = seat_heap w \<Longrightarrow> Q () w'"
  shows "wp (seat_drop_client_drm_master k c) Q w" "wp (seat_restore_client_drm_master k c) Q w"
  unfolding seat_drop_client_drm_master_def seat_restore_client_drm_master_def
proof -
  note rule = on_devices_only [where X = X and Q = Q and k = k, OF assms(1-3)]
  show "wp (on_devices c (for_devices (\<lambda>d. dev_type d = SEAT_DEVICE_TYPE_DRM \<and> dev_active d) (seat_deactivate_device k))) Q w"
    by (rule rule) (simp_all add: assms(4))
  show "wp (on_devices c (for_devices (\<lambda>d. dev_type d = SEAT_DEVICE_TYPE_DRM \<and> \<not> dev_active d) (seat_activate_device k))) Q w"
    by (rule rule) (simp_all add: assms(4))
qed

lemma vt_release_drm_inv:
  assumes ok: "world_ok g X Y w" and st: "seat_heap w s = Some st" and a: "active_client st = Some a"
    and Q: "\<And>w'. world_ok g X Y w' \<Longrightarrow> seat_heap w' = seat_heap w \<Longrightarrow> Q () w'"
  shows "wp (vt_release_drm k s a) Q w"
proof -
  obtain x where x: "client_heap w a = Some x"
    using inv_active(2) [OF ok st a] by auto
  have X: "X a = None" using inv_not_detached [OF ok st inv_active(1) [OF ok st a]] .
  show ?thesis
    unfolding vt_release_drm_def
    using ok x X st
    by (auto simp: wp_simps client_owns_vt_inv [OF ok x X] intro!: Q describe_pending_inv drm_master_inv(1))
qed

lemma seat_vt_release_inv:
  assumes ok: "world_ok g X Y w" and st: "seat_heap w s = Some st" and vt: "vt_bound st \<longrightarrow> 0 \<le> cur_vt st"
    and Q: "\<And>r w'. world_ok g X Y w' \<Longrightarrow> Q r w'"
  shows "wp (seat_vt_release k s) Q w"
  unfolding seat_vt_release_def
  using ok st vt
  by (cases "active_client st")
    (auto simp: wp_simps data_eq intro!: Q seat_update_vt_inv [OF ok st] vt_ack_inv vt_release_drm_inv)

section \<open>Requests of control clients\<close>

lemma seat_get_active_vt_inv:
  assumes ok: "world_ok g X Y w" and st: "seat_heap w s = Some st" and Q: "\<And>r w'. world_ok g X Y w' \<Longrightarrow> Q r w'"
  shows "wp (seat_get_active_vt k s) Q w"
  unfolding seat_get_active_vt_def
  using ok st by (auto simp: wp_simps data_eq intro!: Q seat_update_vt_inv [OF ok st])

lemma seat_find_available_vt_inv:
  assumes ok: "world_ok g X Y w" and st: "seat_heap w s = Some st" and Q: "\<And>r w'. world_ok g X Y w' \<Longrightarrow> Q r w'"
  shows "wp (seat_find_available_vt k s) Q w"
  unfolding seat_find_available_vt_def
  using ok st
  by (auto simp: wp_simps data_eq Let_def intro!: Q wp_calls_inv [OF terminal_open_calls] wp_calls_inv [OF terminal_calls(1)]
      wp_calls_inv [OF sys_val_calls])

lemma seat_switch_vt_inv:
  assumes ok: "world_ok g X Y w" and st: "seat_heap w s = Some st" and Q: "\<And>r w'. world_ok g X Y w' \<Longrightarrow> Q r w'"
  shows "wp (seat_switch_vt k s vt) Q w"
proof -
  have request: "wp (vt_switch k s vt) Q' (v\<lparr>seat_heap := (seat_heap w)(s \<mapsto> t\<lparr>pending_vt_switch := vt\<rparr>)\<rparr>)"
    if "world_ok g X Y v" "seat_heap v = (seat_heap w)(s \<mapsto> t)" "0 < cur_vt t" "\<not> vt \<le> 0"
      "\<And>r w'. world_ok g X Y w' \<Longrightarrow> seat_heap w' = (seat_heap w)(s \<mapsto> t\<lparr>pending_vt_switch := vt\<rparr>) \<Longrightarrow>
        world_ok g X Y (w'\<lparr>seat_heap := (seat_heap w)(s \<mapsto> t\<lparr>pending_vt_switch := 0\<rparr>)\<rparr>) \<Longrightarrow> Q' r w'" for v t Q'
    by (rule vt_request_inv [OF that(1), where t = t]) (use that in auto)
  show ?thesis
    unfolding seat_switch_vt_def
    using ok st by (auto simp: wp_simps data_eq intro!: Q seat_update_vt_inv [OF ok st] request)
qed

section \<open>Grouped VTs\<close>

lemma choose_group_vt_inv:
  assumes ok: "world_ok g X Y w"
    and Q: "\<And>r w'. world_ok g X Y w' \<Longrightarrow> pdata w' = pdata w \<Longrightarrow> (\<And>vt. r = Some vt \<Longrightarrow> 0 < vt) \<Longrightarrow> Q r w'"
  shows "wp (choose_group_vt k n) Q w"
proof -
  have find: "wp (terminal_find_available k fd) Q' v"
    if "world_ok g X Y v" "\<And>vt w'. world_ok g X Y w' \<Longrightarrow> pdata w' = pdata v \<Longrightarrow> vt = -1 \<or> 0 < vt \<Longrightarrow> Q' vt w'" for fd Q' v
    unfolding terminal_find_available_def
    using that(1) by (auto simp: wp_simps data_eq Let_def intro!: that(2))
  show ?thesis
    unfolding choose_group_vt_def
    using ok by (auto simp: wp_simps data_eq Let_def intro!: Q wp_calls_inv [OF terminal_open_calls] find wp_calls_inv [OF sys_val_calls])
qed

lemma seat_create_group_vt_inv:
  assumes ok: "world_ok g X Y w" and st: "seat_heap w s = Some st" and x: "client_heap w c = Some x" and X: "X c = None"
    and Q: "\<And>r w'. world_ok g X Y w' \<Longrightarrow> Q r w'"
  shows "wp (seat_create_group_vt k s c n user session) Q w"
proof -
  have add: "world_ok g X Y (v\<lparr>seat_heap := (seat_heap w)(s \<mapsto> st\<lparr>group_vts := h # group_vts st\<rparr>)\<rparr>)"
    if "world_ok g X Y v" "seat_heap v = seat_heap w" "cl_seat x = Some s" "gv_owner h = Some c" "0 < gv_vt h"
      "seat_find_group_vt st (gv_vt h) = None" for v h
  proof -
    have "c \<in> set (seat_clients st)" using inv_member [OF ok x that(3) X] st by auto
    moreover have "gv_vt h \<notin> gv_vt ` set (group_vts st)"
      using that(6) by (auto simp: seat_find_group_vt_def find_None_iff)
    ultimately show ?thesis
      using inv_group_add [OF that(1) _ _ that(4,5), of s st] that(2) st by simp
  qed
  show ?thesis
    unfolding seat_create_group_vt_def
    using ok st x
    by (auto simp: wp_simps data_eq Let_def intro!: Q choose_group_vt_inv add wp_calls_inv [OF vt_calls(1)]
        wp_calls_inv [OF sys_val_calls] split: option.split)
qed

lemma find_index_Some: "find_index P xs = Some i \<Longrightarrow> i < length xs \<and> P (xs ! i)"
  using nth_length_takeWhile [of "\<lambda>x. \<not> P x" xs] by (auto simp: find_index_def Let_def split: if_splits)

lemma seat_destroy_group_vt_inv:
  assumes ok: "world_ok g X Y w" and st: "seat_heap w s = Some st" and Q: "\<And>r w'. world_ok g X Y w' \<Longrightarrow> Q r w'"
  shows "wp (seat_destroy_group_vt k s vt) Q w"
proof -
  have "distinct (map gv_vt (group_vts st))" and pos: "\<forall>h \<in> set (group_vts st). 0 < gv_vt h"
    using invD(4) [OF ok st] by (auto simp: seat_ok_def)
  then have drop: "world_ok g X Y (w\<lparr>seat_heap := (seat_heap w)(s \<mapsto> st\<lparr>group_vts := take i (group_vts st) @ drop (Suc i) (group_vts st)\<rparr>)\<rparr>)" for i
    by (intro inv_group_drop [OF ok st] distinct_map_remove) (auto dest: in_set_takeD in_set_dropD)
  have close: "0 \<le> vt" if "find_index (\<lambda>h. gv_vt h = vt) (group_vts st) = Some i" for i
    using find_index_Some [OF that] pos by (meson less_imp_le nth_mem)
  show ?thesis
    unfolding seat_destroy_group_vt_def
    using ok st close by (auto simp: wp_simps intro!: Q drop wp_calls_inv [OF vt_calls(2)] split: option.split)
qed

lemma seat_get_group_vt_owner_pid_inv:
  assumes ok: "world_ok g X Y w" and st: "seat_heap w s = Some st" and Q: "\<And>r w'. world_ok g X Y w' \<Longrightarrow> pdata w' = pdata w \<Longrightarrow> Q r w'"
  shows "wp (seat_get_group_vt_owner_pid s vt) Q w"
proof -
  have "\<exists>x. client_heap w c = Some x" if "seat_find_group_vt st vt = Some v" "gv_owner v = Some c" for v c
  proof -
    have "c \<in> set (seat_clients st)"
      using invD(4) [OF ok st] find_Some_mem [OF that(1) [unfolded seat_find_group_vt_def]] that(2)
      by (auto simp: seat_ok_def)
    then show ?thesis using inv_seat_client [OF ok st] by blast
  qed
  then show ?thesis
    unfolding seat_get_group_vt_owner_pid_def
    using ok st by (fastforce simp: wp_simps data_eq intro!: Q split: option.split)
qed

section \<open>VT events\<close>

lemma seat_get_server_inv:
  assumes ok: "world_ok g X Y w" and st: "seat_heap w s = Some st" and Q: "\<And>r. Q r w"
  shows "wp (seat_get_server s) Q w"
  unfolding seat_get_server_def
  using st inv_clients_dom [OF ok st] Q by (auto simp: wp_simps split: list.split)

lemma seat_handle_vt_event_inv:
  assumes ok: "world_ok g X Y w" and st: "seat_heap w s = Some st" and send: "send_ok k" and vt: "0 \<le> new_vt"
    and controls: "g_controls g = {}" and Q: "\<And>w'. world_ok g X Y w' \<Longrightarrow> Q () w'"
  shows "wp (seat_handle_vt_event k s old_vt new_vt) Q w"
proof -
  define st' where "st' = st\<lparr>pending_vt_switch := 0, cur_vt := new_vt\<rparr>"
  define v where "v = w\<lparr>seat_heap := (seat_heap w)(s \<mapsto> st')\<rparr>"
  have "world_ok g X Y (w\<lparr>seat_heap := (seat_heap w)(s \<mapsto> st\<lparr>pending_vt_switch := 0\<rparr>)\<rparr>)"
    using inv_pending [OF ok st, of 0] by simp
  from inv_cur_vt [OF this _ vt, of s "st\<lparr>pending_vt_switch := 0\<rparr>"] have v_ok: "world_ok g X Y v"
    by (simp add: v_def st'_def)
  have pending: "pending_vt_switch st = 0" if "\<not> 0 < pending_vt_switch st"
    using invD(4) [OF ok st] that by (simp add: seat_ok_def)
  have client: "wp (do {
         owns \<leftarrow> client_owns_vt a new_vt;
         if owns then seat_restore_client_drm_master k a
         else do {
           x \<leftarrow> get_client a;
           if cl_state x = CLIENT_ACTIVE then do {
             _ \<leftarrow> seat_disable_client k a;
             State_Monad.return ()
           } else State_Monad.return ()
         }
       }) Q u"
    if u: "world_ok g X Y u" "seat_heap u = seat_heap v" and a: "active_client st = Some a" for u a
  proof -
    have st': "seat_heap u s = Some st'" "active_client st' = Some a" using u a by (simp_all add: v_def st'_def)
    obtain x where x: "client_heap u a = Some x"
      using inv_active(2) [OF u(1) st'] by auto
    have X: "X a = None" using inv_not_detached [OF u(1) st'(1) inv_active(1) [OF u(1) st']] .
    show ?thesis
      using x u(1)
      by (auto simp: wp_simps client_owns_vt_inv [OF u(1) x X]
          intro!: Q drm_master_inv(2) [where X = X, OF u(1) x X] seat_disable_client_inv [where X = X, OF u(1) x X send])
  qed
  have tail: "wp (do {
     st \<leftarrow> get_seat s;
     case active_client st of
       None \<Rightarrow> do { _ \<leftarrow> seat_activate k s; State_Monad.return () }
     | Some a \<Rightarrow> do {
         owns \<leftarrow> client_owns_vt a new_vt;
         if owns then seat_restore_client_drm_master k a
         else do {
           x \<leftarrow> get_client a;
           if cl_state x = CLIENT_ACTIVE then do {
             _ \<leftarrow> seat_disable_client k a;
             State_Monad.return ()
           } else State_Monad.return ()
         }
       }
     }) Q u" if u: "world_ok g X Y u" "seat_heap u = seat_heap v" for u
  proof (cases "active_client st")
    case None
    then show ?thesis
      using u by (auto simp: wp_simps v_def st'_def intro!: seat_activate_inv [OF u(1) _ send] Q)
  next
    case (Some a)
    have "seat_heap u s = Some st'" "active_client st' = Some a" using u Some by (simp_all add: v_def st'_def)
    then show ?thesis using client [OF u Some] by (simp add: wp_bind wp_simps(1) wp_get_seat)
  qed
  have rest: "wp (do {
     server \<leftarrow> seat_get_server s;
     _ \<leftarrow> (if server then control_broadcast_vt_change k old_vt new_vt else State_Monad.return ());
     st \<leftarrow> get_seat s;
     case active_client st of
       None \<Rightarrow> do { _ \<leftarrow> seat_activate k s; State_Monad.return () }
     | Some a \<Rightarrow> do {
         owns \<leftarrow> client_owns_vt a new_vt;
         if owns then seat_restore_client_drm_master k a
         else do {
           x \<leftarrow> get_client a;
           if cl_state x = CLIENT_ACTIVE then do {
             _ \<leftarrow> seat_disable_client k a;
             State_Monad.return ()
           } else State_Monad.return ()
         }
       }
     }) Q v"
    unfolding wp_bind
  proof (rule seat_get_server_inv [OF v_ok])
    show "seat_heap v s = Some st'" by (simp add: v_def)
  qed (use tail [unfolded wp_bind] v_ok in \<open>auto simp: wp_if wp_return intro!: control_broadcast_inv [OF send v_ok controls]\<close>)
  have "w\<lparr>seat_heap := (seat_heap w)(s \<mapsto> st\<lparr>cur_vt := new_vt\<rparr>)\<rparr> = v" if "\<not> 0 < pending_vt_switch st"
    using pending [OF that] by (cases st) (simp add: v_def st'_def)
  then show ?thesis
    unfolding seat_handle_vt_event_def Let_def wp_bind
    using rest
    by (auto simp: wp_get_seat st wp_if wp_upd_seat wp_return v_def st'_def wp_bind
        intro!: describe_vt_owner_inv [OF ok st] describe_pending_inv [OF ok st])
qed

section \<open>Opening devices\<close>

text \<open>The scan finds the device with the path, or a device ID above all in use and the number of devices.\<close>

lemma scan_devices_found:
  "scan_devices path ds i did = Inl j \<Longrightarrow> i \<le> j \<and> j < i + length ds \<and> dev_path (ds ! (j - i)) = path"
proof (induction ds arbitrary: i did)
  case (Cons d ds)
  show ?case
  proof (cases "dev_path d = path")
    case False
    with Cons.prems have "scan_devices path ds (Suc i) (if device_id d \<ge> did then device_id d + 1 else did) = Inl j"
      by simp
    from Cons.IH [OF this] show ?thesis by (auto simp: nth_Cons' Suc_diff_le)
  qed (use Cons.prems in auto)
qed simp

lemma scan_devices_new:
  "scan_devices path ds i did = Inr (d, n) \<Longrightarrow>
     n = i + length ds \<and> did \<le> d \<and> (\<forall>e \<in> set ds. device_id e < d) \<and> path \<notin> dev_path ` set ds"
  by (induction ds arbitrary: i did) (force split: if_splits)+

lemma devices_ok_ref:
  assumes "devices_ok ds" and i: "i < length ds"
  shows "devices_ok (ds[i := (ds ! i)\<lparr>ref_cnt := ref_cnt (ds ! i) + 1\<rparr>])"
proof -
  have all: "\<forall>d \<in> set ds. 0 < device_id d \<and> 0 < ref_cnt d \<and> dev_type d \<noteq> SEAT_DEVICE_TYPE_NORMAL"
    using assms(1) by (simp add: devices_ok_def)
  moreover have "0 < device_id (ds ! i) \<and> 0 < ref_cnt (ds ! i) \<and> dev_type (ds ! i) \<noteq> SEAT_DEVICE_TYPE_NORMAL"
    by (rule bspec [OF all nth_mem [OF i]])
  ultimately have "0 < device_id d \<and> 0 < ref_cnt d \<and> dev_type d \<noteq> SEAT_DEVICE_TYPE_NORMAL"
    if "d \<in> set (ds[i := (ds ! i)\<lparr>ref_cnt := ref_cnt (ds ! i) + 1\<rparr>])" for d
    using set_update_subset_insert [THEN subsetD, OF that] by auto
  then show ?thesis
    using assms by (simp add: devices_ok_def map_list_update_same)
qed

lemma devices_ok_new:
  assumes "devices_ok ds" and "scan_devices path ds 0 1 = Inr (did, n)" and "\<not> 128 \<le> n"
    and "dev_path d = path" "device_id d = did" "0 < ref_cnt d" "dev_type d \<noteq> SEAT_DEVICE_TYPE_NORMAL"
  shows "devices_ok (d # ds)"
  using scan_devices_new [OF assms(2)] assms(1,3-) by (force simp: devices_ok_def)

lemma device_type_of_normal: "device_type_of k path \<noteq> Some SEAT_DEVICE_TYPE_NORMAL"
  by (simp add: device_type_of_def)

lemma inv_devices:
  assumes "world_ok g X Y v" and "client_heap v c = Some x" and X: "X c = None" and "cl_seat x \<noteq> None" and "devices_ok ds"
    and H: "H = (client_heap v)(c \<mapsto> x\<lparr>cl_devices := ds\<rparr>)"
  shows "world_ok g X Y (v\<lparr>client_heap := H\<rparr>)"
  unfolding H using invD(3,9) [OF assms(1,2)] assms(4,5)
  by (intro inv_client_upd [OF assms(1,2) X]) (auto simp: client_ok_def on_duty_def)

lemma seat_open_device_inv:
  assumes ok: "world_ok g X Y w" and x: "client_heap w c = Some x" and X: "X c = None" and seat: "cl_seat x = Some s"
    and Q: "\<And>r w' ds. world_ok g X Y w' \<Longrightarrow> client_heap w' c = Some (x\<lparr>cl_devices := ds\<rparr>) \<Longrightarrow>
      (\<And>i. r = Some i \<Longrightarrow> i < length ds) \<Longrightarrow> Q r w'"
  shows "wp (seat_open_device k c path) Q w"
proof -
  obtain st where st: "seat_heap w s = Some st" and mem: "c \<in> set (seat_clients st)"
    using inv_member [OF ok x seat X] by auto
  have active: "active_client st = Some c" if "cl_state x = CLIENT_ACTIVE"
    using inv_seat_client [OF ok st mem] x that by (auto simp: on_duty_def)
  have none: "Q None v" if "world_ok g X Y v" "client_heap v = client_heap w" for v
    by (rule Q [OF that(1), where ds = "cl_devices x"]) (use x that(2) in simp_all)
  have upd: "Q (Some i) (v\<lparr>client_heap := (client_heap w)(c \<mapsto> x\<lparr>cl_devices := ds\<rparr>)\<rparr>)"
    if "world_ok g X Y v" "client_heap v = client_heap w" "devices_ok ds" "i < length ds" for v ds i
    using that x by (intro Q inv_devices [OF that(1) _ X]) (auto simp: seat)
  have devs: "devices_ok (cl_devices x)" using inv_client(2) [OF ok x] .
  have found: "devices_ok ((cl_devices x)[i := (cl_devices x ! i)\<lparr>ref_cnt := ref_cnt (cl_devices x ! i) + 1\<rparr>])" "i < length (cl_devices x)"
    if "scan_devices p (cl_devices x) 0 1 = Inl i" for p i
    using scan_devices_found [OF that] devices_ok_ref [OF devs] by auto
  show ?thesis
    unfolding seat_open_device_def
    using x seat st ok active
    by (auto simp: wp_simps data_eq Let_def found device_type_of_normal
        intro!: none upd devices_ok_new [OF devs] wp_calls_inv [OF sys_calls] wp_calls_inv [OF sys_val_calls] wp_calls_inv [OF device_calls(1)]
        split: option.split sum.split)
qed

lemma seat_find_device_inv:
  assumes "client_heap w c = Some x"
    and "\<And>r w'. pdata w' = pdata w \<Longrightarrow> (\<And>i. r = Some i \<Longrightarrow> i < length (cl_devices x)) \<Longrightarrow> Q r w'"
  shows "wp (seat_find_device c did) Q w"
  unfolding seat_find_device_def
  using assms(1) by (auto simp: wp_simps intro!: assms(2) dest: find_index_Some split: option.split)

end
