(* ===== verification/Client_Inv.thy ===== *)
theory Client_Inv
  imports Client Seat_Vt_Inv
begin

text \<open>
  The operations of \<open>seatd/client.c\<close> keep the invariant of the server's data and fail no
  assertion: creating and destroying a client, every request, and the handler of a client's
  connection. While a client's handler runs, the client is protected; only the handler itself
  destroys it.
\<close>

section \<open>Creating a client\<close>

lemma inv_fresh:
  assumes "world_ok g X Y w"
  shows "client_heap w (next_addr w) = None" "\<not> in_some_list w (next_addr w)"
proof -
  show free: "client_heap w (next_addr w) = None"
    using invD(3) [OF assms, of "next_addr w"] by (cases "client_heap w (next_addr w)") auto
  have "next_addr w \<notin> set (seat_clients st)" if "seat_heap w s = Some st" for s st
    using inv_seat_client [OF assms that] free by force
  moreover have "next_addr w \<notin> set (idle_clients (the_server w))"
    using assms free by (auto simp: world_ok_def links_ok_def)
  ultimately show "\<not> in_some_list w (next_addr w)"
    by (auto simp: in_some_list_def split: option.splits)
qed

lemma client_create_inv:
  assumes ok: "world_ok g X Y w"
    and none: "\<And>w'. world_ok g X Y w' \<Longrightarrow> Q None w'"
    and some: "\<And>c x w'. world_ok g X (insert c Y) w' \<Longrightarrow> client_heap w' c = Some x \<Longrightarrow> X c = None \<Longrightarrow>
      c \<notin> g_clients g \<Longrightarrow> cl_server x \<Longrightarrow> cl_event_source x = None \<Longrightarrow> Q (Some c) w'"
  shows "wp (client_create k fd) Q w"
proof -
  let ?x = "\<lambda>pid uid gid. \<lparr>cl_link_null = False, cl_server = True, cl_event_source = None,
    cl_connection = new_connection fd, cl_pid = pid, cl_uid = uid, cl_gid = gid,
    cl_seat = None, cl_session = -1, cl_state = CLIENT_NEW, cl_devices = []\<rparr>"
  have fresh: "X (next_addr w) = None"
    using invD(8) [OF ok] inv_fresh(1) [OF ok] by (metis not_Some_eq)
  have created: "Q (Some c) w'"
    if "pdata w' = pdata (w\<lparr>next_addr := Suc c, client_heap := (client_heap w)(c \<mapsto> ?x pid uid gid),
      the_server := (the_server w)\<lparr>idle_clients := c # idle_clients (the_server w)\<rparr>\<rparr>)" and c: "c = next_addr w" for w' c pid uid gid
  proof (rule some)
    have "world_ok g X (insert c Y) (w\<lparr>next_addr := Suc c, client_heap := (client_heap w)(c \<mapsto> ?x pid uid gid),
        the_server := (the_server w)\<lparr>idle_clients := c # idle_clients (the_server w)\<rparr>\<rparr>)"
      by (rule inv_new_client [OF ok c]) (simp_all add: client_ok_def new_connection_ok, simp add: new_connection_def)
    then show "world_ok g X (insert c Y) w'" using world_ok_data [OF that(1)] by simp
    show "client_heap w' c = Some (?x pid uid gid)" using that by (simp add: data_eq)
    show "X c = None" using fresh c by simp
    show "c \<notin> g_clients g" using invD(5) [OF ok, of c] inv_fresh(1) [OF ok] c by auto
  qed simp_all
  have free: "\<not> in_some_list v (next_addr w)" if "seat_heap v = seat_heap w" "the_server v = the_server w" for v
    using inv_fresh(2) [OF ok] that by (simp add: in_some_list_def)
  show ?thesis
    unfolding client_create_def get_peer_def calloc_def insert_idle_def
    using ok by (auto simp: wp_simps Let_def data_eq free intro!: none created split: prod.split)
qed

section \<open>Destroying a client\<close>

text \<open>A client under destruction may lack the pointer to the server.\<close>

lemma inv_client_busy:
  assumes "world_ok g X Y w" and "client_heap w c = Some x" and "X c = None" and "client_ok y" and "c \<in> Y"
    and "cl_seat y = cl_seat x" "on_duty y = on_duty x" "cl_link_null y = cl_link_null x"
    and "cl_event_source y = cl_event_source x" and "pending (cl_connection y) \<le> g_input g c"
  shows "world_ok g X Y (w\<lparr>client_heap := (client_heap w)(c \<mapsto> y)\<rparr>)"
proof -
  let ?H = "(client_heap w)(c \<mapsto> y)"
  have "seat_ok b ?H s st" if "seat_ok b (client_heap w) s st" for b s st
    using that assms(2,6,7) by (auto simp: seat_ok_def)
  moreover have "links_ok X ?H (seat_heap w) (idle_clients (the_server w))"
    using assms by (auto simp: world_ok_def links_ok_def linked_at_def)
  moreover have "sources_ok Y ?H (the_poller w)"
    using assms by (simp add: world_ok_def sources_ok_def)
  ultimately show ?thesis
    using assms(1,2,4,10) by (auto simp: world_ok_def clients_ok_def seats_ok_def)
qed

text \<open>The end of \<open>client_destroy\<close>, once the client is in no list.\<close>

lemma client_free_inv:
  assumes ok: "world_ok g (X(c \<mapsto> x)) Y w" and none: "cl_event_source x = None" and seat: "cl_seat x = None" and X: "X c = None"
    and Q: "\<And>w'. world_ok (g\<lparr>g_clients := g_clients g - {c}\<rparr>) X (Y - {c}) w' \<Longrightarrow> client_heap w' c = None \<Longrightarrow> Q () w'"
  shows "wp (do {
     on_connection c (\<lambda>n. do { n \<leftarrow> connection_close_fds k n; State_Monad.return ((), n) });
     x \<leftarrow> get_client c;
     assert_that (cl_devices x = []);
     free_client c
   }) Q w"
proof -
  have x: "client_heap w c = Some x" using invD(8) [OF ok, of c] by simp
  have devs: "cl_devices x = []" using inv_client(3) [OF ok x seat] .
  have "world_ok (g\<lparr>g_clients := g_clients g - {c}\<rparr>) X (Y - {c}) (w\<lparr>client_heap := (client_heap w)(c := None)\<rparr>)"
    using inv_free_client [OF ok, of c x] none X by (simp add: fun_upd_idem)
  then have keep: "world_ok (g\<lparr>g_clients := g_clients g - {c}\<rparr>) X (Y - {c}) w'"
    if "pdata w' = pdata (w\<lparr>client_heap := (client_heap w)(c := None)\<rparr>)" for w'
    using world_ok_data [OF that] by simp
  show ?thesis
    using x devs
    by (auto simp: on_connection_def wp_simps data_eq intro!: wp_data_calls [OF connection_close_fds_calls] Q keep)
qed

lemma client_unlinked_inv:
  assumes ok: "world_ok g (X(c \<mapsto> x)) Y w" and Y: "c \<in> Y" and seat: "cl_seat x = None" and X: "X c = None"
    and Q: "\<And>w'. world_ok (g\<lparr>g_clients := g_clients g - {c}\<rparr>) X (Y - {c}) w' \<Longrightarrow> client_heap w' c = None \<Longrightarrow> Q () w'"
  shows "wp (do {
     x \<leftarrow> get_client c;
     _ \<leftarrow> (case cl_event_source x of
         None \<Rightarrow> State_Monad.return ()
       | Some a \<Rightarrow> do {
           _ \<leftarrow> event_source_fd_destroy a;
           upd_client c (\<lambda>x. x\<lparr>cl_event_source := None\<rparr>)
         });
     on_connection c (\<lambda>n. do { n \<leftarrow> connection_close_fds k n; State_Monad.return ((), n) });
     x \<leftarrow> get_client c;
     assert_that (cl_devices x = []);
     free_client c
   }) Q w"
proof (cases "cl_event_source x")
  case None
  have x: "client_heap w c = Some x" using invD(8) [OF ok, of c] by simp
  show ?thesis
    using client_free_inv [where X = X and c = c and Q = Q, OF ok None seat X Q] x None by (simp add: wp_bind wp_get_client wp_return)
next
  case (Some a)
  let ?y = "x\<lparr>cl_event_source := None\<rparr>"
  have x: "client_heap w c = Some x" using invD(8) [OF ok, of c] by simp
  have free: "wp (do {
       on_connection c (\<lambda>n. do { n \<leftarrow> connection_close_fds k n; State_Monad.return ((), n) });
       x \<leftarrow> get_client c;
       assert_that (cl_devices x = []);
       free_client c
     }) Q v" if "world_ok g (X(c \<mapsto> x, c \<mapsto> ?y)) Y v" for v
    using that seat by (intro client_free_inv [where X = X and c = c and Q = Q and x = ?y, OF _ _ _ X Q]) simp_all
  show ?thesis
    using x Some
    by (simp only: wp_bind wp_get_client option.case)
      (rule event_source_fd_destroy_client [OF ok, of c x]; simp add: Some Y x wp_upd_client free [unfolded wp_bind wp_get_client])
qed

text \<open>A seat that exists can be protected for a while.\<close>

lemma world_ok_hold_seat:
  assumes "world_ok g X Y w" and "seat_heap w s = Some st"
  shows "world_ok (g\<lparr>g_seats := insert s (g_seats g)\<rparr>) X Y w"
  using assms by (auto simp: world_ok_def seats_ok_def)

lemma world_ok_release_seat: "world_ok (g\<lparr>g_seats := insert s (g_seats g)\<rparr>) X Y w \<Longrightarrow> world_ok g X Y w"
  by (erule world_ok_weaken) auto

lemma seat_remove_client_keeps:
  assumes ok: "world_ok g X Y w" and x: "client_heap w c = Some x" and seat: "cl_seat x = Some s" and X: "X c = None"
    and send: "send_ok k"
    and Q: "\<And>w'. world_ok g (X(c \<mapsto> x\<lparr>cl_link_null := False, cl_devices := [], cl_state := CLIENT_CLOSED, cl_seat := None\<rparr>)) Y w' \<Longrightarrow> Q () w'"
  shows "wp (seat_remove_client k c) Q w"
proof -
  obtain st where "seat_heap w s = Some st"
    using inv_member [OF ok x seat X] by auto
  from world_ok_hold_seat [OF ok this] show ?thesis
    by (rule seat_remove_client_inv [where X = X and c = c, OF _ x seat X _ send]) (auto intro!: Q dest: world_ok_release_seat)
qed

text \<open>Taking a client off its list, whether it is idle or already in none.\<close>

lemma inv_detached_lists:
  assumes "world_ok g (X(c \<mapsto> x)) Y w"
  shows "\<And>s st. seat_heap w s = Some st \<Longrightarrow> c \<notin> set (seat_clients st)" "c \<notin> set (idle_clients (the_server w))"
proof -
  have "unlinked_from (seat_heap w) (idle_clients (the_server w)) c"
    using assms by (simp add: world_ok_def links_ok_def)
  then show "\<And>s st. seat_heap w s = Some st \<Longrightarrow> c \<notin> set (seat_clients st)" "c \<notin> set (idle_clients (the_server w))"
    by (auto simp: unlinked_from_def)
qed

lemma client_link_remove_detached:
  assumes ok: "world_ok g (X(c \<mapsto> x)) Y w" and link: "\<not> cl_link_null x"
    and Q: "\<And>w'. world_ok g (X(c \<mapsto> x\<lparr>cl_link_null := True\<rparr>)) Y w' \<Longrightarrow> Q () w'"
  shows "wp (client_link_remove c) Q w"
proof -
  have x: "client_heap w c = Some x" using invD(8) [OF ok, of c] by simp
  have seats: "(\<lambda>s. map_option (\<lambda>st. st\<lparr>seat_clients := remove1 c (seat_clients st)\<rparr>) (seat_heap w s)) = seat_heap w"
    by (rule remove1_seats) (rule inv_detached_lists(1) [OF ok])
  have idle: "(the_server w)\<lparr>idle_clients := remove1 c (idle_clients (the_server w))\<rparr> = the_server w"
    using inv_detached_lists(2) [OF ok] by (simp add: remove1_idem)
  have "world_ok g (X(c \<mapsto> x, c \<mapsto> x\<lparr>cl_link_null := True\<rparr>)) Y (w\<lparr>client_heap := (client_heap w)(c \<mapsto> x\<lparr>cl_link_null := True\<rparr>)\<rparr>)"
    using invD(3,9) [OF ok x] by (intro inv_detached_upd [OF ok]) (simp_all add: client_ok_def)
  then show ?thesis
    using x link by (auto simp: client_link_remove_def wp_simps seats idle intro!: Q)
qed

lemma client_link_remove_idle:
  assumes ok: "world_ok g X Y w" and x: "client_heap w c = Some x" and X: "X c = None" and seat: "cl_seat x = None"
    and Q: "\<And>w'. world_ok g (X(c \<mapsto> x\<lparr>cl_link_null := True\<rparr>)) Y w' \<Longrightarrow> Q () w'"
  shows "wp (client_link_remove c) Q w"
proof -
  have seats: "(\<lambda>s. map_option (\<lambda>st. st\<lparr>seat_clients := remove1 c (seat_clients st)\<rparr>) (seat_heap w s)) = seat_heap w"
    by (rule remove1_seats) (rule inv_free_link [OF ok x seat])
  have "world_ok g (X(c \<mapsto> x\<lparr>cl_link_null := True\<rparr>)) Y (w\<lparr>client_heap := (client_heap w)(c \<mapsto> x\<lparr>cl_link_null := True\<rparr>),
      the_server := (the_server w)\<lparr>idle_clients := remove1 c (idle_clients (the_server w))\<rparr>\<rparr>)" (is "world_ok _ _ _ ?v")
    by (rule inv_unlink_idle [OF ok x X seat refl])
  then have keep: "world_ok g (X(c \<mapsto> x\<lparr>cl_link_null := True\<rparr>)) Y w'" if "pdata w' = pdata ?v" for w'
    using world_ok_data [OF that] by simp
  show ?thesis
    using x inv_linked(1) [OF ok x X] by (auto simp: client_link_remove_def wp_simps seats data_eq intro!: Q keep)
qed

lemma client_destroy_inv:
  assumes ok: "world_ok g X Y w" and x: "client_heap w c = Some x" and X: "X c = None" and send: "send_ok k"
    and Q: "\<And>w'. world_ok (g\<lparr>g_clients := g_clients g - {c}\<rparr>) X (Y - {c}) w' \<Longrightarrow> client_heap w' c = None \<Longrightarrow> Q () w'"
  shows "wp (client_destroy k c) Q w"
proof -
  let ?Y = "insert c Y"
  have ok': "world_ok g X ?Y w" using world_ok_Y [OF ok] by blast
  have off: "world_ok g X ?Y w'"
    if w': "pdata w' = pdata (w\<lparr>client_heap := (client_heap w)(c \<mapsto> y)\<rparr>)"
      and y: "y = x\<lparr>cl_server := False\<rparr> \<or> y = x\<lparr>cl_server := False, cl_connection := (cl_connection x)\<lparr>conn_fd := -1\<rparr>\<rparr>" for w' y
  proof -
    have "client_ok y" using invD(3) [OF ok x] y by (auto simp: client_ok_def conn_ok_def)
    then have "world_ok g X ?Y (w\<lparr>client_heap := (client_heap w)(c \<mapsto> y)\<rparr>)"
      using invD(9) [OF ok x] y by (intro inv_client_busy [OF ok' x X]) (auto simp: on_duty_def)
    then show ?thesis using world_ok_data [OF w'] by simp
  qed
  define rest where "rest = do {
      x \<leftarrow> get_client c;
      _ \<leftarrow> (case cl_event_source x of
          None \<Rightarrow> State_Monad.return ()
        | Some a \<Rightarrow> do {
            _ \<leftarrow> event_source_fd_destroy a;
            upd_client c (\<lambda>x. x\<lparr>cl_event_source := None\<rparr>)
          });
      on_connection c (\<lambda>n. do { n \<leftarrow> connection_close_fds k n; State_Monad.return ((), n) });
      x \<leftarrow> get_client c;
      assert_that (cl_devices x = []);
      free_client c
    }"
  have gone: "wp rest Q v" if "world_ok g (X(c \<mapsto> y)) ?Y v" "cl_seat y = None" for v y
    unfolding rest_def
    by (rule client_unlinked_inv [where X = X and c = c, OF that(1) _ that(2) X]) (use Q in auto)
  have idle: "wp (client_link_remove c) (\<lambda>_. wp rest Q) v"
    if v: "world_ok g X ?Y v" and y: "client_heap v c = Some y" "cl_seat y = None" for v y
    by (rule client_link_remove_idle [where X = X, OF v y(1) X y(2)], rule gone, assumption) (simp add: y)
  have seat: "wp (seat_remove_client k c) (\<lambda>_. wp (client_link_remove c) (\<lambda>_. wp rest Q)) v"
    if v: "world_ok g X ?Y v" and y: "client_heap v c = Some y" "cl_seat y = Some s" for v y s
    by (rule seat_remove_client_keeps [where X = X, OF v y X send],
        erule client_link_remove_detached [where X = X and c = c], simp, erule gone) simp
  show ?thesis
    unfolding client_destroy_def rest_def [symmetric]
    using x
    by (auto simp: wp_simps Let_def data_eq intro!: seat [OF off] idle [OF off])
qed

section \<open>Requests\<close>

text \<open>Between two handlers no client is in transit.\<close>

abbreviation (input) steady :: "guard \<Rightarrow> world \<Rightarrow> bool" where
  "steady g \<equiv> world_ok g Map.empty {}"

lemma find_seat_wp:
  "set ss \<subseteq> dom (seat_heap w) \<Longrightarrow>
     wp (find_seat name ss) Q w = Q (List.find (\<lambda>s. seat_name (the (seat_heap w s)) = name) ss) w"
  by (induction ss) (auto simp: wp_simps)

lemma server_get_seat_inv:
  assumes ok: "world_ok g X Y w" and none: "Q None w"
    and some: "\<And>s st. seat_heap w s = Some st \<Longrightarrow> seat_name st = name \<Longrightarrow> s \<in> set (seats (the_server w)) \<Longrightarrow> Q (Some s) w"
  shows "wp (server_get_seat name) Q w"
proof -
  let ?P = "\<lambda>s. seat_name (the (seat_heap w s)) = name"
  have dom: "set (seats (the_server w)) = dom (seat_heap w)"
    using ok by (simp add: world_ok_def seats_ok_def)
  have "Q (List.find ?P (seats (the_server w))) w"
  proof (cases "List.find ?P (seats (the_server w))")
    case (Some s)
    with dom obtain st where "seat_heap w s = Some st" "s \<in> set (seats (the_server w))"
      using find_Some_mem [OF Some] by (metis domD)
    with Some some show ?thesis using find_Some_mem [OF Some] by simp
  qed (simp add: none)
  then show ?thesis
    unfolding server_get_seat_def using dom by (simp add: wp_simps find_seat_wp)
qed

text \<open>A reply to a protected client.\<close>

lemma client_reply_inv:
  assumes "steady g w" and "c \<in> g_clients g" and "send_ok k" and "\<forall>b \<in> set bs. length b \<le> 256"
    and Q: "\<And>r w'. steady g w' \<Longrightarrow> Q r w'"
  shows "wp (client_put k c bs) Q w"
proof -
  obtain x where "client_heap w c = Some x" using invD(5) [OF assms(1,2)] by auto
  then show ?thesis
    by (rule client_put_inv [where X = Map.empty and c = c, OF assms(1) _ _ assms(3,4)]) (simp_all add: Q)
qed

lemma client_error_inv:
  assumes "steady g w" and "c \<in> g_clients g" and "send_ok k" and Q: "\<And>r w'. steady g w' \<Longrightarrow> Q r w'"
  shows "wp (client_send_error k c e) Q w"
  unfolding client_send_error_def
  by (rule client_reply_inv [OF assms(1-3)]) (simp_all add: length_int_bytes Q)

lemma length_u16_bytes [simp]: "length (u16_bytes n) = 2"
  by (simp add: u16_bytes_def)

lemma handle_open_seat_inv:
  assumes ok: "steady g w" and c: "c \<in> g_clients g" and send: "send_ok k" and Q: "\<And>r w'. steady g w' \<Longrightarrow> Q r w'"
  shows "wp (handle_open_seat k c) Q w"
proof -
  obtain x where x: "client_heap w c = Some x" using invD(5) [OF ok c] by auto
  have server: "cl_server x" using inv_ready(1) [OF ok x] by simp
  have opened: "wp (seat_open_client k s c) Q' v"
    if v: "steady g v" "client_heap v c = Some y" "cl_seat y = Some s"
      and Q': "\<And>r w'. steady g w' \<Longrightarrow> Q' r w'" for v y s Q'
  proof -
    obtain st where "seat_heap v s = Some st"
      using inv_member [OF v(1,2)] v(3) by auto
    then show ?thesis
      using v Q' send by (intro seat_open_client_inv [where X = Map.empty and c = c]) auto
  qed
  have put: "wp (client_put k c bs) Q' v"
    if "steady g v" "client_heap v c = Some y" "\<forall>b \<in> set bs. length b \<le> 256"
      "\<And>r w' n. steady g w' \<Longrightarrow> client_heap w' c = Some (y\<lparr>cl_connection := n\<rparr>) \<Longrightarrow> Q' r w'" for v y bs Q'
    using that by (intro client_put_inv [where X = Map.empty and c = c, OF _ _ _ send]) auto
  show ?thesis
    unfolding handle_open_seat_def Let_def
    using x server ok
    by (auto simp: wp_simps client_get_seat_name_def
        intro!: server_get_seat_inv [OF ok] Q seat_add_client_inv [where X = Map.empty, OF ok x] put opened)
qed

text \<open>A client that left its seat becomes idle again.\<close>

lemma insert_idle_inv:
  assumes ok: "world_ok g (Map.empty(c \<mapsto> x)) {} w" and seat: "cl_seat x = None"
    and Q: "\<And>w'. steady g w' \<Longrightarrow> Q () w'"
  shows "wp (insert_idle c) Q w"
proof -
  have x: "client_heap w c = Some x" using invD(8) [OF ok, of c] by simp
  have free: "\<not> in_some_list w c"
    using inv_detached_lists [OF ok] by (auto simp: in_some_list_def split: option.splits)
  have "world_ok g (Map.empty(c \<mapsto> x, c := None)) {} (w\<lparr>client_heap := (client_heap w)(c \<mapsto> x\<lparr>cl_link_null := False\<rparr>),
      the_server := (the_server w)\<lparr>idle_clients := c # idle_clients (the_server w)\<rparr>\<rparr>)" (is "world_ok _ _ _ ?v")
    by (rule inv_link_idle [OF ok, of c x]) (simp_all add: seat)
  then have keep: "steady g w'" if "pdata w' = pdata ?v" for w'
    using world_ok_data [OF that] by simp
  show ?thesis
    using x free by (auto simp: insert_idle_def wp_simps data_eq intro!: Q keep)
qed

lemma handle_close_seat_inv:
  assumes ok: "steady g w" and c: "c \<in> g_clients g" and send: "send_ok k" and Q: "\<And>r w'. steady g w' \<Longrightarrow> Q r w'"
  shows "wp (handle_close_seat k c) Q w"
proof -
  obtain x where x: "client_heap w c = Some x" using invD(5) [OF ok c] by auto
  have idle: "wp (do {
       x \<leftarrow> get_client c;
       assert_that (cl_server x);
       insert_idle c;
       client_put k c [proto_header SERVER_SEAT_CLOSED 0]
     }) Q v" if v: "world_ok g (Map.empty(c \<mapsto> y)) {} v" and y: "cl_seat y = None" for v y
  proof -
    have heap: "client_heap v c = Some y" using invD(8) [OF v, of c] by simp
    have "cl_server y" using inv_ready(1) [OF v heap] by simp
    then show ?thesis
      using heap by (auto simp: wp_simps intro!: insert_idle_inv [OF v y] client_reply_inv [OF _ c send] Q)
  qed
  show ?thesis
  proof (cases "cl_seat x")
    case None
    then show ?thesis using x ok by (simp add: handle_close_seat_def wp_simps Q)
  next
    case (Some s)
    have "wp (seat_remove_client k c) (\<lambda>_. wp (do {
         x \<leftarrow> get_client c;
         assert_that (cl_server x);
         insert_idle c;
         client_put k c [proto_header SERVER_SEAT_CLOSED 0]
       }) Q) w"
      by (rule seat_remove_client_keeps [where X = Map.empty, OF ok x Some _ send], simp, erule idle) simp
    then show ?thesis
      using x Some by (simp add: handle_close_seat_def wp_simps)
  qed
qed

lemma inv_seat_of:
  assumes "steady g w" and "client_heap w c = Some x" and "cl_seat x = Some s"
  shows "\<exists>st. seat_heap w s = Some st"
  using inv_member [OF assms] by auto

lemma put_fd_inv:
  assumes ok: "steady g w" and x: "client_heap w c = Some x" and Q: "\<And>r w'. steady g w' \<Longrightarrow> Q r w'"
  shows "wp (on_connection c (\<lambda>n. connection_put_fd n fd)) Q w"
proof -
  have "wp (connection_put_fd (cl_connection x) fd) (\<lambda>(r, n) _. conn_ok n \<and> pending n \<le> g_input g c \<and> True) w"
    using inv_client(1) [OF ok x] invD(9) [OF ok x]
    by (auto simp: connection_put_fd_def connection_buffer_put_def wp_simps conn_ok_def length_int_bytes
        ring.store_ok ring.store_abs)
  from on_connection_wp [where X = Map.empty and f = "\<lambda>n. connection_put_fd n fd" and P = "\<lambda>_ _. True", OF ok x _ _ this]
  have "wp (on_connection c (\<lambda>n. connection_put_fd n fd)) (\<lambda>_ w'. steady g w') w"
    by (rule wp_mono) (auto intro: io_calls_imp_step connection_put_fd_calls)
  then show ?thesis by (rule wp_mono) (rule Q)
qed

lemma handle_open_device_inv:
  assumes ok: "steady g w" and c: "c \<in> g_clients g" and send: "send_ok k" and Q: "\<And>r w'. steady g w' \<Longrightarrow> Q r w'"
  shows "wp (handle_open_device k c path) Q w"
proof -
  obtain x where x: "client_heap w c = Some x" using invD(5) [OF ok c] by auto
  have reply: "wp (client_put k c [proto_header opcode n, int_bytes d]) Q v" if "steady g v" for v d opcode n
    by (rule client_reply_inv [OF that c send]) (simp_all add: length_int_bytes Q)
  have close: "wp (seat_close_device k c i) (\<lambda>_ s. wp (client_send_error k c (errno s)) Q s) v"
    if "steady g v" "client_heap v c = Some (x\<lparr>cl_devices := ds\<rparr>)" "i < length ds" "cl_seat x = Some s" for v ds i s
    by (rule seat_close_device_inv [where X = Map.empty, OF that(1,2)])
      (use that in \<open>auto intro!: client_error_inv [OF _ c send] Q\<close>)
  show ?thesis
    unfolding handle_open_device_def
    using x ok
    by (auto simp: wp_simps Let_def data_eq
        intro!: Q seat_open_device_inv [where X = Map.empty, OF ok x] client_error_inv [OF _ c send] close put_fd_inv reply
        split: option.split)
qed

lemma handle_close_device_inv:
  assumes ok: "steady g w" and c: "c \<in> g_clients g" and send: "send_ok k" and Q: "\<And>r w'. steady g w' \<Longrightarrow> Q r w'"
  shows "wp (handle_close_device k c dev) Q w"
proof -
  obtain x where x: "client_heap w c = Some x" using invD(5) [OF ok c] by auto
  have keep: "steady g w'" if "pdata w' = pdata w" for w' using ok world_ok_data [OF that] by simp
  have close: "wp (seat_close_device k c i) (\<lambda>_. wp (client_put k c [proto_header opcode n]) Q) v"
    if "pdata v = pdata w" "i < length (cl_devices x)" "cl_seat x = Some s" for v i s opcode n
    by (rule seat_close_device_inv [where X = Map.empty, OF keep [OF that(1)], of _ x])
      (use that x in \<open>auto simp: data_eq intro!: client_reply_inv [OF _ c send] Q\<close>)
  show ?thesis
    unfolding handle_close_device_def
    using x ok
    by (auto simp: wp_simps intro!: Q seat_find_device_inv [OF x] client_error_inv [OF _ c send] close keep split: option.split)
qed

lemma handle_switch_session_inv:
  assumes ok: "steady g w" and c: "c \<in> g_clients g" and send: "send_ok k" and Q: "\<And>r w'. steady g w' \<Longrightarrow> Q r w'"
  shows "wp (handle_switch_session k c session) Q w"
proof -
  obtain x where x: "client_heap w c = Some x" using invD(5) [OF ok c] by auto
  then show ?thesis
    unfolding handle_switch_session_def
    using ok by (auto simp: wp_simps intro!: Q seat_set_next_session_inv [where X = Map.empty, OF ok x _ send]
      client_error_inv [OF _ c send] client_reply_inv [OF _ c send])
qed

lemma handle_disable_seat_inv:
  assumes ok: "steady g w" and c: "c \<in> g_clients g" and send: "send_ok k" and Q: "\<And>r w'. steady g w' \<Longrightarrow> Q r w'"
  shows "wp (handle_disable_seat k c) Q w"
proof -
  obtain x where x: "client_heap w c = Some x" using invD(5) [OF ok c] by auto
  then show ?thesis
    unfolding handle_disable_seat_def
    using ok by (auto simp: wp_simps intro!: Q seat_ack_disable_client_inv [where X = Map.empty, OF ok x _ send]
      client_error_inv [OF _ c send] client_reply_inv [OF _ c send])
qed

lemma handle_ping_inv:
  assumes "steady g w" and "c \<in> g_clients g" and "send_ok k" and "\<And>r w'. steady g w' \<Longrightarrow> Q r w'"
  shows "wp (handle_ping k c) Q w"
  unfolding handle_ping_def by (rule client_reply_inv [OF assms(1-3)]) (simp_all add: assms(4))

section \<open>Messages\<close>

lemma client_get_inv:
  assumes ok: "steady g w" and x: "client_heap w c = Some x"
    and Q: "\<And>r w' n. steady g w' \<Longrightarrow> client_heap w' c = Some (x\<lparr>cl_connection := n\<rparr>) \<Longrightarrow>
      (if len \<le> pending (cl_connection x)
       then r = Some (take len (contents (cin (cl_connection x)))) \<and> pending n = pending (cl_connection x) - len \<and>
         connection_restore n len = cl_connection x
       else r = None) \<Longrightarrow> Q r w'"
  shows "wp (client_get c len) Q w"
proof -
  let ?n = "cl_connection x"
  let ?P = "\<lambda>r n. if len \<le> pending ?n
    then r = Some (take len (contents (cin ?n))) \<and> pending n = pending ?n - len \<and> connection_restore n len = ?n
    else r = None"
  have "wp (connection_get ?n len) (\<lambda>(r, n) _. conn_ok n \<and> pending n \<le> g_input g c \<and> ?P r n) w"
    by (rule wp_mono [OF connection_get_wp [OF inv_client(1) [OF ok x]]]) (use invD(9) [OF ok x] in \<open>auto split: if_splits\<close>)
  from on_connection_wp [where X = Map.empty and f = "\<lambda>n. connection_get n len" and P = ?P, OF ok x _ _ this]
  have "wp (client_get c len) (\<lambda>r w'. steady g w' \<and> (\<exists>n. client_heap w' c = Some (x\<lparr>cl_connection := n\<rparr>) \<and> ?P r n)) w"
    unfolding client_get_def by (rule wp_mono) (auto intro: io_calls_imp_step connection_get_calls)
  then show ?thesis
    by (rule wp_mono) (elim conjE exE, rule Q)
qed

lemma client_take_inv:
  assumes ok: "steady g w" and c: "c \<in> g_clients g" and Q: "\<And>r w'. steady g w' \<Longrightarrow> Q r w'"
  shows "wp (client_get c len) Q w"
proof -
  obtain x where "client_heap w c = Some x" using invD(5) [OF ok c] by auto
  then show ?thesis by (rule client_get_inv [OF ok]) (rule Q)
qed

lemma open_device_message_inv:
  assumes ok: "steady g w" and c: "c \<in> g_clients g" and send: "send_ok k" and Q: "\<And>r w'. steady g w' \<Longrightarrow> Q r w'"
  shows "wp (open_device_message k c len) Q w"
  unfolding open_device_message_def
  using ok by (auto simp: wp_simps Let_def intro!: Q client_take_inv [OF _ c] handle_open_device_inv [OF _ c send] split: option.split)

lemma int_message_inv:
  assumes ok: "steady g w" and c: "c \<in> g_clients g" and Q: "\<And>r w'. steady g w' \<Longrightarrow> Q r w'"
    and handle: "\<And>i w'. steady g w' \<Longrightarrow> wp (handle i) Q w'"
  shows "wp (int_message c len handle) Q w"
  unfolding int_message_def
  using ok by (auto simp: wp_simps intro!: Q client_take_inv [OF _ c] handle split: option.split)

lemma client_flush_keeps:
  assumes ok: "steady g w" and c: "c \<in> g_clients g" and send: "send_ok k" and Q: "\<And>r w'. steady g w' \<Longrightarrow> Q r w'"
  shows "wp (client_flush k c) Q w"
proof -
  obtain x where "client_heap w c = Some x" using invD(5) [OF ok c] by auto
  then show ?thesis by (rule client_flush_inv [where X = Map.empty, OF ok _ _ send]) (simp_all add: Q)
qed

lemma client_handle_opcode_inv:
  assumes ok: "steady g w" and c: "c \<in> g_clients g" and send: "send_ok k" and Q: "\<And>r w'. steady g w' \<Longrightarrow> Q r w'"
  shows "wp (client_handle_opcode k c opcode len) Q w"
  unfolding client_handle_opcode_def
  using ok
  by (auto simp: wp_simps intro!: Q client_flush_keeps [OF _ c send] handle_open_seat_inv [OF _ c send]
      handle_close_seat_inv [OF _ c send] open_device_message_inv [OF _ c send] int_message_inv [OF _ c]
      handle_close_device_inv [OF _ c send] handle_switch_session_inv [OF _ c send]
      handle_disable_seat_inv [OF _ c send] handle_ping_inv [OF _ c send])

lemma client_restore_inv:
  assumes ok: "steady g w" and x: "client_heap w c = Some (x\<lparr>cl_connection := n\<rparr>)"
    and n: "connection_restore n len = n'" "conn_ok n'" "pending n' \<le> g_input g c" and Q: "\<And>w'. steady g w' \<Longrightarrow> Q () w'"
  shows "wp (on_connection c (\<lambda>n. State_Monad.return ((), connection_restore n len))) Q w"
proof -
  have "wp (State_Monad.return ((), connection_restore n len)) (\<lambda>(r, n) _. conn_ok n \<and> pending n \<le> g_input g c \<and> True) w"
    using n by (simp add: wp_simps)
  then have "wp (on_connection c (\<lambda>n. State_Monad.return ((), connection_restore n len))) (\<lambda>_ w'. steady g w') w"
    by (intro wp_mono [OF on_connection_wp [where X = Map.empty and P = "\<lambda>_ _. True", OF ok x]]) (auto intro!: step.rules)
  then show ?thesis by (rule wp_mono) (simp add: Q)
qed

lemma client_messages_inv:
  assumes c: "c \<in> g_clients g" and send: "send_ok k" and Q: "\<And>r w'. steady g w' \<Longrightarrow> Q r w'"
  shows "steady g w \<Longrightarrow> wp (client_messages n k c) Q w"
proof (induction n arbitrary: w)
  case 0
  then show ?case by (simp add: wp_simps Q)
next
  case (Suc n)
  obtain x where x: "client_heap w c = Some x" using invD(5) [OF Suc.prems c] by auto
  have old: "conn_ok (cl_connection x)" "pending (cl_connection x) \<le> g_input g c"
    using inv_client(1) [OF Suc.prems x] invD(9) [OF Suc.prems x] .
  show ?case
    unfolding client_messages.simps
    by (auto simp: wp_simps old intro!: Q Suc.IH client_get_inv [OF Suc.prems x] client_restore_inv
        client_handle_opcode_inv [OF _ c send] split: option.split if_splits)
qed

text \<open>
  Every round takes a header off the input, and no handler adds input, so that a quarter of the
  pending bytes, plus one, are enough rounds: more make no difference.
\<close>

lemma wp_cong_on: "wp m P w \<Longrightarrow> (\<And>r w'. P r w' \<Longrightarrow> Q r w' = Q' r w') \<Longrightarrow> wp m Q w = wp m Q' w"
  by (auto simp: wp_def split: prod.splits)

lemma client_messages_fuel:
  assumes c: "c \<in> g_clients g" and send: "send_ok k"
  shows "steady (g\<lparr>g_input := (g_input g)(c := b)\<rparr>) w \<Longrightarrow> b < 4 * n \<Longrightarrow>
    wp (client_messages (n + m) k c) Q w = wp (client_messages n k c) Q w"
proof (induction n arbitrary: b w)
  case (Suc n)
  let ?g = "\<lambda>b. g\<lparr>g_input := (g_input g)(c := b)\<rparr>"
  obtain x where x: "client_heap w c = Some x" using invD(5) [OF Suc.prems(1)] c by auto
  have bound: "pending (cl_connection x) \<le> b" using invD(9) [OF Suc.prems(1) x] by simp
  let ?P = "\<lambda>r w'. r \<noteq> None \<longrightarrow> 4 \<le> b \<and> steady (?g (b - 4)) w' \<and> (\<exists>y. client_heap w' c = Some y)"
  have get: "wp (client_get c 4) ?P w"
  proof (rule client_get_inv [OF Suc.prems(1) x], intro impI)
    fix r w' n
    assume w': "steady (?g b) w'" and y: "client_heap w' c = Some (x\<lparr>cl_connection := n\<rparr>)"
      and r: "if 4 \<le> pending (cl_connection x) then r = Some (take 4 (contents (cin (cl_connection x)))) \<and>
        pending n = pending (cl_connection x) - 4 \<and> connection_restore n 4 = cl_connection x else r = None" and "r \<noteq> None"
    then have "4 \<le> pending (cl_connection x)" "pending n \<le> b - 4" using bound by (auto split: if_splits)
    moreover from this have "steady ((?g b)\<lparr>g_input := (g_input (?g b))(c := b - 4)\<rparr>) w'"
      using y by (intro world_ok_input [OF w']) simp
    ultimately show "4 \<le> b \<and> steady (?g (b - 4)) w' \<and> (\<exists>y. client_heap w' c = Some y)"
      using bound y by simp
  qed
  have opcode: "wp (client_handle_opcode k c opcode len)
        (\<lambda>r. wp (if r = -1 then State_Monad.return (-1) else client_messages (n + m) k c) Q) v =
      wp (client_handle_opcode k c opcode len)
        (\<lambda>r. wp (if r = -1 then State_Monad.return (-1) else client_messages n k c) Q) v"
    if v: "steady (?g (b - 4)) v" "4 \<le> b" for v opcode len
  proof (rule wp_cong_on)
    show "wp (client_handle_opcode k c opcode len) (\<lambda>_. steady (?g (b - 4))) v"
      by (rule client_handle_opcode_inv [OF v(1) _ send]) (simp_all add: c)
    fix r w' assume "steady (?g (b - 4)) w'"
    then have "wp (client_messages (n + m) k c) Q w' = wp (client_messages n k c) Q w'"
      by (rule Suc.IH) (use Suc.prems(2) v(2) in arith)
    then show "wp (if r = -1 then State_Monad.return (-1) else client_messages (n + m) k c) Q w' =
        wp (if r = -1 then State_Monad.return (-1) else client_messages n k c) Q w'" by simp
  qed
  show ?case
    unfolding add_Suc client_messages.simps wp_bind
    by (rule wp_cong_on [OF get]) (auto simp: wp_simps opcode [unfolded wp_simps])
qed simp

section \<open>The connection handler\<close>

lemma client_writable_inv:
  assumes ok: "steady g w" and c: "c \<in> g_clients g" and send: "send_ok k" and Q: "\<And>r w'. steady g w' \<Longrightarrow> Q r w'"
  shows "wp (client_writable k c) Q w"
proof -
  obtain x where x: "client_heap w c = Some x" using invD(5) [OF ok c] by auto
  obtain a where a: "cl_event_source x = Some a" using inv_ready(2) [OF ok x] by auto
  have upd: "wp (event_source_fd_update a ev) (\<lambda>_. Q r) v"
    if "steady g v" "client_heap v c = Some (x\<lparr>cl_connection := n\<rparr>)" for v n ev r
    by (rule event_source_fd_update_inv [OF that(1) inv_source [OF that]]) (simp_all add: a Q)
  show ?thesis
    unfolding client_writable_def
    using a by (auto simp: wp_simps intro!: flush_inv [where X = Map.empty, OF ok x _ send] Q upd)
qed

lemma client_read_inv:
  assumes ok: "steady g w" and x: "client_heap w c = Some x" and recv: "recv_ok k" and input: "256 \<le> g_input g c"
    and Q: "\<And>r w'. steady g w' \<Longrightarrow> Q r w'"
  shows "wp (on_connection c (connection_read k)) Q w"
proof -
  have "wp (connection_read k (cl_connection x)) (\<lambda>(r, n) _. conn_ok n \<and> pending n \<le> g_input g c \<and> True) w"
    by (rule wp_mono [OF connection_read_wp [OF inv_client(1) [OF ok x] recv]])
      (use input in \<open>auto simp: conn_ok_def buffer_ok_def\<close>)
  from on_connection_wp [where X = Map.empty and f = "connection_read k" and P = "\<lambda>_ _. True", OF ok x _ connection_read_step this]
  have "wp (on_connection c (connection_read k)) (\<lambda>_ w'. steady g w') w"
    by (rule wp_mono) auto
  then show ?thesis by (rule wp_mono) (rule Q)
qed

lemma client_readable_inv:
  assumes ok: "steady g w" and c: "c \<in> g_clients g" and send: "send_ok k" and recv: "recv_ok k"
    and input: "256 \<le> g_input g c" and Q: "\<And>r w'. steady g w' \<Longrightarrow> Q r w'"
  shows "wp (client_readable k c) Q w"
proof -
  obtain x where x: "client_heap w c = Some x" using invD(5) [OF ok c] by auto
  show ?thesis
    unfolding client_readable_def
    by (auto simp: wp_simps simp del: client_messages.simps intro!: client_read_inv [OF ok x recv input] Q client_messages_inv [OF c send])
qed

lemma client_handle_connection_inv:
  assumes ok: "steady g w" and c: "c \<in> g_clients g" and send: "send_ok k" and recv: "recv_ok k"
    and input: "256 \<le> g_input g c" and Q: "\<And>r w'. steady (g\<lparr>g_clients := g_clients g - {c}\<rparr>) w' \<Longrightarrow> Q r w'"
  shows "wp (client_handle_connection k c ev) Q w"
proof -
  have keep: "steady (g\<lparr>g_clients := g_clients g - {c}\<rparr>) w'" if "steady g w'" for w'
    using that by (rule world_ok_weaken) auto
  have destroy: "wp (client_destroy k c) (\<lambda>_. Q r) v" if v: "steady g v" for v r
  proof -
    obtain x where "client_heap v c = Some x" using invD(5) [OF v c] by auto
    then show ?thesis
      by (rule client_destroy_inv [where X = Map.empty, OF v _ _ send]) (simp_all add: Q)
  qed
  show ?thesis
    unfolding client_handle_connection_def
    using ok by (auto simp: wp_simps intro!: destroy Q keep client_writable_inv [OF _ c send] client_readable_inv [OF _ c send recv input])
qed

end
