(* ===== verification/Control_Inv.thy ===== *)
theory Control_Inv
  imports Control Client_Inv
begin

text \<open>
  The operations of \<open>seatd/control.c\<close> keep the invariant of the server's data and fail no
  assertion: the requests of control clients, their connection handler, and the handler that
  accepts them.
\<close>

section \<open>Requests\<close>

lemma control_reply_inv:
  assumes ok: "steady g w" and c: "c \<in> g_controls g" and send: "send_ok k" and Q: "\<And>r w'. steady g w' \<Longrightarrow> Q r w'"
  shows "wp (control_send_error k c e) Q w" "wp (control_send_ok k c) Q w"
    "wp (control_send_group_vt_created k c pid vt) Q w" "wp (control_send_vt_state k c opcode vt) Q w"
proof -
  obtain y where y: "control_heap w c = Some y" using invD(7) [OF ok c] by auto
  note rules = control_send_inv [where Q = Q, OF ok y send Q]
  show "wp (control_send_error k c e) Q w" "wp (control_send_ok k c) Q w"
    "wp (control_send_group_vt_created k c pid vt) Q w" "wp (control_send_vt_state k c opcode vt) Q w"
    by (rule rules, assumption)+
qed

lemma control_get_inv:
  assumes ok: "steady g w" and y: "control_heap w c = Some y"
    and Q: "\<And>r w' n. steady g w' \<Longrightarrow> control_heap w' c = Some (y\<lparr>cc_connection := n\<rparr>) \<Longrightarrow>
      (if len \<le> pending (cc_connection y)
       then r = Some (take len (contents (cin (cc_connection y)))) \<and> pending n = pending (cc_connection y) - len \<and>
         connection_restore n len = cc_connection y
       else r = None) \<Longrightarrow> Q r w'"
  shows "wp (control_get c len) Q w"
proof -
  let ?n = "cc_connection y"
  let ?P = "\<lambda>r n. if len \<le> pending ?n
    then r = Some (take len (contents (cin ?n))) \<and> pending n = pending ?n - len \<and> connection_restore n len = ?n
    else r = None"
  have "wp (connection_get ?n len) (\<lambda>(r, n) _. conn_ok n \<and> pending n \<le> g_cinput g c \<and> ?P r n) w"
    by (rule wp_mono [OF connection_get_wp]) (use invD(10) [OF ok y] in \<open>auto split: if_splits\<close>)
  from on_control_connection_wp [where f = "\<lambda>n. connection_get n len" and P = ?P, OF ok y _ this]
  have "wp (control_get c len) (\<lambda>r w'. steady g w' \<and> (\<exists>n. control_heap w' c = Some (y\<lparr>cc_connection := n\<rparr>) \<and> ?P r n)) w"
    unfolding control_get_def by (rule wp_mono) (auto intro: io_calls_imp_step connection_get_calls)
  then show ?thesis
    by (rule wp_mono) (elim conjE exE, rule Q)
qed

lemma control_take_inv:
  assumes ok: "steady g w" and c: "c \<in> g_controls g" and Q: "\<And>r w'. steady g w' \<Longrightarrow> Q r w'"
  shows "wp (control_get c len) Q w"
proof -
  obtain y where "control_heap w c = Some y" using invD(7) [OF ok c] by auto
  then show ?thesis by (rule control_get_inv [OF ok]) (rule Q)
qed

lemma find_owner_inv:
  assumes ok: "steady g w" and none: "Q None w"
    and some: "\<And>c x. client_heap w c = Some x \<Longrightarrow> cl_pid x = pid \<Longrightarrow> Q (Some c) w"
  shows "set ss \<subseteq> dom (seat_heap w) \<Longrightarrow> wp (find_owner pid ss) Q w"
proof (induction ss)
  case Nil
  show ?case by (simp add: wp_simps none)
next
  case (Cons s ss)
  then obtain st where st: "seat_heap w s = Some st" by auto
  let ?r = "List.find (\<lambda>c. cl_pid (the (client_heap w c)) = pid) (seat_clients st)"
  have "Q (Some c) w" if "?r = Some c" for c
  proof -
    from find_Some_mem [OF that] inv_seat_client [OF ok st] obtain x where "client_heap w c = Some x" by blast
    then show ?thesis using find_Some_mem [OF that] some by simp
  qed
  then show ?case
    using Cons st by (auto simp: wp_simps find_client_wp [OF inv_clients_dom [OF ok st]] split: option.split)
qed

lemma world_ok_hold_client:
  "world_ok g X Y w \<Longrightarrow> client_heap w c = Some x \<Longrightarrow> world_ok (g\<lparr>g_clients := insert c (g_clients g)\<rparr>) X Y w"
  by (auto simp: world_ok_def clients_ok_def)

lemma world_ok_release_client: "world_ok (g\<lparr>g_clients := insert c (g_clients g)\<rparr>) X Y w \<Longrightarrow> world_ok g X Y w"
  by (erule world_ok_weaken) auto

lemma handle_create_group_vt_inv:
  assumes ok: "steady g w" and c: "c \<in> g_controls g" and send: "send_ok k" and Q: "\<And>r w'. steady g w' \<Longrightarrow> Q r w'"
  shows "wp (handle_create_group_vt k c) Q w"
proof -
  have find: "wp (control_find_owner_client pid) Q' v"
    if "steady g v" "Q' None v" "\<And>ow x. client_heap v ow = Some x \<Longrightarrow> Q' (Some ow) v" for v pid Q'
    unfolding control_find_owner_client_def wp_simps
    by (rule find_owner_inv [where Q = Q', OF that(1,2)]) (use that in \<open>auto simp: world_ok_def seats_ok_def\<close>)
  have create: "wp (seat_create_group_vt k s ow vt user session) Q' v"
    if v: "steady g v" "client_heap v ow = Some x" "cl_seat x = Some s"
      and Q': "\<And>r w' y. steady g w' \<Longrightarrow> client_heap w' ow = Some y \<Longrightarrow> Q' r w'" for v ow x s vt user session Q'
  proof -
    obtain st where st: "seat_heap v s = Some st" using inv_seat_of [OF v] by auto
    show ?thesis
    proof (rule seat_create_group_vt_inv [where X = Map.empty, OF world_ok_hold_client [OF v(1,2)] st v(2)])
      fix r w' assume w': "steady (g\<lparr>g_clients := insert ow (g_clients g)\<rparr>) w'"
      then obtain y where "client_heap w' ow = Some y" using invD(5) [OF w', of ow] by auto
      with world_ok_release_client [OF w'] show "Q' r w'" by (rule Q')
    qed simp
  qed
  show ?thesis
    unfolding handle_create_group_vt_def
    using ok
    by (auto simp: wp_simps Let_def intro!: control_take_inv [OF _ c] Q find create control_reply_inv [OF _ c send] split: option.split)
qed

lemma with_seat0_inv:
  assumes ok: "steady g w" and c: "c \<in> g_controls g" and send: "send_ok k" and Q: "\<And>r w'. steady g w' \<Longrightarrow> Q r w'"
    and f: "\<And>s st. seat_heap w s = Some st \<Longrightarrow> wp (f s) Q w"
  shows "wp (with_seat0 k c f) Q w"
  unfolding with_seat0_def
  using ok by (auto simp: wp_simps intro!: server_get_seat_inv [OF ok] control_reply_inv [OF _ c send] Q f)

lemma handle_vt_requests_inv:
  assumes ok: "steady g w" and c: "c \<in> g_controls g" and send: "send_ok k" and Q: "\<And>r w'. steady g w' \<Longrightarrow> Q r w'"
  shows "wp (handle_destroy_group_vt k c) Q w" "wp (handle_get_active_vt k c) Q w"
    "wp (handle_find_free_vt k c) Q w" "wp (handle_switch_vt k c) Q w"
  unfolding handle_destroy_group_vt_def handle_get_active_vt_def handle_find_free_vt_def handle_switch_vt_def
  using ok
  by (auto simp: wp_simps intro!: control_take_inv [OF _ c] with_seat0_inv [OF _ c send] Q control_reply_inv [OF _ c send]
      seat_destroy_group_vt_inv seat_get_active_vt_inv seat_find_available_vt_inv seat_switch_vt_inv)

lemma control_client_handle_opcode_inv:
  assumes ok: "steady g w" and c: "c \<in> g_controls g" and send: "send_ok k" and Q: "\<And>r w'. steady g w' \<Longrightarrow> Q r w'"
  shows "wp (control_client_handle_opcode k c opcode len) Q w"
  unfolding control_client_handle_opcode_def
  using ok
  by (auto simp: wp_simps intro!: Q control_reply_inv(1) [OF _ c send] handle_create_group_vt_inv [OF _ c send]
      handle_vt_requests_inv [OF _ c send])

section \<open>Messages\<close>

lemma control_restore_inv:
  assumes ok: "steady g w" and y: "control_heap w c = Some (y\<lparr>cc_connection := n\<rparr>)"
    and n: "connection_restore n len = n'" "conn_ok n'" "pending n' \<le> g_cinput g c" and Q: "\<And>w'. steady g w' \<Longrightarrow> Q () w'"
  shows "wp (on_control_connection c (\<lambda>n. State_Monad.return ((), connection_restore n len))) Q w"
proof -
  have "wp (State_Monad.return ((), connection_restore n len)) (\<lambda>(r, n) _. conn_ok n \<and> pending n \<le> g_cinput g c \<and> True) w"
    using n by (simp add: wp_simps)
  then have "wp (on_control_connection c (\<lambda>n. State_Monad.return ((), connection_restore n len))) (\<lambda>_ w'. steady g w') w"
    by (intro wp_mono [OF on_control_connection_wp [where P = "\<lambda>_ _. True", OF ok y]]) (auto intro!: step.rules)
  then show ?thesis by (rule wp_mono) (simp add: Q)
qed

lemma control_messages_inv:
  assumes c: "c \<in> g_controls g" and send: "send_ok k" and Q: "\<And>r w'. steady g w' \<Longrightarrow> Q r w'"
  shows "steady g w \<Longrightarrow> wp (control_messages n k c) Q w"
proof (induction n arbitrary: w)
  case 0
  then show ?case by (simp add: wp_simps Q)
next
  case (Suc n)
  obtain y where y: "control_heap w c = Some y" using invD(7) [OF Suc.prems c] by auto
  have old: "conn_ok (cc_connection y)" "pending (cc_connection y) \<le> g_cinput g c"
    using invD(10) [OF Suc.prems y] by auto
  show ?case
    unfolding control_messages.simps
    by (auto simp: wp_simps old intro!: Q Suc.IH control_get_inv [OF Suc.prems y] control_restore_inv
        control_client_handle_opcode_inv [OF _ c send] split: option.split if_splits)
qed

text \<open>As for clients, a quarter of the pending bytes, plus one, are enough rounds.\<close>

lemma control_messages_fuel:
  assumes c: "c \<in> g_controls g" and send: "send_ok k"
  shows "steady (g\<lparr>g_cinput := (g_cinput g)(c := b)\<rparr>) w \<Longrightarrow> b < 4 * n \<Longrightarrow>
    wp (control_messages (n + m) k c) Q w = wp (control_messages n k c) Q w"
proof (induction n arbitrary: b w)
  case (Suc n)
  let ?g = "\<lambda>b. g\<lparr>g_cinput := (g_cinput g)(c := b)\<rparr>"
  obtain y where y: "control_heap w c = Some y" using invD(7) [OF Suc.prems(1)] c by auto
  have bound: "pending (cc_connection y) \<le> b" using invD(10) [OF Suc.prems(1) y] by simp
  let ?P = "\<lambda>r w'. r \<noteq> None \<longrightarrow> 4 \<le> b \<and> steady (?g (b - 4)) w' \<and> (\<exists>y. control_heap w' c = Some y)"
  have get: "wp (control_get c 4) ?P w"
  proof (rule control_get_inv [OF Suc.prems(1) y], intro impI)
    fix r w' n
    assume w': "steady (?g b) w'" and z: "control_heap w' c = Some (y\<lparr>cc_connection := n\<rparr>)"
      and r: "if 4 \<le> pending (cc_connection y) then r = Some (take 4 (contents (cin (cc_connection y)))) \<and>
        pending n = pending (cc_connection y) - 4 \<and> connection_restore n 4 = cc_connection y else r = None" and "r \<noteq> None"
    then have "4 \<le> pending (cc_connection y)" "pending n \<le> b - 4" using bound by (auto split: if_splits)
    moreover from this have "steady ((?g b)\<lparr>g_cinput := (g_cinput (?g b))(c := b - 4)\<rparr>) w'"
      using z by (intro world_ok_cinput [OF w']) simp
    ultimately show "4 \<le> b \<and> steady (?g (b - 4)) w' \<and> (\<exists>y. control_heap w' c = Some y)"
      using bound z by simp
  qed
  have opcode: "wp (control_client_handle_opcode k c opcode len)
        (\<lambda>r. wp (if r = -1 then State_Monad.return (-1) else control_messages (n + m) k c) Q) v =
      wp (control_client_handle_opcode k c opcode len)
        (\<lambda>r. wp (if r = -1 then State_Monad.return (-1) else control_messages n k c) Q) v"
    if v: "steady (?g (b - 4)) v" "4 \<le> b" for v opcode len
  proof (rule wp_cong_on)
    show "wp (control_client_handle_opcode k c opcode len) (\<lambda>_. steady (?g (b - 4))) v"
      by (rule control_client_handle_opcode_inv [OF v(1) _ send]) (simp_all add: c)
    fix r w' assume "steady (?g (b - 4)) w'"
    then have "wp (control_messages (n + m) k c) Q w' = wp (control_messages n k c) Q w'"
      by (rule Suc.IH) (use Suc.prems(2) v(2) in arith)
    then show "wp (if r = -1 then State_Monad.return (-1) else control_messages (n + m) k c) Q w' =
        wp (if r = -1 then State_Monad.return (-1) else control_messages n k c) Q w'" by simp
  qed
  show ?case
    unfolding add_Suc control_messages.simps wp_bind
    by (rule wp_cong_on [OF get]) (auto simp: wp_simps opcode [unfolded wp_simps])
qed simp

section \<open>The connection handlers\<close>

lemma control_writable_inv:
  assumes ok: "steady g w" and c: "c \<in> g_controls g" and send: "send_ok k" and Q: "\<And>r w'. steady g w' \<Longrightarrow> Q r w'"
  shows "wp (control_writable k c) Q w"
proof -
  obtain y where y: "control_heap w c = Some y" using invD(7) [OF ok c] by auto
  obtain a where a: "cc_event_source y = Some a" using inv_control_source [OF ok y] by auto
  have upd: "wp (event_source_fd_update a ev) Q v"
    if "steady g v" "control_heap v c = Some (y\<lparr>cc_connection := n\<rparr>)" for v n ev
    by (rule control_update_inv [OF that]) (simp_all add: a Q)
  show ?thesis
    unfolding control_writable_def
    using a by (auto simp: wp_simps intro!: control_flush_inv [OF ok y send] Q upd)
qed

lemma control_readable_inv:
  assumes ok: "steady g w" and c: "c \<in> g_controls g" and send: "send_ok k" and recv: "recv_ok k"
    and input: "256 \<le> g_cinput g c" and Q: "\<And>r w'. steady g w' \<Longrightarrow> Q r w'"
  shows "wp (control_readable k c) Q w"
proof -
  obtain y where y: "control_heap w c = Some y" using invD(7) [OF ok c] by auto
  have "wp (connection_read k (cc_connection y)) (\<lambda>(r, n) _. conn_ok n \<and> pending n \<le> g_cinput g c \<and> True) w"
    by (rule wp_mono [OF connection_read_wp [OF _ recv]])
      (use input invD(10) [OF ok y] in \<open>auto simp: conn_ok_def buffer_ok_def\<close>)
  from on_control_connection_wp [where f = "connection_read k" and P = "\<lambda>_ _. True", OF ok y connection_read_step this]
  have read: "wp (on_control_connection c (connection_read k)) Q' w" if "\<And>r w'. steady g w' \<Longrightarrow> Q' r w'" for Q'
    by (rule wp_mono) (auto intro: that)
  show ?thesis
    unfolding control_readable_def
    by (auto simp: wp_simps simp del: control_messages.simps intro!: read Q control_messages_inv [OF c send])
qed

lemma control_client_handle_connection_inv:
  assumes ok: "steady g w" and c: "c \<in> g_controls g" and send: "send_ok k" and recv: "recv_ok k"
    and input: "256 \<le> g_cinput g c" and Q: "\<And>r w'. steady (g\<lparr>g_controls := g_controls g - {c}\<rparr>) w' \<Longrightarrow> Q r w'"
  shows "wp (control_client_handle_connection k c ev) Q w"
proof -
  have keep: "steady (g\<lparr>g_controls := g_controls g - {c}\<rparr>) w'" if "steady g w'" for w'
    using that by (rule world_ok_weaken) auto
  have destroy: "wp (control_client_destroy k c) (\<lambda>_. Q r) v" if v: "steady g v" for v r
  proof -
    obtain y where "control_heap v c = Some y" using invD(7) [OF v c] by auto
    then show ?thesis by (rule control_client_destroy_inv [OF v]) (rule Q)
  qed
  show ?thesis
    unfolding control_client_handle_connection_def
    using ok
    by (auto simp: wp_simps intro!: destroy Q keep control_writable_inv [OF _ c send] control_readable_inv [OF _ c send recv input])
qed

lemma control_create_inv:
  assumes ok: "steady g w" and y: "y = \<lparr>cc_event_source = None, cc_connection = new_connection fd,
      cc_pid = pid, cc_uid = uid, cc_gid = gid\<rparr>" and Q: "\<And>r w'. steady g w' \<Longrightarrow> Q r w'"
    and w': "pdata w' = pdata (w\<lparr>next_addr := Suc (next_addr w), control_heap := (control_heap w)(next_addr w \<mapsto> y),
      the_server := (the_server w)\<lparr>control_clients := next_addr w # control_clients (the_server w)\<rparr>\<rparr>)"
  shows "wp (do {
     e \<leftarrow> poller_add_fd k fd ev (Control_client_handle_connection (next_addr w));
     upd_control (next_addr w) (\<lambda>x. x\<lparr>cc_event_source := e\<rparr>);
     if e = None then do { control_client_destroy k (next_addr w); State_Monad.return 0 }
     else State_Monad.return 0
   }) Q w'"
proof -
  let ?c = "next_addr w" and ?s = "the_server w"
  let ?e = "\<lparr>es_func = Control_client_handle_connection ?c, es_fd = fd, es_mask = ev, es_killed = False, pollfd_idx = -1\<rparr>"
  have fresh: "control_heap w ?c = None" "?c \<notin> set (control_clients ?s)"
  proof -
    have "controls_ok (g_controls g) (g_cinput g) (control_heap w) (control_clients ?s) (the_poller w) ?c"
      using ok by (simp add: world_ok_def)
    then have "?c \<notin> dom (control_heap w)" "set (control_clients ?s) = dom (control_heap w)"
      by (auto simp: controls_ok_def)
    then show "control_heap w ?c = None" "?c \<notin> set (control_clients ?s)" by auto
  qed
  have "steady g (w\<lparr>next_addr := Suc (Suc ?c), the_poller := added (Suc ?c) ?e (the_poller w),
      control_heap := (control_heap w)(?c \<mapsto> y\<lparr>cc_event_source := Some (Suc ?c)\<rparr>),
      the_server := ?s\<lparr>control_clients := ?c # control_clients ?s\<rparr>\<rparr>)" (is "steady g ?v")
    by (rule inv_new_control [OF ok refl refl]) (simp_all add: y new_connection_ok, simp add: new_connection_def)
  then have created: "steady g v" if "pdata v = pdata ?v" for v
    using world_ok_data [OF that] by simp
  have "steady g (w\<lparr>next_addr := Suc ?c\<rparr>)" by (rule world_ok_next [OF ok]) simp
  then have dropped: "steady g v" if "pdata v = pdata (w\<lparr>next_addr := Suc ?c\<rparr>)" for v
    using world_ok_data [OF that] by simp
  have failed: "wp (control_client_destroy k ?c) (\<lambda>_. Q 0) v"
    if "pdata v = pdata w'" for v
  proof -
    have v: "control_heap v ?c = Some y" "?c \<in> set (control_clients (the_server v))" "cc_event_source y = None"
      using that w' by (simp_all add: data_eq y)
    show ?thesis
      by (rule wp_mono [OF control_client_destroy_wp [OF v(1,2)]])
        (use v(3) that w' fresh in \<open>auto simp: data_eq without_control_def fun_upd_idem intro!: Q dropped\<close>)
  qed
  show ?thesis
    using w' y
    by (auto simp: wp_simps Let_def data_eq intro!: Q created failed)
qed

lemma control_handle_connection_inv:
  assumes ok: "steady g w" and Q: "\<And>r w'. steady g w' \<Longrightarrow> Q r w'"
  shows "wp (control_handle_connection k fd ev) Q w"
proof -
  define rest :: "nat \<Rightarrow> int \<Rightarrow> (world, int) state" where "rest c new_fd = do {
     e \<leftarrow> poller_add_fd k new_fd EVENT_READABLE (Control_client_handle_connection c);
     upd_control c (\<lambda>x. x\<lparr>cc_event_source := e\<rparr>);
     if e = None then do { control_client_destroy k c; State_Monad.return 0 }
     else State_Monad.return 0
   }" for c new_fd
  have create: "wp (rest c new_fd) Q v"
    if "pdata v = pdata (w\<lparr>next_addr := Suc c, control_heap := (control_heap w)(c \<mapsto>
        \<lparr>cc_event_source = None, cc_connection = new_connection new_fd, cc_pid = pid, cc_uid = uid, cc_gid = gid\<rparr>),
        the_server := (the_server w)\<lparr>control_clients := c # control_clients (the_server w)\<rparr>\<rparr>)"
      and c: "c = next_addr w" for v c new_fd pid uid gid
    unfolding rest_def c by (rule control_create_inv [OF ok refl Q that(1) [unfolded c]])
  have keep: "steady g v" if "pdata v = pdata w" for v
    using ok world_ok_data [OF that] by simp
  have prepare: "state_io_rel os_calls (prepare_control_fd k new_fd)" for new_fd
    unfolding prepare_control_fd_def by (intro calls.rules calls_frame)
  have close: "wp (sys_val k (Sys_close new_fd)) (\<lambda>_. Q r) v" if "pdata v = pdata w" for v r new_fd
    using that by (auto intro!: wp_data_calls [OF sys_val_calls] Q keep)
  define admit :: "int \<Rightarrow> int \<Rightarrow> int \<Rightarrow> int \<Rightarrow> (world, int) state" where "admit new_fd pid uid gid = do {
     a \<leftarrow> calloc k;
     case a of
       None \<Rightarrow> do { _ \<leftarrow> sys_val k (Sys_close new_fd); State_Monad.return 0 }
     | Some c \<Rightarrow> do {
         State_Monad.update (\<lambda>w. w\<lparr>control_heap := (control_heap w)(c \<mapsto>
           \<lparr>cc_event_source = None, cc_connection = new_connection new_fd, cc_pid = pid, cc_uid = uid, cc_gid = gid\<rparr>)\<rparr>);
         upd_server (\<lambda>v. v\<lparr>control_clients := c # control_clients v\<rparr>);
         rest c new_fd
       }
   }" for new_fd pid uid gid
  have admit: "wp (admit new_fd pid uid gid) Q v" if "pdata v = pdata w" for v new_fd pid uid gid
    unfolding admit_def calloc_def
    using that by (auto simp: wp_bind wp_return wp_if wp_case_option wp_update wp_upd_server wp_get data_eq
        intro!: wp_data_calls [OF sys_val_calls] close create)
  have peer: "wp (get_peer k new_fd) Q' v" if "pdata v = pdata w" "\<And>r u. pdata u = pdata w \<Longrightarrow> Q' r u" for Q' v new_fd
    unfolding get_peer_def using that by (auto simp: wp_bind wp_return intro!: wp_data_calls [OF sys_calls])
  show ?thesis
    unfolding control_handle_connection_def rest_def [symmetric] admit_def [symmetric]
    by (auto simp: wp_bind wp_return wp_if wp_case_option wp_case_prod
        intro!: Q ok keep wp_data_calls [OF prepare] wp_data_calls [OF sys_val_calls] peer close admit)
qed

end
