(* ===== verification/Server_Inv.thy ===== *)
theory Server_Inv
  imports Server Control_Inv
begin

text \<open>
  The handlers of \<open>seatd/server.c\<close> keep the invariant of the server's data and fail no
  assertion. All handlers together satisfy the contract of the event loop, so that a whole
  round of the loop keeps the invariant.
\<close>

section \<open>New connections\<close>

lemma server_set_calls [calls_frame]:
  "state_io_rel os_calls (server_set_cloexec k fd)" "state_io_rel os_calls (server_set_nonblock k fd)"
proof -
  show cloexec: "state_io_rel os_calls (server_set_cloexec k fd)" for fd
    unfolding server_set_cloexec_def by (intro calls.rules calls_frame)
  show "state_io_rel os_calls (server_set_nonblock k fd)"
    unfolding server_set_nonblock_def by (intro calls.rules calls_frame cloexec)
qed

lemma client_start_inv:
  assumes ok: "world_ok g Map.empty {c} w" and x: "client_heap w c = Some x" and c: "c \<notin> g_clients g"
    and new: "cl_server x" "cl_event_source x = None" and send: "send_ok k" and Q: "\<And>r w'. steady g w' \<Longrightarrow> Q r w'"
  shows "wp (do {
     e \<leftarrow> poller_add_fd k fd ev (Client_handle_connection c);
     upd_client c (\<lambda>x. x\<lparr>cl_event_source := e\<rparr>);
     if e = None then do { client_destroy k c; State_Monad.return (-1) }
     else State_Monad.return 0
   }) Q w"
proof -
  let ?e = "\<lparr>es_func = Client_handle_connection c, es_fd = fd, es_mask = ev, es_killed = False, pollfd_idx = -1\<rparr>"
  let ?v = "w\<lparr>next_addr := Suc (next_addr w), the_poller := added (next_addr w) ?e (the_poller w),
    client_heap := (client_heap w)(c \<mapsto> x\<lparr>cl_event_source := Some (next_addr w)\<rparr>)\<rparr>"
  have "world_ok g Map.empty {c} ?v"
    by (rule inv_add_source [OF ok x _ new(2) refl refl]) simp_all
  then have "steady g ?v"
    by (rule world_ok_Y_done [where c = c]) (use new(1) in auto)
  then have added: "steady g v" if "pdata v = pdata ?v" for v
    using world_ok_data [OF that] by simp
  have same: "x\<lparr>cl_event_source := None\<rparr> = x" using new(2) by simp
  have guard: "g\<lparr>g_clients := g_clients g - {c}\<rparr> = g" using c by simp
  have failed: "wp (client_destroy k c) (\<lambda>_. Q (-1)) v" if "pdata v = pdata w" for v
  proof (rule client_destroy_inv [where X = Map.empty and Y = "{c}" and x = x, OF _ _ _ send])
    show "world_ok g Map.empty {c} v" using ok world_ok_data [OF that] by simp
    show "client_heap v c = Some x" using that x by (simp add: data_eq)
  qed (auto simp: guard Q)
  show ?thesis
    using x by (auto simp: wp_simps Let_def data_eq same fun_upd_idem intro!: Q added failed)
qed

lemma server_add_client_inv:
  assumes ok: "steady g w" and send: "send_ok k" and Q: "\<And>r w'. steady g w' \<Longrightarrow> Q r w'"
  shows "wp (server_add_client k fd) Q w"
proof -
  define rest :: "nat \<Rightarrow> (world, int) state" where "rest c = do {
     e \<leftarrow> poller_add_fd k fd EVENT_READABLE (Client_handle_connection c);
     upd_client c (\<lambda>x. x\<lparr>cl_event_source := e\<rparr>);
     if e = None then do { client_destroy k c; State_Monad.return (-1) }
     else State_Monad.return 0
   }" for c
  have rest: "wp (rest c) Q v" if "world_ok g Map.empty {c} v" "client_heap v c = Some x" "c \<notin> g_clients g"
      "cl_server x" "cl_event_source x = None" for c v x
    unfolding rest_def by (rule client_start_inv [OF that send Q])
  show ?thesis
    unfolding server_add_client_def rest_def [symmetric]
    using ok by (auto simp: wp_bind wp_return wp_if wp_case_option
        intro!: wp_calls_inv [OF server_set_calls(2)] wp_calls_inv [OF sys_val_calls] Q client_create_inv rest)
qed

lemma inv_running [simp]:
  "world_ok g X Y (w\<lparr>the_server := (the_server w)\<lparr>running := b\<rparr>\<rparr>) = world_ok g X Y w"
  by (simp add: world_ok_def)

lemma server_handle_connection_inv:
  assumes ok: "steady g w" and send: "send_ok k" and Q: "\<And>r w'. steady g w' \<Longrightarrow> Q r w'"
  shows "wp (server_handle_connection k fd ev) Q w"
  unfolding server_handle_connection_def
  using ok by (auto simp: wp_bind wp_return wp_if wp_upd_server
      intro!: wp_calls_inv [OF sys_val_calls] Q server_add_client_inv [OF _ send])

section \<open>VT events and signals\<close>

text \<open>What a complete message in the pipe of VT events holds: the number of the new VT.\<close>

definition vt_pipe_ok :: "kernel \<Rightarrow> bool" where
  "vt_pipe_ok k \<longleftrightarrow> (\<forall>h fd. let r = answer k h (Sys_read fd 8) in
     sr_val r = 8 \<longrightarrow> 0 \<le> bytes_int (drop 4 (sr_data r)))"

lemma vt_event_messages_inv:
  assumes send: "send_ok k" and pipe: "vt_pipe_ok k" and controls: "g_controls g = {}" and Q: "\<And>w'. steady g w' \<Longrightarrow> Q () w'"
  shows "steady g w \<Longrightarrow> wp (vt_event_messages n k fd) Q w"
proof (induction n arbitrary: w)
  case 0
  then show ?case by (simp add: wp_simps Q)
next
  case (Suc n)
  define r where "r = answer k (trace w) (Sys_read fd 8)"
  have event: "wp (server_get_seat name) (\<lambda>seat. wp (case seat of
           None \<Rightarrow> State_Monad.return ()
         | Some s \<Rightarrow> seat_handle_vt_event k s (bytes_int (take 4 (sr_data r))) (bytes_int (drop 4 (sr_data r))))
       (\<lambda>_. wp (vt_event_messages n k fd) Q)) v" if v: "steady g v" and r: "sr_val r = 8" for v name
  proof -
    have "0 \<le> bytes_int (drop 4 (sr_data r))"
      using pipe r by (auto simp: vt_pipe_ok_def Let_def r_def)
    then show ?thesis
      using v by (auto simp: wp_return intro!: server_get_seat_inv [OF v] Suc.IH
          seat_handle_vt_event_inv [where X = Map.empty, OF v _ send _ controls])
  qed
  show ?case
    using Suc.prems event [unfolded r_def] by (auto simp: wp_bind wp_sys wp_if wp_return Let_def intro!: Q)
qed

lemma server_handle_vt_event_inv:
  assumes ok: "steady g w" and send: "send_ok k" and pipe: "vt_pipe_ok k" and controls: "g_controls g = {}"
    and Q: "\<And>r w'. steady g w' \<Longrightarrow> Q r w'"
  shows "wp (server_handle_vt_event k fd ev) Q w"
  unfolding server_handle_vt_event_def
  using ok by (auto simp: wp_bind wp_return wp_if intro!: Q vt_event_messages_inv [OF send pipe controls])

lemma server_handle_signal_inv:
  assumes ok: "steady g w" and vt: "vt_signal (g_signals g)" and Q: "\<And>r w'. steady g w' \<Longrightarrow> Q r w'"
  shows "wp (server_handle_vt_acq k) Q w" "wp (server_handle_vt_rel k) Q w"
proof -
  have "vt_bound st \<longrightarrow> 0 \<le> cur_vt st" if "seat_heap w s = Some st" for s st
    using invD(4) [OF ok that] vt by (simp add: seat_ok_def)
  with ok show "wp (server_handle_vt_acq k) Q w" "wp (server_handle_vt_rel k) Q w"
    unfolding server_handle_vt_acq_def server_handle_vt_rel_def
    by (auto simp: wp_bind wp_return wp_case_option intro!: server_get_seat_inv [OF ok] Q
        seat_vt_activate_inv [OF ok] seat_vt_release_inv [OF ok])
qed

section \<open>The invariant between two rounds of the event loop\<close>

definition guard_at :: "poller \<Rightarrow> guard" where
  "guard_at p = \<lparr>g_sources = fst ` set (fds p), g_signals = signals p, g_clients = {}, g_seats = {},
     g_controls = {}, g_input = \<lambda>_. 256, g_cinput = \<lambda>_. 256\<rparr>"

definition server_ok :: "world \<Rightarrow> bool" where
  "server_ok w \<longleftrightarrow> steady (guard_at (the_poller w)) w"

lemma guard_at_simps [simp]:
  "g_sources (guard_at p) = fst ` set (fds p)" "g_signals (guard_at p) = signals p" "g_clients (guard_at p) = {}"
  "g_seats (guard_at p) = {}" "g_controls (guard_at p) = {}" "g_input (guard_at p) = (\<lambda>_. 256)" "g_cinput (guard_at p) = (\<lambda>_. 256)"
  "(guard_at p)\<lparr>g_clients := {}\<rparr> = guard_at p" "(guard_at p)\<lparr>g_controls := {}\<rparr> = guard_at p"
  by (simp_all add: guard_at_def)

text \<open>What the handlers need of the kernel.\<close>

definition kernel_ok :: "kernel \<Rightarrow> bool" where
  "kernel_ok k \<longleftrightarrow> send_ok k \<and> recv_ok k \<and> vt_pipe_ok k"

lemma steady_handled:
  assumes "steady (guard_at (the_poller w)) w'"
  shows "server_ok w' \<and> handled w w'"
proof -
  have poll: "poll_at (fst ` set (fds (the_poller w))) (signals (the_poller w)) (the_poller w') (next_addr w')"
    using assms by (simp add: world_ok_def)
  then have sig: "signals (the_poller w') = signals (the_poller w)" by (simp add: poll_at_def)
  have "handled w w'" using poll by (simp add: handled_def poll_at_def)
  moreover have "server_ok w'"
    using assms poll by (simp add: server_ok_def world_ok_def sig poll_at_def)
  ultimately show ?thesis by simp
qed

lemma call_fd_inv:
  assumes ok: "server_ok w" and k: "kernel_ok k" and live: "live_source (the_poller w) a f"
  shows "wp (call_fd k f fd ev) (\<lambda>_. steady (guard_at (the_poller w))) w"
proof -
  let ?g = "guard_at (the_poller w)"
  have st: "steady ?g w" using ok by (simp add: server_ok_def)
  have send: "send_ok k" and recv: "recv_ok k" and pipe: "vt_pipe_ok k" using k by (simp_all add: kernel_ok_def)
  show ?thesis
  proof (cases f)
    case (Client_handle_connection c)
    have "Option.bind (client_heap w c) cl_event_source = Some a"
      using st live Client_handle_connection by (simp add: world_ok_def sources_ok_def)
    then obtain x where x: "client_heap w c = Some x" by (auto simp: bind_eq_Some_conv)
    have "steady (?g\<lparr>g_clients := insert c (g_clients ?g)\<rparr>) w"
      by (rule world_ok_hold_client [OF st x])
    then show ?thesis
      unfolding Client_handle_connection call_fd.simps
      by (rule client_handle_connection_inv [OF _ _ send recv]) auto
  next
    case (Control_client_handle_connection c)
    have "Option.bind (control_heap w c) cc_event_source = Some a"
      using st live Control_client_handle_connection by (simp add: world_ok_def controls_ok_def)
    then obtain y where y: "control_heap w c = Some y" by (auto simp: bind_eq_Some_conv)
    have "steady (?g\<lparr>g_controls := insert c (g_controls ?g)\<rparr>) w"
      using st y by (auto simp: world_ok_def controls_ok_def)
    then show ?thesis
      unfolding Control_client_handle_connection call_fd.simps
      by (rule control_client_handle_connection_inv [OF _ _ send recv]) auto
  next
    case Server_handle_connection
    then show ?thesis by (simp add: server_handle_connection_inv [OF st send])
  next
    case Control_handle_connection
    then show ?thesis by (simp add: control_handle_connection_inv [OF st])
  next
    case Server_handle_vt_event
    then show ?thesis by (simp add: server_handle_vt_event_inv [OF st send pipe])
  qed
qed

lemma call_signal_inv:
  assumes ok: "server_ok w" and s: "(a, s) \<in> set (signals (the_poller w))" "ss_raised s" "\<not> ss_killed s"
  shows "wp (call_signal k (ss_func s) sig) (\<lambda>_. steady (guard_at (the_poller w))) w"
proof -
  have st: "steady (guard_at (the_poller w)) w" using ok by (simp add: server_ok_def)
  have vt: "vt_signal (g_signals (guard_at (the_poller w)))" if "ss_func s \<noteq> Server_handle_kill"
    using s that by (auto simp: vt_signal_def)
  show ?thesis
  proof (cases "ss_func s")
    case Server_handle_kill
    then show ?thesis using st by (simp add: server_handle_kill_def wp_simps)
  next
    case Server_handle_vt_rel
    then show ?thesis using server_handle_signal_inv(2) [OF st vt] by simp
  next
    case Server_handle_vt_acq
    then show ?thesis using server_handle_signal_inv(1) [OF st vt] by simp
  qed
qed

lemma seat_ok_no_signal: "seat_ok b H s st \<Longrightarrow> (b' \<longrightarrow> b) \<Longrightarrow> seat_ok b' H s st"
  by (auto simp: seat_ok_def)

lemma server_ok_frame:
  assumes ok: "server_ok w" and frame: "poll_frame w w'"
  shows "server_ok w'"
proof -
  let ?g = "guard_at (the_poller w)"
  have st: "steady ?g w" using ok by (simp add: server_ok_def)
  have more: "poll_os.more w' = poll_os.more w" and rest: "aborted w' = aborted w" "next_addr w' = next_addr w" "poll_inv w'"
    and live: "\<And>a f. live_source (the_poller w') a f = live_source (the_poller w) a f"
    and raised: "\<And>a s. (a, s) \<in> set (signals (the_poller w')) \<Longrightarrow> ss_raised s \<Longrightarrow> (a, s) \<in> set (signals (the_poller w))"
    using frame by (auto simp: poll_frame_def poll_step_def)
  have heaps: "client_heap w' = client_heap w" "seat_heap w' = seat_heap w" "control_heap w' = control_heap w" "the_server w' = the_server w"
    using more by (cases w; cases w'; simp)+
  have sig: "vt_signal (signals (the_poller w')) \<longrightarrow> vt_signal (signals (the_poller w))"
    using raised unfolding vt_signal_def by blast
  have "seats_ok (vt_signal (signals (the_poller w'))) {} (client_heap w) (seat_heap w) (seats (the_server w)) (next_addr w)"
    using st seat_ok_no_signal [OF _ sig] by (auto simp: world_ok_def seats_ok_def)
  moreover have "sources_ok {} (client_heap w) (the_poller w')"
    using st live by (simp add: world_ok_def sources_ok_def)
  moreover have "controls_ok {} (\<lambda>_. 256) (control_heap w) (control_clients (the_server w)) (the_poller w') (next_addr w)"
    using st live by (simp add: world_ok_def controls_ok_def)
  moreover have "poll_at (fst ` set (fds (the_poller w'))) (signals (the_poller w')) (the_poller w') (next_addr w)"
    using rest by (simp add: poll_at_def poll_inv_def)
  ultimately show ?thesis
    using st by (simp add: server_ok_def world_ok_def heaps rest)
qed

text \<open>The server's handlers satisfy the contract of the event loop; none changes the handled signals.\<close>

definition serving :: "kernel \<Rightarrow> (int \<times> signal_func) set \<Rightarrow> world \<Rightarrow> bool" where
  "serving k S w \<longleftrightarrow> kernel_ok k \<and> server_ok w \<and> signal_pairs (the_poller w) = S"

lemma steady_serving:
  assumes "serving k S w" and "steady (guard_at (the_poller w)) w'"
  shows "serving k S w' \<and> handled w w'"
proof -
  have "signals (the_poller w') = signals (the_poller w)"
    using assms(2) by (simp add: world_ok_def poll_at_def)
  then show ?thesis
    using assms(1) steady_handled [OF assms(2)] by (simp add: serving_def signal_pairs_def)
qed

interpretation srv: event_handlers "serving k S" "call_signal k" "call_fd k" for k S
proof
  fix w assume I: "serving k S w"
  then have k: "kernel_ok k" and ok: "server_ok w" by (auto simp: serving_def)
  then show "poll_inv w" using invD(2) by (auto simp: server_ok_def)
  show "serving k S w'" if "poll_frame w w'" for w'
    using I server_ok_frame [OF ok that] that by (simp add: serving_def poll_frame_def)
  show "wp (call_signal k (ss_func s) (ss_signal s)) (\<lambda>_ w'. serving k S w' \<and> handled w w') w"
    if "(a, s) \<in> set (signals (the_poller w))" "ss_raised s" "\<not> ss_killed s" for a s
    by (rule wp_mono [OF call_signal_inv [OF ok that]]) (rule steady_serving [OF I])
  show "wp (call_fd k f fd ev) (\<lambda>_ w'. serving k S w' \<and> handled w w') w"
    if "live_source (the_poller w) a f" for a f fd ev
    by (rule wp_mono [OF call_fd_inv [OF ok k that]]) (rule steady_serving [OF I])
qed

end
