(* ===== verification/Lifecycle.thy ===== *)
theory Lifecycle
  imports Server_Inv
begin

text \<open>
  Start and end of the server: \<open>server_init\<close> establishes the invariant, and \<open>server_finish\<close>
  destroys every client, control client and seat. Its loops end because the operations that
  destroy a client never put a client on a list.
\<close>

section \<open>Lists that only shrink\<close>

definition shrinks :: "world \<Rightarrow> world \<Rightarrow> bool" where
  "shrinks w w' \<longleftrightarrow> set (idle_clients (the_server w')) \<subseteq> set (idle_clients (the_server w)) \<and>
     set (seats (the_server w')) \<subseteq> set (seats (the_server w)) \<and>
     set (control_clients (the_server w')) \<subseteq> set (control_clients (the_server w)) \<and>
     (\<forall>s st'. seat_heap w' s = Some st' \<longrightarrow>
        (\<exists>st. seat_heap w s = Some st \<and> set (seat_clients st') \<subseteq> set (seat_clients st)))"

interpretation shrink: frame_rel shrinks
proof
  show "shrinks w w" for w by (auto simp: shrinks_def)
  show "shrinks u w" if uv: "shrinks u v" and vw: "shrinks v w" for u v w
  proof -
    have "\<exists>st. seat_heap u s = Some st \<and> set (seat_clients st') \<subseteq> set (seat_clients st)" if w: "seat_heap w s = Some st'" for s st'
    proof -
      obtain t where t: "seat_heap v s = Some t" "set (seat_clients st') \<subseteq> set (seat_clients t)"
        using vw w unfolding shrinks_def by blast
      obtain st where "seat_heap u s = Some st" "set (seat_clients t) \<subseteq> set (seat_clients st)"
        using uv t(1) unfolding shrinks_def by blast
      with t(2) show ?thesis by blast
    qed
    moreover have "set (idle_clients (the_server w)) \<subseteq> set (idle_clients (the_server u))"
      "set (seats (the_server w)) \<subseteq> set (seats (the_server u))"
      "set (control_clients (the_server w)) \<subseteq> set (control_clients (the_server u))"
      using uv vw by (auto simp: shrinks_def)
    ultimately show ?thesis by (simp add: shrinks_def)
  qed
qed

named_theorems shrink_frame "operations that put no client on a list"

lemma shrinks_same: "seat_heap w' = seat_heap w \<Longrightarrow> the_server w' = the_server w \<Longrightarrow> shrinks w w'"
  by (auto simp: shrinks_def)

lemma shrink_step: "state_io_rel os_step m \<Longrightarrow> state_io_rel shrinks m"
  by (rule state_io_relI) (auto dest!: state_io_relD simp: os_step_world intro!: shrinks_same)

lemmas shrink_calls = shrink_step [OF io_calls_imp_step]

lemma shrink_wp: "(\<And>w. wp m (\<lambda>_. shrinks w) w) \<Longrightarrow> state_io_rel shrinks m"
  by (rule state_io_relI) (auto dest: wpD)

lemma shrink_access [shrink_frame]:
  "state_io_rel shrinks (get_client c)" "state_io_rel shrinks (upd_client c f)" "state_io_rel shrinks (get_seat s)"
  "state_io_rel shrinks (get_control c)" "state_io_rel shrinks get_server" "state_io_rel shrinks (deref p)"
  "state_io_rel shrinks (assert_that b)" "state_io_rel shrinks (free_client c)" "state_io_rel shrinks (upd_control c h)"
  "state_io_rel shrinks (free_control c)" "state_io_rel shrinks set_stuck" "state_io_rel shrinks (sys_val k call)"
  "state_io_rel shrinks (set_errno e)" "state_io_rel shrinks get_errno"
  by (rule shrink_wp; auto simp: wp_simps Let_def intro!: shrinks_same split: option.split)+

lemma shrink_upd_seat [shrink_frame]:
  assumes "\<And>x. set (seat_clients (f x)) \<subseteq> set (seat_clients x)"
  shows "state_io_rel shrinks (upd_seat s f)"
  by (rule shrink_wp) (use assms in \<open>auto simp: wp_simps shrinks_def split: option.split\<close>)

lemma shrink_link [shrink_frame]:
  "state_io_rel shrinks (client_link_remove c)" "state_io_rel shrinks (client_link_init c)"
proof -
  show "state_io_rel shrinks (client_link_init c)"
    unfolding client_link_init_def by (intro shrink_frame)
  have "shrinks w (w\<lparr>seat_heap := (\<lambda>s. map_option (\<lambda>st. st\<lparr>seat_clients := remove1 c (seat_clients st)\<rparr>) (seat_heap w s)),
       the_server := (the_server w)\<lparr>idle_clients := remove1 c (idle_clients (the_server w))\<rparr>\<rparr>)" for w
    by (auto simp: shrinks_def dest: set_remove1_subset [THEN subsetD])
  then show "state_io_rel shrinks (client_link_remove c)"
    unfolding client_link_remove_def by (intro shrink.rules shrink.update shrink_frame)
qed

lemma shrink_connection [shrink_frame]:
  assumes "\<And>n. state_io_rel shrinks (f n)"
  shows "state_io_rel shrinks (on_connection c f)" "state_io_rel shrinks (on_control_connection c f)"
  unfolding on_connection_def on_control_connection_def by (intro shrink.rules shrink_frame assms)+

lemma shrink_source [shrink_frame]: "state_io_rel shrinks (event_source_fd_destroy a)"
  by (rule shrink_wp) (auto simp: event_source_fd_destroy_def wp_simps intro!: shrinks_same)

lemmas shrink_io = calls_frame [THEN shrink_calls] step_frame [THEN shrink_step]


lemma shrink_abort [shrink_frame]: "state_io_rel shrinks abort_now"
  by (rule shrink_wp) (simp add: wp_simps shrinks_same)

lemma shrink_terminal_open [shrink_frame]: "state_io_rel shrinks (terminal_open k vt)"
  unfolding terminal_open_def by (intro shrink.rules shrink_frame)

lemma shrink_vt_open [shrink_frame]: "state_io_rel shrinks (vt_open k vt)"
  unfolding vt_open_def by (intro shrink.rules shrink_frame terminal_calls [THEN shrink_calls])

lemma shrink_vt_close [shrink_frame]: "state_io_rel shrinks (vt_close k vt)"
  unfolding vt_close_def by (intro shrink.rules shrink_frame terminal_calls [THEN shrink_calls])

lemma shrink_deactivate [shrink_frame]: "state_io_rel shrinks (seat_deactivate_device k d)"
  unfolding seat_deactivate_device_def
  by (auto intro!: shrink.rules shrink_frame device_calls [THEN shrink_calls] split: seat_device_type.split)

lemma shrink_activate_device [shrink_frame]: "state_io_rel shrinks (seat_activate_device k d)"
  unfolding seat_activate_device_def
  by (auto intro!: shrink.rules shrink_frame device_calls [THEN shrink_calls] split: seat_device_type.split)

lemma shrink_on_devices [shrink_frame]:
  assumes "\<And>d. state_io_rel shrinks (f d)"
  shows "state_io_rel shrinks (on_devices c (for_devices P f))"
proof -
  have "state_io_rel shrinks (for_devices P f ds)" for ds
    by (induction ds) (auto intro!: shrink.rules assms)
  then show ?thesis
    unfolding on_devices_def by (intro shrink.rules shrink_frame)
qed

lemma shrink_send_event [shrink_frame]: "state_io_rel shrinks (send_event k c opcode)"
  unfolding send_event_def client_put_def
  by (intro shrink.rules shrink_frame shrink_io connection_put_all_step [THEN shrink_step])

lemma shrink_open_client [shrink_frame]: "state_io_rel shrinks (seat_open_client k s c)"
  unfolding seat_open_client_def client_send_enable_seat_def vt_for_client_open_def client_owns_vt_def
  by (intro shrink.rules shrink_frame shrink_io) simp_all

lemma shrink_activate [shrink_frame]: "state_io_rel shrinks (seat_activate k s)"
proof -
  have "state_io_rel shrinks (find_vt_client vt cs)" for vt cs
    by (induction cs) (auto simp: client_owns_vt_def intro!: shrink.rules shrink_frame)
  then show ?thesis
    unfolding seat_activate_def by (intro shrink.rules shrink_frame) (auto split: list.split intro!: shrink.rules shrink_frame)
qed

lemma shrink_close_devices [shrink_frame]: "state_io_rel shrinks (close_devices n k c)"
proof -
  have "state_io_rel shrinks (seat_close_device k c i)" for i
    unfolding seat_close_device_def by (intro shrink.rules shrink_frame)
  then show ?thesis
    by (induction n) (auto intro!: shrink.rules shrink_frame)
qed

lemma shrink_remove_client [shrink_frame]: "state_io_rel shrinks (seat_remove_client k c)"
proof -
  have groups: "state_io_rel shrinks (remove_group_vts k b c gs)" for b gs
    by (induction gs) (auto intro!: shrink.rules shrink_frame)
  have left: "state_io_rel shrinks (seat_client_left k s c)" for s
    unfolding seat_client_left_def by (intro shrink.rules shrink_frame) simp_all
  show ?thesis
    unfolding seat_remove_client_def by (intro shrink.rules shrink_frame groups left) simp_all
qed

lemma shrink_client_destroy [shrink_frame]: "state_io_rel shrinks (client_destroy k c)"
  unfolding client_destroy_def by (intro shrink.rules shrink_frame shrink_io)

section \<open>Destroying clients and seats\<close>

lemma inv_lists_dom:
  assumes "world_ok g X Y w"
  shows "set (seats (the_server w)) = dom (seat_heap w)" "set (control_clients (the_server w)) = dom (control_heap w)"
  using assms by (simp_all add: world_ok_def seats_ok_def controls_ok_def)

lemma client_destroy_shrinks:
  assumes ok: "steady g w" and x: "client_heap w c = Some x" and g: "g_clients g = {}" and send: "send_ok k"
    and Q: "\<And>w'. steady g w' \<Longrightarrow> client_heap w' c = None \<Longrightarrow> shrinks w w' \<Longrightarrow> Q () w'"
  shows "wp (client_destroy k c) Q w"
proof -
  have guard: "g\<lparr>g_clients := g_clients g - {c}\<rparr> = g" using g by simp
  have "wp (client_destroy k c) (\<lambda>_ w'. steady g w' \<and> client_heap w' c = None) w"
    by (rule client_destroy_inv [where X = Map.empty, OF ok x _ send]) (simp_all add: guard)
  moreover have "wp (client_destroy k c) (\<lambda>_. shrinks w) w"
    by (rule wp_frame [OF shrink_client_destroy])
  ultimately show ?thesis by (rule wp_both) (simp add: Q)
qed

lemma length_less_subset: "distinct xs \<Longrightarrow> set xs \<subseteq> set ys \<Longrightarrow> c \<in> set ys \<Longrightarrow> c \<notin> set xs \<Longrightarrow> length xs < length ys"
proof -
  assume *: "distinct xs" "set xs \<subseteq> set ys" "c \<in> set ys" "c \<notin> set xs"
  then have "set xs \<subset> set ys" by blast
  then have "card (set xs) < card (set ys)" by (rule psubset_card_mono [rotated]) simp
  also have "card (set ys) \<le> length ys" by (rule card_length)
  finally show ?thesis using *(1) by (simp add: distinct_card)
qed

lemma destroy_seat_clients_inv:
  assumes g: "g_clients g = {}" "s \<in> g_seats g" and send: "send_ok k"
  shows "steady g w \<Longrightarrow> seat_heap w s = Some st \<Longrightarrow> length (seat_clients st) < n \<Longrightarrow>
    wp (destroy_seat_clients n k s) (\<lambda>_ w'. steady g w' \<and> shrinks w w' \<and>
      (\<exists>t. seat_heap w' s = Some t \<and> seat_clients t = [])) w"
proof (induction n arbitrary: w st)
  case (Suc n)
  show ?case
  proof (cases "seat_clients st")
    case Nil
    then show ?thesis using Suc.prems by (simp add: wp_simps shrink.refl)
  next
    case (Cons c cs)
    obtain x where x: "client_heap w c = Some x" "cl_seat x = Some s"
      using inv_seat_client [OF Suc.prems(1,2), of c] Cons by auto
    have rest: "wp (destroy_seat_clients n k s) (\<lambda>_ w'. steady g w' \<and> shrinks w w' \<and>
        (\<exists>t. seat_heap w' s = Some t \<and> seat_clients t = [])) v"
      if v: "steady g v" "client_heap v c = None" "shrinks w v" for v
    proof -
      obtain t where t: "seat_heap v s = Some t" using invD(6) [OF v(1) g(2)] by auto
      have "set (seat_clients t) \<subseteq> set (seat_clients st)"
        using v(3) t Suc.prems(2) unfolding shrinks_def by force
      moreover have "c \<notin> set (seat_clients t)" using inv_seat_client [OF v(1) t] v(2) by force
      moreover have "distinct (seat_clients t)" using invD(4) [OF v(1) t] by (simp add: seat_ok_def)
      ultimately have "length (seat_clients t) < length (seat_clients st)"
        by (intro length_less_subset [of _ _ c]) (simp_all add: Cons)
      then have "length (seat_clients t) < n" using Suc.prems(3) by simp
      from Suc.IH [OF v(1) t this] show ?thesis
        by (rule wp_mono) (use shrink.trans [OF v(3)] in blast)
    qed
    show ?thesis
      using Cons x Suc.prems(2)
      by (simp add: wp_simps) (rule client_destroy_shrinks [OF Suc.prems(1) x(1) g(1) send], rule rest)
  qed
qed simp

lemma seat_destroy_inv:
  assumes ok: "steady g w" and st: "seat_heap w s = Some st" and g: "g_clients g = {}" "g_seats g = {}" and send: "send_ok k"
    and Q: "\<And>w'. steady g w' \<Longrightarrow> shrinks w w' \<Longrightarrow> s \<notin> set (seats (the_server w')) \<Longrightarrow> Q () w'"
  shows "wp (seat_destroy k s) Q w"
proof -
  let ?g = "g\<lparr>g_seats := insert s (g_seats g)\<rparr>"
  have guard: "?g\<lparr>g_seats := g_seats ?g - {s}\<rparr> = g" using g(2) by simp
  have clients: "wp (destroy_seat_clients (Suc (length (seat_clients st))) k s) (\<lambda>_ w'. steady ?g w' \<and> shrinks w w' \<and>
      (\<exists>t. seat_heap w' s = Some t \<and> seat_clients t = [])) w"
    by (rule destroy_seat_clients_inv [OF _ _ send world_ok_hold_seat [OF ok st] st]) (use g in simp_all)
  have final: "Q () (v\<lparr>the_server := (the_server v)\<lparr>seats := remove1 s (seats (the_server v))\<rparr>, seat_heap := (seat_heap v)(s := None)\<rparr>)"
      (is "Q () ?v") and mem: "s \<in> set (seats (the_server v))"
    if v: "steady ?g v" "shrinks w v" and t: "seat_heap v s = Some t" "seat_clients t = []" for v t
  proof -
    have seats: "distinct (seats (the_server v))" "set (seats (the_server v)) = dom (seat_heap v)"
      using v(1) by (simp_all add: world_ok_def seats_ok_def)
    then show "s \<in> set (seats (the_server v))" using t(1) by auto
    have "shrinks v ?v" using seats(1) by (auto simp: shrinks_def)
    have eq: "?v = v\<lparr>seat_heap := (seat_heap v)(s := None), the_server := (the_server v)\<lparr>seats := remove1 s (seats (the_server v))\<rparr>\<rparr>"
      by (cases v) simp
    have "steady g ?v"
      using inv_free_seat [OF v(1) t] unfolding guard eq .
    with \<open>shrinks v ?v\<close> show "Q () ?v"
      using seats(1) by (intro Q) (auto intro: shrink.trans [OF v(2)])
  qed
  have upd: "steady ?g (v\<lparr>seat_heap := (seat_heap v)(s \<mapsto> t\<lparr>group_vts := []\<rparr>)\<rparr>)" "shrinks w (v\<lparr>seat_heap := (seat_heap v)(s \<mapsto> t\<lparr>group_vts := []\<rparr>)\<rparr>)"
    if v: "steady ?g v" "shrinks w v" and t: "seat_heap v s = Some t" for v t
  proof -
    show "steady ?g (v\<lparr>seat_heap := (seat_heap v)(s \<mapsto> t\<lparr>group_vts := []\<rparr>)\<rparr>)"
      by (rule inv_group_drop [OF v(1) t]) simp_all
    have "shrinks v (v\<lparr>seat_heap := (seat_heap v)(s \<mapsto> t\<lparr>group_vts := []\<rparr>)\<rparr>)"
      using t by (auto simp: shrinks_def)
    then show "shrinks w (v\<lparr>seat_heap := (seat_heap v)(s \<mapsto> t\<lparr>group_vts := []\<rparr>)\<rparr>)" by (rule shrink.trans [OF v(2)])
  qed
  have tail: "wp (do {
     upd_seat s (\<lambda>x. x\<lparr>group_vts := []\<rparr>);
     v \<leftarrow> get_server;
     assert_that (s \<in> set (seats v));
     upd_server (\<lambda>v. v\<lparr>seats := remove1 s (seats v)\<rparr>);
     free_seat s
   }) Q v" if v: "steady ?g v" "shrinks w v" and t: "seat_heap v s = Some t" "seat_clients t = []" for v t
    using final [OF upd [OF v t(1)], of "t\<lparr>group_vts := []\<rparr>"] mem [OF upd [OF v t(1)], of "t\<lparr>group_vts := []\<rparr>"] t
    by (simp add: wp_simps)
  show ?thesis
    unfolding seat_destroy_def wp_bind wp_get_seat
    by (simp only: st option.case, rule wp_mono [OF clients]) (use tail [unfolded wp_bind] in blast)
qed

section \<open>The end of the server\<close>

lemma finish_control_client_inv:
  assumes ok: "steady g w" and y: "control_heap w c = Some y" and g: "g_controls g = {}"
    and Q: "\<And>w'. steady g w' \<Longrightarrow> client_heap w' = client_heap w \<Longrightarrow> seat_heap w' = seat_heap w \<Longrightarrow>
      the_server w' = (the_server w)\<lparr>control_clients := remove1 c (control_clients (the_server w))\<rparr> \<Longrightarrow> Q () w'"
  shows "wp (finish_control_client k c) Q w"
proof -
  obtain a where a: "cc_event_source y = Some a"
    and live: "live_source (the_poller w) a (Control_client_handle_connection c)"
    using inv_control_source [OF ok y] by auto
  have "wp (event_source_fd_destroy a) (\<lambda>_. poll_inv) w"
    by (rule wp_mono [OF event_source_fd_destroy_wp [OF invD(2) [OF ok] live]]) simp
  then have "poll_inv (w\<lparr>the_poller := killed a (the_poller w)\<rparr>)"
    by (simp add: event_source_fd_destroy_killed [OF live])
  then have "steady (g\<lparr>g_controls := g_controls g - {c}\<rparr>) (without_control c (Some a) w)"
    using inv_control_gone [OF ok y a] by (simp add: without_control_def)
  moreover have "g\<lparr>g_controls := g_controls g - {c}\<rparr> = g" using g by simp
  ultimately have keep: "steady g w'" if "pdata w' = pdata (without_control c (Some a) w)" for w'
    using world_ok_data [OF that] by simp
  have live': "live_source (the_poller (w\<lparr>the_server := v\<rparr>)) a (Control_client_handle_connection c)" for v
    using live by simp
  show ?thesis
    using y a
    by (auto simp: finish_control_client_def on_control_connection_def wp_simps event_source_fd_destroy_killed [OF live'] data_eq Let_def
        without_control_def intro!: wp_data_calls [OF connection_close_fds_calls] wp_data_calls [OF sys_val_calls] Q keep)
qed

lemma finish_control_clients_inv:
  assumes g: "g_controls g = {}"
  shows "steady g w \<Longrightarrow> length (control_clients (the_server w)) < n \<Longrightarrow>
    wp (finish_control_clients n k) (\<lambda>_ w'. steady g w' \<and> control_clients (the_server w') = []) w"
proof (induction n arbitrary: w)
  case (Suc n)
  show ?case
  proof (cases "control_clients (the_server w)")
    case Nil
    then show ?thesis using Suc.prems by (simp add: wp_simps)
  next
    case (Cons c cs)
    then obtain y where y: "control_heap w c = Some y"
      using inv_lists_dom(2) [OF Suc.prems(1)] by (metis domD list.set_intros(1))
    show ?thesis
      using Cons by (simp add: wp_simps) (rule finish_control_client_inv [OF Suc.prems(1) y g], rule Suc.IH; use Suc.prems(2) Cons in simp)
  qed
qed simp

lemma finish_idle_clients_inv:
  assumes g: "g_clients g = {}" and send: "send_ok k"
  shows "steady g w \<Longrightarrow> length (idle_clients (the_server w)) < n \<Longrightarrow>
    wp (finish_idle_clients n k) (\<lambda>_ w'. steady g w' \<and> shrinks w w' \<and> idle_clients (the_server w') = []) w"
proof (induction n arbitrary: w)
  case (Suc n)
  show ?case
  proof (cases "idle_clients (the_server w)")
    case Nil
    then show ?thesis using Suc.prems by (simp add: wp_simps shrink.refl)
  next
    case (Cons c cs)
    then obtain x where x: "client_heap w c = Some x"
      using Suc.prems(1) by (auto simp: world_ok_def links_ok_def)
    have rest: "wp (finish_idle_clients n k) (\<lambda>_ w'. steady g w' \<and> shrinks w w' \<and> idle_clients (the_server w') = []) v"
      if v: "steady g v" "client_heap v c = None" "shrinks w v" for v
    proof -
      have "distinct (idle_clients (the_server v))" "c \<notin> set (idle_clients (the_server v))"
        using v(1,2) by (auto simp: world_ok_def links_ok_def)
      moreover have "set (idle_clients (the_server v)) \<subseteq> set (idle_clients (the_server w))"
        using v(3) by (simp add: shrinks_def)
      ultimately have "length (idle_clients (the_server v)) < length (idle_clients (the_server w))"
        by (intro length_less_subset [of _ _ c]) (simp_all add: Cons)
      then have "length (idle_clients (the_server v)) < n" using Suc.prems(2) by simp
      from Suc.IH [OF v(1) this] show ?thesis
        by (rule wp_mono) (use shrink.trans [OF v(3)] in blast)
    qed
    show ?thesis
      using Cons by (simp add: wp_simps) (rule client_destroy_shrinks [OF Suc.prems(1) x g send], rule rest)
  qed
qed simp

lemma finish_seats_inv:
  assumes g: "g_clients g = {}" "g_seats g = {}" and send: "send_ok k"
  shows "steady g w \<Longrightarrow> length (seats (the_server w)) < n \<Longrightarrow>
    wp (finish_seats n k) (\<lambda>_ w'. steady g w' \<and> shrinks w w' \<and> seats (the_server w') = []) w"
proof (induction n arbitrary: w)
  case (Suc n)
  show ?case
  proof (cases "seats (the_server w)")
    case Nil
    then show ?thesis using Suc.prems by (simp add: wp_simps shrink.refl)
  next
    case (Cons s ss)
    then obtain st where st: "seat_heap w s = Some st"
      using inv_lists_dom(1) [OF Suc.prems(1)] by (metis domD list.set_intros(1))
    have rest: "wp (finish_seats n k) (\<lambda>_ w'. steady g w' \<and> shrinks w w' \<and> seats (the_server w') = []) v"
      if v: "steady g v" "shrinks w v" "s \<notin> set (seats (the_server v))" for v
    proof -
      have "distinct (seats (the_server v))" using v(1) by (simp add: world_ok_def seats_ok_def)
      moreover have "set (seats (the_server v)) \<subseteq> set (seats (the_server w))"
        using v(2) by (simp add: shrinks_def)
      ultimately have "length (seats (the_server v)) < length (seats (the_server w))"
        using v(3) by (intro length_less_subset [of _ _ s]) (simp_all add: Cons)
      then have "length (seats (the_server v)) < n" using Suc.prems(2) by simp
      from Suc.IH [OF v(1) this] show ?thesis
        by (rule wp_mono) (use shrink.trans [OF v(2)] in blast)
    qed
    show ?thesis
      using Cons by (simp add: wp_simps) (rule seat_destroy_inv [OF Suc.prems(1) st g send], rule rest)
  qed
qed simp

text \<open>Nothing is left, and no assertion failed.\<close>

definition all_freed :: "world \<Rightarrow> bool" where
  "all_freed w \<longleftrightarrow> \<not> aborted w \<and> client_heap w = Map.empty \<and> seat_heap w = Map.empty \<and> control_heap w = Map.empty \<and>
     fds (the_poller w) = [] \<and> signals (the_poller w) = [] \<and> \<not> global_poller w"

lemma steady_empty:
  assumes ok: "steady g w" and "control_clients (the_server w) = []" and "idle_clients (the_server w) = []" and "seats (the_server w) = []"
  shows "client_heap w = Map.empty" "seat_heap w = Map.empty" "control_heap w = Map.empty"
proof -
  have "dom (seat_heap w) = {}" "dom (control_heap w) = {}"
    using assms by (auto simp: world_ok_def seats_ok_def controls_ok_def)
  then show seat: "seat_heap w = Map.empty" and "control_heap w = Map.empty" by simp_all
  have "client_heap w c = None" for c
  proof (rule ccontr)
    assume "client_heap w c \<noteq> None"
    then obtain x where "client_heap w c = Some x" by auto
    then have "linked_at (seat_heap w) (idle_clients (the_server w)) c x"
      using ok by (simp add: world_ok_def links_ok_def)
    then show False using seat assms(3) by (simp add: linked_at_def split: option.splits)
  qed
  then show "client_heap w = Map.empty" by auto
qed

lemma poller_finish_calls:
  fixes w :: world
  shows "wp (poller_finish k) (\<lambda>_ w'. aborted w' = aborted w \<and> client_heap w' = client_heap w \<and> seat_heap w' = seat_heap w \<and>
     control_heap w' = control_heap w \<and> fds (the_poller w') = [] \<and> signals (the_poller w') = [] \<and> \<not> global_poller w') w"
  unfolding poller_finish_def wp_simps
  by (rule wp_data_calls [OF reset_signals_calls]) (simp add: data_eq flags_def)

lemma inv_server:
  assumes "seats v = seats (the_server w)" "idle_clients v = idle_clients (the_server w)"
    "control_clients v = control_clients (the_server w)"
  shows "world_ok g X Y (w\<lparr>the_server := v\<rparr>) = world_ok g X Y w"
  using assms by (simp add: world_ok_def)

lemma close_unless_unset_calls [calls_frame]: "state_io_rel os_calls (close_unless_unset k fd)"
  unfolding close_unless_unset_def by (intro calls.rules calls_frame)

lemma server_lists_finish:
  assumes ok: "steady g w" and g: "g_clients g = {}" "g_seats g = {}" "g_controls g = {}" and send: "send_ok k"
  shows "wp (do {
     v \<leftarrow> get_server;
     finish_control_clients (Suc (length (control_clients v))) k;
     v \<leftarrow> get_server;
     finish_idle_clients (Suc (length (idle_clients v))) k;
     v \<leftarrow> get_server;
     finish_seats (Suc (length (seats v))) k;
     _ \<leftarrow> poller_finish k;
     State_Monad.return ()
   }) (\<lambda>_. all_freed) w"
proof -
  have finish: "wp (poller_finish k) (\<lambda>_. all_freed) v"
    if "steady g v" "control_clients (the_server v) = []" "idle_clients (the_server v) = []" "seats (the_server v) = []" for v
    by (rule wp_mono [OF poller_finish_calls])
      (use steady_empty [OF that] invD(1) [OF that(1)] in \<open>simp add: all_freed_def\<close>)
  have third: "wp (finish_seats (Suc (length (seats (the_server v)))) k) (\<lambda>_. wp (poller_finish k) (\<lambda>_. all_freed)) v"
    if "steady g v" "control_clients (the_server v) = []" "idle_clients (the_server v) = []" for v
    by (rule wp_mono [OF finish_seats_inv [OF g(1,2) send that(1)]]) (use that in \<open>auto simp: shrinks_def intro!: finish\<close>)
  have second: "wp (finish_idle_clients (Suc (length (idle_clients (the_server v)))) k) (\<lambda>_ v.
      wp (finish_seats (Suc (length (seats (the_server v)))) k) (\<lambda>_. wp (poller_finish k) (\<lambda>_. all_freed)) v) v"
    if "steady g v" "control_clients (the_server v) = []" for v
    by (rule wp_mono [OF finish_idle_clients_inv [OF g(1) send that(1)]])
      (use that in \<open>auto simp: shrinks_def simp del: finish_seats.simps intro!: third\<close>)
  show ?thesis
    unfolding wp_bind wp_get_server wp_return
    by (rule wp_mono [OF finish_control_clients_inv [OF g(3) ok]]) (use second in \<open>auto simp del: finish_idle_clients.simps\<close>)
qed

lemma server_finish_inv:
  assumes ok: "steady g w" and g: "g_clients g = {}" "g_seats g = {}" "g_controls g = {}" and send: "send_ok k"
  shows "wp (server_finish k) (\<lambda>_. all_freed) w"
proof -
  define rest :: "(world, unit) state" where "rest = do {
     v \<leftarrow> get_server;
     finish_control_clients (Suc (length (control_clients v))) k;
     v \<leftarrow> get_server;
     finish_idle_clients (Suc (length (idle_clients v))) k;
     v \<leftarrow> get_server;
     finish_seats (Suc (length (seats v))) k;
     _ \<leftarrow> poller_finish k;
     State_Monad.return ()
   }"
  have rest: "wp rest (\<lambda>_. all_freed) v" if "steady g v" for v
    unfolding rest_def by (rule server_lists_finish [OF that g send])
  show ?thesis
    unfolding server_finish_def rest_def [symmetric]
    using ok
    by (auto simp: wp_bind wp_if wp_return wp_upd_server wp_get_server inv_server
        intro!: rest wp_calls_inv [OF sys_val_calls] wp_calls_inv [OF close_unless_unset_calls])
qed

section \<open>The start of the server\<close>

text \<open>The state before the start: nothing allocated, no poller registered for signals.\<close>

definition blank :: "world \<Rightarrow> bool" where
  "blank w \<longleftrightarrow> \<not> aborted w \<and> \<not> global_poller w \<and> client_heap w = Map.empty \<and> seat_heap w = Map.empty \<and> control_heap w = Map.empty"

definition no_signal :: "poller \<Rightarrow> bool" where
  "no_signal p \<longleftrightarrow> (\<forall>(a, s) \<in> set (signals p). \<not> ss_raised s)"

lemma no_signal_vt: "no_signal p \<Longrightarrow> \<not> vt_signal (signals p)"
  by (auto simp: no_signal_def vt_signal_def)

lemma server_ok_data: "pdata w' = pdata w \<Longrightarrow> server_ok w' = server_ok w"
  using world_ok_data [of w' w] by (simp add: server_ok_def data_eq)

lemma server_ok_started:
  assumes "\<not> aborted w" and "client_heap w = Map.empty" "seat_heap w = Map.empty" "control_heap w = Map.empty"
    and "seats (the_server w) = []" "idle_clients (the_server w) = []" "control_clients (the_server w) = []"
    and "fds (the_poller w) = []" "signals (the_poller w) = []" "dirty (the_poller w)" "fd_event_sources (the_poller w) = 1"
  shows "server_ok w"
  using assms
  by (simp add: server_ok_def world_ok_def clients_ok_def seats_ok_def links_ok_def sources_ok_def controls_ok_def
      poll_at_def poller_ok_def live_source_def)

lemma poller_init_inv:
  assumes "blank w"
    and fail: "\<And>w'. blank w' \<Longrightarrow> Q (-1) w'"
    and okay: "\<And>w'. blank (w'\<lparr>global_poller := False\<rparr>) \<Longrightarrow> the_server w' = the_server w \<Longrightarrow>
      fds (the_poller w') = [] \<Longrightarrow> signals (the_poller w') = [] \<Longrightarrow> dirty (the_poller w') \<Longrightarrow>
      fd_event_sources (the_poller w') = 1 \<Longrightarrow> Q 0 w'"
  shows "wp (poller_init k) Q w"
proof -
  have nonblock: "wp (set_nonblock k fd) Q' v" if "\<And>r v'. pdata v' = pdata v \<Longrightarrow> Q' r v'" for fd Q' v
    by (rule wp_data_calls [OF set_nonblock_calls]) (rule that)
  show ?thesis
    using assms(1) unfolding poller_init_def
    by (auto simp: wp_simps Let_def blank_def data_eq flags_def intro!: nonblock fail okay)
qed

text \<open>A source whose handler belongs to no client, and a source for a signal.\<close>

lemma inv_add_listener:
  assumes ok: "world_ok g X Y w" and a: "a = next_addr w"
    and e: "\<And>c. es_func e \<noteq> Client_handle_connection c" "\<And>c. es_func e \<noteq> Control_client_handle_connection c"
      "\<not> es_killed e" "pollfd_idx e = -1"
  shows "world_ok g X Y (w\<lparr>next_addr := Suc a, the_poller := added a e (the_poller w)\<rparr>)"
proof -
  have bound: "world_ok g X Y (w\<lparr>next_addr := Suc a\<rparr>)"
    by (rule world_ok_next [OF ok]) (simp add: a)
  have "poll_at (g_sources g) (g_signals g) (added a e (the_poller w)) (Suc a)"
    by (rule poll_at_added) (use ok a e in \<open>auto simp: world_ok_def\<close>)
  with bound e show ?thesis by (simp add: world_ok_def sources_ok_def controls_ok_def)
qed

lemma poller_add_listener_inv:
  assumes ok: "server_ok w" and f: "f = Server_handle_connection \<or> f = Control_handle_connection \<or> f = Server_handle_vt_event"
    and Q: "\<And>r w'. server_ok w' \<Longrightarrow> the_server w' = the_server w \<Longrightarrow> seat_heap w' = seat_heap w \<Longrightarrow>
      signals (the_poller w') = signals (the_poller w) \<Longrightarrow> Q r w'"
  shows "wp (poller_add_fd k fd ev f) Q w"
proof -
  let ?e = "\<lparr>es_func = f, es_fd = fd, es_mask = ev, es_killed = False, pollfd_idx = -1\<rparr>"
  let ?v = "w\<lparr>next_addr := Suc (next_addr w), the_poller := added (next_addr w) ?e (the_poller w)\<rparr>"
  have "steady (guard_at (the_poller w)) ?v"
    by (rule inv_add_listener [OF ok [unfolded server_ok_def] refl]) (use f in auto)
  then have "server_ok ?v" using steady_handled by blast
  then have added: "server_ok v" if "pdata v = pdata ?v" for v
    using server_ok_data [OF that] by simp
  have same: "server_ok v" if "pdata v = pdata w" for v
    using ok server_ok_data [OF that] by simp
  show ?thesis
  proof (cases "sr_val (answer k (trace w) Sys_calloc) = -1")
    case True
    then show ?thesis by (auto simp: wp_simps Let_def data_eq intro!: Q same)
  next
    case False
    then show ?thesis by (auto simp: wp_simps Let_def data_eq intro!: Q added)
  qed
qed

lemma server_ok_add_signal:
  assumes ok: "server_ok w" and s: "\<not> ss_raised s"
    and v: "v = w\<lparr>next_addr := Suc (next_addr w), the_poller := (the_poller w)\<lparr>signals := (next_addr w, s) # signals (the_poller w)\<rparr>\<rparr>"
  shows "server_ok v"
proof -
  let ?p = "the_poller w"
  have st: "steady (guard_at ?p) (w\<lparr>next_addr := Suc (next_addr w)\<rparr>)"
    by (rule world_ok_next [OF ok [unfolded server_ok_def]]) simp
  have vt: "vt_signal ((a, s) # signals ?p) = vt_signal (signals ?p)" for a
    using s by (auto simp: vt_signal_def)
  have new: "next_addr w \<notin> fst ` set (signals ?p)"
    using ok unfolding server_ok_def world_ok_def poll_at_def by (meson UnI2 less_irrefl)
  have poll: "poll_at (fst ` set (fds ?p)) ((next_addr w, s) # signals ?p) (?p\<lparr>signals := (next_addr w, s) # signals ?p\<rparr>) (Suc (next_addr w))"
    using st new by (auto simp: world_ok_def poll_at_def poller_ok_def)
  have "live_source (?p\<lparr>signals := ss\<rparr>) a f = live_source ?p a f" for ss a f by (simp add: live_source_def)
  with st poll show ?thesis
    by (simp add: server_ok_def world_ok_def v vt sources_ok_def controls_ok_def)
qed

lemma add_signals_inv:
  "server_ok w \<Longrightarrow> no_signal (the_poller w) \<Longrightarrow> wp (add_signals k ss) (\<lambda>r w'. server_ok w' \<and> no_signal (the_poller w') \<and>
     seats (the_server w') = seats (the_server w) \<and>
     (r \<longrightarrow> signal_pairs (the_poller w') = set ss \<union> signal_pairs (the_poller w))) w"
proof (induction ss arbitrary: w)
  case Nil
  then show ?case by (simp add: wp_simps)
next
  case (Cons sf ss)
  define Q where "Q r w' \<longleftrightarrow> server_ok w' \<and> no_signal (the_poller w') \<and> seats (the_server w') = seats (the_server w) \<and>
     (r \<longrightarrow> signal_pairs (the_poller w') = set (sf # ss) \<union> signal_pairs (the_poller w))" for r w'
  let ?s = "\<lparr>ss_func = snd sf, ss_signal = fst sf, ss_raised = False, ss_killed = False\<rparr>"
  let ?p = "(the_poller w)\<lparr>signals := (next_addr w, ?s) # signals (the_poller w)\<rparr>"
  let ?v = "w\<lparr>next_addr := Suc (next_addr w), the_poller := ?p\<rparr>"
  have ok: "server_ok ?v" by (rule server_ok_add_signal [OF Cons.prems(1) _ refl]) simp
  have pairs: "signal_pairs ?p = insert sf (signal_pairs (the_poller w))"
  proof -
    have "{(a, s) \<in> set (signals ?p). \<not> ss_killed s} = insert (next_addr w, ?s) {(a, s) \<in> set (signals (the_poller w)). \<not> ss_killed s}"
      by auto
    then show ?thesis by (simp add: signal_pairs_def)
  qed
  have more: "wp (add_signals k ss) Q v" if "pdata v = pdata ?v" for v
    by (rule wp_mono [OF Cons.IH]) (use Cons.prems(2) ok server_ok_data [OF that] that pairs in \<open>auto simp: Q_def data_eq no_signal_def\<close>)
  have none: "Q False v" if "pdata v = pdata w" for v
    using Cons.prems that server_ok_data [OF that] by (auto simp: Q_def data_eq)
  have calls: "wp (sys_val k c) Q' v" if "\<And>r v'. pdata v' = pdata v \<Longrightarrow> Q' r v'" for c Q' and v :: world
    by (rule wp_data_calls [OF sys_val_calls]) (rule that)
  have "wp (add_signals k (sf # ss)) Q w"
    unfolding add_signals.simps poller_add_signal_def
    by (auto simp: wp_bind wp_return wp_if wp_case_option calloc_wp wp_upd_poller Let_def data_eq intro!: more none calls)
  then show ?case by (rule wp_mono) (simp add: Q_def)
qed

text \<open>The signals that \<open>server_init\<close> asks for.\<close>

definition server_signals :: "(int \<times> signal_func) set" where
  "server_signals = {(SIGUSR1, Server_handle_vt_rel), (SIGUSR2, Server_handle_vt_acq), (SIGINT, Server_handle_kill), (SIGTERM, Server_handle_kill)}"

lemma server_ok_add_seat:
  assumes ok: "server_ok w" and quiet: "no_signal (the_poller w)" and none: "seats (the_server w) = []"
    and st: "seat_clients st = []" "active_client st = None" "next_client st = None" "group_vts st = []"
      "cur_vt st = -1" "pending_vt_switch st = 0"
    and v: "v = w\<lparr>next_addr := Suc (next_addr w), seat_heap := (seat_heap w)(next_addr w \<mapsto> st),
      the_server := (the_server w)\<lparr>seats := [next_addr w]\<rparr>\<rparr>"
  shows "server_ok v"
proof -
  have fresh: "steady (guard_at (the_poller w)) (w\<lparr>next_addr := Suc (next_addr w)\<rparr>)"
    by (rule world_ok_next [OF ok [unfolded server_ok_def]]) simp
  have empty: "seat_heap w = Map.empty"
    using ok none by (auto simp: server_ok_def world_ok_def seats_ok_def)
  have "linked_at S idle c x" if "linked_at Map.empty idle c x" for S idle c x
    using that by (simp add: linked_at_def split: option.splits)
  then have "links_ok Map.empty (client_heap w) (seat_heap v) (idle_clients (the_server w))"
    using fresh empty by (simp add: world_ok_def links_ok_def)
  with fresh no_signal_vt [OF quiet] st empty show ?thesis
    by (simp add: server_ok_def world_ok_def v seats_ok_def seat_ok_def)
qed

text \<open>Fields of the server that the invariant does not mention.\<close>

lemma server_ok_server:
  assumes "seats v' = seats (the_server w)" "idle_clients v' = idle_clients (the_server w)" "control_clients v' = control_clients (the_server w)"
  shows "server_ok (w\<lparr>the_server := v'\<rparr>) = server_ok w"
  using assms by (simp add: server_ok_def world_ok_def)

lemma create_vt_event_pipe_calls [calls_frame]: "state_io_rel os_calls (create_vt_event_pipe k)"
  unfolding create_vt_event_pipe_def by (intro calls.rules calls_frame server_set_calls)

lemma wp_server_calls:
  assumes "state_io_rel os_calls m" and "server_ok w"
    and "\<And>r w'. server_ok w' \<Longrightarrow> pdata w' = pdata w \<Longrightarrow> Q r w'"
  shows "wp m Q w"
  by (rule wp_data_calls [OF assms(1)]) (use assms(2,3) server_ok_data in blast)

definition one_seat :: "nat \<Rightarrow> seat \<Rightarrow> world \<Rightarrow> bool" where
  "one_seat s st w \<longleftrightarrow> server_ok w \<and> no_signal (the_poller w) \<and> signal_pairs (the_poller w) = server_signals \<and>
     seats (the_server w) = [s] \<and> seat_heap w s = Some st"

lemma start_vt_events_inv:
  assumes "one_seat s st w" and Q: "\<And>w'. one_seat s st w' \<Longrightarrow> Q () w'"
  shows "wp (start_vt_events k) Q w"
proof -
  have fd: "wp (poller_add_fd k fd ev Server_handle_vt_event) Q' v"
    if "server_ok v" "\<And>r w'. server_ok w' \<Longrightarrow> the_server w' = the_server v \<Longrightarrow> seat_heap w' = seat_heap v \<Longrightarrow>
      signals (the_poller w') = signals (the_poller v) \<Longrightarrow> Q' r w'" for fd ev Q' v
    by (rule poller_add_listener_inv) (use that in auto)
  show ?thesis
    unfolding start_vt_events_def
    using assms(1)
    by (auto simp: wp_bind wp_return wp_if wp_case_option wp_upd_server server_ok_server one_seat_def data_eq no_signal_def signal_pairs_def
        intro!: Q fd wp_server_calls [OF terminal_open_calls] wp_server_calls [OF create_vt_event_pipe_calls]
          wp_server_calls [OF server_set_calls(2)] wp_server_calls [OF sys_val_calls])
qed

definition started :: "world \<Rightarrow> bool" where
  "started w \<longleftrightarrow> running (the_server w) \<and> (\<exists>s st. one_seat s st w \<and> seat_name st = ''seat0'' \<and> seat_clients st = [])"

lemma server_start_seat:
  assumes ok: "server_ok w" and quiet: "no_signal (the_poller w)" and none: "seats (the_server w) = []" and send: "send_ok k"
    and pairs: "signal_pairs (the_poller w) = server_signals"
  shows "wp (do {
     seat \<leftarrow> seat_create k ''seat0'' b;
     case seat of
       None \<Rightarrow> do { server_finish k; State_Monad.return (-1) }
     | Some s \<Rightarrow> do {
         upd_server (\<lambda>v. v\<lparr>seats := s # seats v\<rparr>);
         start_vt_events k;
         upd_server (\<lambda>v. v\<lparr>running := True\<rparr>);
         State_Monad.return 0
       }
   }) (\<lambda>r w'. r = (0::int) \<and> started w' \<or> r = -1 \<and> blank w') w"
proof -
  let ?Q = "\<lambda>r w'. r = (0::int) \<and> started w' \<or> r = -1 \<and> blank w'"
  let ?s = "next_addr w"
  define st where "st = \<lparr>seat_name = ''seat0'', seat_clients = [], active_client = None, next_client = None,
    vt_bound = b, cur_vt = -1, pending_vt_switch = 0, group_vts = []\<rparr>"
  let ?v = "w\<lparr>next_addr := Suc ?s, seat_heap := (seat_heap w)(?s \<mapsto> st), the_server := (the_server w)\<lparr>seats := [?s]\<rparr>\<rparr>"
  have new: "server_ok ?v"
    by (rule server_ok_add_seat [OF ok quiet none _ _ _ _ _ _ refl]) (simp_all add: st_def)
  have finish: "wp (server_finish k) (\<lambda>_. blank) v" if "pdata v = pdata w \<or> pdata v = pdata (w\<lparr>next_addr := Suc ?s\<rparr>)" for v
  proof -
    have "steady (guard_at (the_poller w)) (w\<lparr>next_addr := Suc ?s\<rparr>)"
      by (rule world_ok_next [OF ok [unfolded server_ok_def]]) simp
    then have "steady (guard_at (the_poller w)) v"
      using ok that world_ok_data unfolding server_ok_def by blast
    from server_finish_inv [OF this _ _ _ send] show ?thesis
      by (rule wp_mono) (auto simp: all_freed_def blank_def)
  qed
  define rest where "rest = do {
     start_vt_events k;
     upd_server (\<lambda>v. v\<lparr>running := True\<rparr>);
     State_Monad.return (0::int)
   }"
  have rest: "wp rest ?Q v" if "pdata v = pdata ?v" for v
  proof -
    have "one_seat ?s st v"
      using new server_ok_data [OF that] that quiet pairs by (simp add: one_seat_def data_eq)
    then show ?thesis
      unfolding rest_def wp_bind wp_upd_server wp_return
      by (rule start_vt_events_inv) (auto simp: started_def one_seat_def server_ok_server st_def)
  qed
  have call: "wp (sys_val k (Sys_strdup nm)) Q' v" if "\<And>r v'. pdata v' = pdata v \<Longrightarrow> Q' r v'" for nm Q' v
    by (rule wp_data_calls [OF sys_val_calls]) (rule that)
  show ?thesis
    unfolding seat_create_def rest_def [symmetric]
    by (auto simp: wp_bind wp_return wp_if wp_case_option wp_upd_server wp_update calloc_wp Let_def none st_def data_eq
        intro!: finish rest call)
qed

lemma server_init_inv:
  assumes "blank w" and send: "send_ok k"
  shows "wp (server_init k) (\<lambda>r w'. r = 0 \<and> started w' \<or> r = -1 \<and> blank w') w"
proof -
  let ?Q = "\<lambda>r w'. r = (0::int) \<and> started w' \<or> r = -1 \<and> blank w'"
  define rest where "rest b = do {
     seat \<leftarrow> seat_create k ''seat0'' b;
     case seat of
       None \<Rightarrow> do { server_finish k; State_Monad.return (-1) }
     | Some s \<Rightarrow> do {
         upd_server (\<lambda>v. v\<lparr>seats := s # seats v\<rparr>);
         start_vt_events k;
         upd_server (\<lambda>v. v\<lparr>running := True\<rparr>);
         State_Monad.return (0::int)
       }
   }" for b
  have rest: "wp (rest b) ?Q v" if "server_ok v" "no_signal (the_poller v)" "seats (the_server v) = []"
      "signal_pairs (the_poller v) = server_signals" for v b
    unfolding rest_def by (rule server_start_seat [OF that(1-3) send that(4)])
  have finish: "wp (server_finish k) (\<lambda>_. blank) v" if "server_ok v" for v
    by (rule wp_mono [OF server_finish_inv [OF that [unfolded server_ok_def] _ _ _ send]]) (auto simp: all_freed_def blank_def)
  define ss where "ss = [(SIGUSR1, Server_handle_vt_rel), (SIGUSR2, Server_handle_vt_acq),
    (SIGINT, Server_handle_kill), (SIGTERM, Server_handle_kill)]"
  have ss: "set ss = server_signals" by (simp add: ss_def server_signals_def)
  have signals: "wp (add_signals k ss) Q' v"
    if "server_ok v" "signals (the_poller v) = []" "seats (the_server v) = []"
      "\<And>r w'. server_ok w' \<Longrightarrow> no_signal (the_poller w') \<Longrightarrow> seats (the_server w') = [] \<Longrightarrow>
        (r \<longrightarrow> signal_pairs (the_poller w') = server_signals) \<Longrightarrow> Q' r w'" for Q' v
    by (rule wp_mono [OF add_signals_inv])
      (use that(1-3) in \<open>auto simp: no_signal_def signal_pairs_def ss intro!: that(4)\<close>)
  have start: "server_ok (v\<lparr>the_server := sv\<rparr>)"
    if "blank (v\<lparr>global_poller := False\<rparr>)" "seats sv = []" "idle_clients sv = []" "control_clients sv = []"
      "fds (the_poller v) = []" "signals (the_poller v) = []" "dirty (the_poller v)" "fd_event_sources (the_poller v) = 1" for v sv
    by (rule server_ok_started) (use that in \<open>auto simp: blank_def\<close>)
  define seat where "seat = do {
     vtenv \<leftarrow> sys k (Sys_getenv ''SEATD_VTBOUND'');
     rest (sr_val vtenv = 0 \<or> sr_str vtenv = ''1'')
   }"
  have seat: "wp seat ?Q v" if "server_ok v" "no_signal (the_poller v)" "seats (the_server v) = []"
      "signal_pairs (the_poller v) = server_signals" for v
    unfolding seat_def wp_bind
    by (rule wp_server_calls [OF sys_calls that(1)]) (rule rest, use that in \<open>simp_all add: data_eq\<close>)
  show ?thesis
    unfolding server_init_def rest_def [symmetric] ss_def [symmetric] seat_def [symmetric]
    by (auto simp: wp_bind wp_return wp_if wp_upd_server
      intro!: signals finish seat start poller_init_inv [OF assms(1)])
qed

end
