(* ===== verification/Daemon.thy ===== *)
theory Daemon
  imports Log Lifecycle
begin

text \<open>
  \<open>seatd/seatd.c\<close>: the daemon's \<open>main\<close>. It reads the command line, removes left-over sockets,
  starts the server, listens on the client socket and, when asked to, on the control socket,
  and runs the event loop until the server stops or polling fails.

  The build sets the default path of the socket, so it is an argument. Signals arrive at any
  time; their handler only marks the source and wakes the loop, so the model delivers them
  between two rounds of the loop: the list of their batches is the schedule of a run, and its
  length bounds the rounds.
\<close>

section \<open>Options\<close>

record options =
  opt_uid :: int
  opt_gid :: int
  readiness :: int
  unlink_existing_socket :: bool
  chown_socket :: bool
  socket_path :: string
  control_socket_path :: "string option"
  opt_level :: log_level

definition default_options :: "string \<Rightarrow> options" where
  "default_options path = \<lparr>opt_uid = -1, opt_gid = -1, readiness = -1, unlink_existing_socket = True,
     chown_socket = True, socket_path = path, control_socket_path = None, opt_level = LIBSEAT_LOG_LEVEL_INFO\<rparr>"

definition level_of :: "string \<Rightarrow> log_level option" where
  "level_of s = (if s = ''debug'' then Some LIBSEAT_LOG_LEVEL_DEBUG
     else if s = ''info'' then Some LIBSEAT_LOG_LEVEL_INFO
     else if s = ''error'' then Some LIBSEAT_LOG_LEVEL_ERROR
     else if s = ''silent'' then Some LIBSEAT_LOG_LEVEL_SILENT
     else None)"

text \<open>One round of the loop over the options; the left summand is the exit status of an early return.\<close>

definition parse_option :: "kernel \<Rightarrow> char \<times> string \<Rightarrow> options \<Rightarrow> ('a os_scheme, int + options) state" where
  "parse_option k oa cf = (let c = fst oa; optarg = snd oa in
     if c = CHR ''n'' then
       State_Monad.return (if atoi optarg < 0 then Inl 1 else Inr (cf\<lparr>readiness := atoi optarg\<rparr>))
     else if c = CHR ''s'' then State_Monad.return (Inr (cf\<lparr>socket_path := optarg\<rparr>))
     else if c = CHR ''c'' then State_Monad.return (Inr (cf\<lparr>control_socket_path := Some optarg\<rparr>))
     else if c = CHR ''u'' then
       (if \<not> chown_socket cf then State_Monad.return (Inl 1)
        else do {
          r \<leftarrow> sys k (Sys_getpwnam optarg);
          State_Monad.return (if sr_val r = -1 then Inl 1 else Inr (cf\<lparr>opt_uid := sr_out r\<rparr>))
        })
     else if c = CHR ''g'' then
       (if \<not> chown_socket cf then State_Monad.return (Inl 1)
        else do {
          r \<leftarrow> sys k (Sys_getgrnam optarg);
          State_Monad.return (if sr_val r = -1 then Inl 1 else Inr (cf\<lparr>opt_gid := sr_out r\<rparr>))
        })
     else if c = CHR ''l'' then
       State_Monad.return (case level_of optarg of None \<Rightarrow> Inl 1 | Some l \<Rightarrow> Inr (cf\<lparr>opt_level := l\<rparr>))
     else if c = CHR ''z'' then
       State_Monad.return (if opt_uid cf \<noteq> -1 \<or> opt_gid cf \<noteq> -1 then Inl 1
         else Inr (cf\<lparr>unlink_existing_socket := False, chown_socket := False\<rparr>))
     else if c = CHR ''v'' then State_Monad.return (Inl 0)
     else if c = CHR ''h'' then State_Monad.return (Inl 0)
     else if c = CHR ''?'' then State_Monad.return (Inl 1)
     else do { abort_now; State_Monad.return (Inl 1) })"

primrec parse_options :: "kernel \<Rightarrow> (char \<times> string) list \<Rightarrow> options \<Rightarrow> ('a os_scheme, int + options) state" where
  "parse_options k [] cf = State_Monad.return (Inr cf)"
| "parse_options k (oa # oas) cf = do {
     r \<leftarrow> parse_option k oa cf;
     case r of Inl status \<Rightarrow> State_Monad.return (Inl status) | Inr cf \<Rightarrow> parse_options k oas cf
   }"

section \<open>Sockets\<close>

text \<open>\<open>sockaddr_un\<close> has room for 107 bytes of a path and the final null byte.\<close>

definition open_socket_internal ::
    "kernel \<Rightarrow> string \<Rightarrow> int \<Rightarrow> int \<Rightarrow> bool \<Rightarrow> nat \<Rightarrow> ('a os_scheme, int) state" where
  "open_socket_internal k path uid gid chmod_socket mode = do {
     fd \<leftarrow> sys_val k Sys_socket;
     if fd = -1 then State_Monad.return (-1)
     else do {
       r \<leftarrow> sys_val k (Sys_bind fd (strncpy 108 path));
       r \<leftarrow> (if r = -1 then State_Monad.return (-1) else sys_val k (Sys_listen fd 16));
       r \<leftarrow> (if r = -1 then State_Monad.return (-1)
             else if chmod_socket then sys_val k (Sys_chmod path mode) else State_Monad.return 0);
       r \<leftarrow> (if r = -1 then State_Monad.return (-1)
             else if uid \<noteq> -1 \<or> gid \<noteq> -1 then sys_val k (Sys_chown path uid gid) else State_Monad.return 0);
       if r = -1 then do { _ \<leftarrow> sys_val k (Sys_close fd); State_Monad.return (-1) }
       else State_Monad.return fd
     }
   }"

definition open_socket :: "kernel \<Rightarrow> string \<Rightarrow> int \<Rightarrow> int \<Rightarrow> ('a os_scheme, int) state" where
  "open_socket k path uid gid = open_socket_internal k path uid gid (uid \<noteq> -1 \<or> gid \<noteq> -1) 504"

definition open_control_socket :: "kernel \<Rightarrow> string \<Rightarrow> ('a os_scheme, int) state" where
  "open_control_socket k path = open_socket_internal k path (-1) (-1) True 384"

text \<open>\<open>lstat\<close> stores the mode of the file in \<open>sr_out\<close>.\<close>

abbreviation (input) "S_IFMT \<equiv> (61440::int)"
abbreviation (input) "S_IFSOCK \<equiv> (49152::int)"

text \<open>The check for a left-over socket; false is the early return of \<open>main\<close> with status 1.\<close>

definition remove_leftover :: "kernel \<Rightarrow> bool \<Rightarrow> string \<Rightarrow> ('a os_scheme, bool) state" where
  "remove_leftover k unlink_existing path = do {
     r \<leftarrow> sys k (Sys_lstat path);
     if sr_val r \<noteq> 0 then State_Monad.return True
     else if sr_out r AND S_IFMT \<noteq> S_IFSOCK then State_Monad.return False
     else if \<not> unlink_existing then State_Monad.return False
     else do {
       r \<leftarrow> sys_val k (Sys_unlink path);
       State_Monad.return (r \<noteq> -1)
     }
   }"

section \<open>The labels at the end of \<open>main\<close>\<close>

definition error_server :: "kernel \<Rightarrow> int \<Rightarrow> (world, int) state" where
  "error_server k status = do { server_finish k; State_Monad.return status }"

definition error_socket :: "kernel \<Rightarrow> options \<Rightarrow> int \<Rightarrow> (world, int) state" where
  "error_socket k cf status = do {
     _ \<leftarrow> sys_val k (Sys_unlink (socket_path cf));
     error_server k status
   }"

definition error_control_socket :: "kernel \<Rightarrow> options \<Rightarrow> int \<Rightarrow> int \<Rightarrow> (world, int) state" where
  "error_control_socket k cf control_socket_fd status = do {
     _ \<leftarrow> (case control_socket_path cf of
         None \<Rightarrow> State_Monad.return 0
       | Some path \<Rightarrow> do {
           close_unless_unset k control_socket_fd;
           sys_val k (Sys_unlink path)
         });
     error_socket k cf status
   }"

section \<open>Start and loop\<close>

text \<open>Listening on the control socket: the left summand is the exit status, the right one the descriptor.\<close>

definition listen_control :: "kernel \<Rightarrow> options \<Rightarrow> (world, int + int) state" where
  "listen_control k cf = (case control_socket_path cf of
     None \<Rightarrow> State_Monad.return (Inr (-1))
   | Some path \<Rightarrow> do {
       control_socket_fd \<leftarrow> open_control_socket k path;
       if control_socket_fd = -1 then do {
         r \<leftarrow> error_socket k cf 1;
         State_Monad.return (Inl r)
       } else do {
         e \<leftarrow> poller_add_fd k control_socket_fd EVENT_READABLE Control_handle_connection;
         if e = None then do {
           _ \<leftarrow> sys_val k (Sys_close control_socket_fd);
           r \<leftarrow> error_control_socket k cf (-1) 1;
           State_Monad.return (Inl r)
         } else State_Monad.return (Inr control_socket_fd)
       }
     })"

definition notify_ready :: "kernel \<Rightarrow> options \<Rightarrow> ('a os_scheme, unit) state" where
  "notify_ready k cf =
     (if readiness cf \<noteq> -1 then do {
        _ \<leftarrow> sys_val k (Sys_write (readiness cf) [10]);
        _ \<leftarrow> sys_val k (Sys_close (readiness cf));
        State_Monad.return ()
      } else State_Monad.return ())"

definition start_serving :: "kernel \<Rightarrow> options \<Rightarrow> (world, int + int) state" where
  "start_serving k cf = do {
     r \<leftarrow> server_init k;
     if r = -1 then State_Monad.return (Inl 1)
     else do {
       socket_fd \<leftarrow> open_socket k (socket_path cf) (opt_uid cf) (opt_gid cf);
       if socket_fd = -1 then do {
         r \<leftarrow> error_server k 1;
         State_Monad.return (Inl r)
       } else do {
         e \<leftarrow> poller_add_fd k socket_fd EVENT_READABLE Server_handle_connection;
         if e = None then do {
           _ \<leftarrow> sys_val k (Sys_close socket_fd);
           r \<leftarrow> error_socket k cf 1;
           State_Monad.return (Inl r)
         } else do {
           c \<leftarrow> listen_control k cf;
           case c of
             Inl r \<Rightarrow> State_Monad.return (Inl r)
           | Inr control_socket_fd \<Rightarrow> do {
               notify_ready k cf;
               State_Monad.return (Inr control_socket_fd)
             }
         }
       }
     }
   }"

text \<open>The signals of a batch, one run of the handler each.\<close>

primrec deliver :: "kernel \<Rightarrow> int list \<Rightarrow> ('a poll_os_scheme, unit) state" where
  "deliver k [] = State_Monad.return ()"
| "deliver k (s # ss) = do { signal_handler k s; deliver k ss }"

text \<open>The event loop. \<open>None\<close>: the schedule is used up and the server still runs.\<close>

primrec main_loop :: "kernel \<Rightarrow> int list list \<Rightarrow> (world, int option) state" where
  "main_loop k [] = do { v \<leftarrow> get_server; State_Monad.return (if running v then None else Some 0) }"
| "main_loop k (b # bs) = do {
     v \<leftarrow> get_server;
     if \<not> running v then State_Monad.return (Some 0)
     else do {
       deliver k b;
       r \<leftarrow> poller_poll k (call_signal k) (call_fd k);
       if r = -1 then State_Monad.return (Some 1) else main_loop k bs
     }
   }"

text \<open>\<open>main\<close> after the options.\<close>

definition serve :: "kernel \<Rightarrow> options \<Rightarrow> int list list \<Rightarrow> (world, int option) state" where
  "serve k cf bs = do {
     ok \<leftarrow> remove_leftover k (unlink_existing_socket cf) (socket_path cf);
     if \<not> ok then State_Monad.return (Some 1)
     else do {
       ok \<leftarrow> (case control_socket_path cf of
               None \<Rightarrow> State_Monad.return True
             | Some path \<Rightarrow> remove_leftover k (unlink_existing_socket cf) path);
       if \<not> ok then State_Monad.return (Some 1)
       else do {
         s \<leftarrow> start_serving k cf;
         case s of
           Inl status \<Rightarrow> State_Monad.return (Some status)
         | Inr control_socket_fd \<Rightarrow> do {
             status \<leftarrow> main_loop k bs;
             case status of
               None \<Rightarrow> State_Monad.return None
             | Some status \<Rightarrow> do {
                 r \<leftarrow> error_control_socket k cf control_socket_fd status;
                 State_Monad.return (Some r)
               }
           }
       }
     }
   }"

definition seatd_main :: "kernel \<Rightarrow> string \<Rightarrow> string list \<Rightarrow> int list list \<Rightarrow> (world, int option) state" where
  "seatd_main k default_path args bs = do {
     r \<leftarrow> parse_options k (fst (getopt ''vhn:s:c:g:u:l:z'' [] args)) (default_options default_path);
     case r of
       Inl status \<Rightarrow> State_Monad.return (Some status)
     | Inr cf \<Rightarrow> serve k cf bs
   }"

section \<open>Start-up and end keep the invariant\<close>

lemma open_socket_calls [calls_frame]:
  "state_io_rel os_calls (open_socket_internal k path uid gid b mode)"
  "state_io_rel os_calls (open_socket k path uid gid)"
  "state_io_rel os_calls (open_control_socket k path)"
proof -
  show *: "state_io_rel os_calls (open_socket_internal k path uid gid b mode)" for uid gid b mode
    unfolding open_socket_internal_def by (intro calls.rules calls_frame)
  show "state_io_rel os_calls (open_socket k path uid gid)" "state_io_rel os_calls (open_control_socket k path)"
    unfolding open_socket_def open_control_socket_def by (rule *)+
qed

lemma startup_calls [calls_frame]:
  "state_io_rel os_calls (remove_leftover k b path)" "state_io_rel os_calls (notify_ready k cf)"
  unfolding remove_leftover_def notify_ready_def by (intro calls.rules calls_frame)+

definition known_option :: "char \<Rightarrow> bool" where
  "known_option c \<longleftrightarrow> c = CHR ''?'' \<or> takes_arg ''vhn:s:c:g:u:l:z'' c \<noteq> None"

lemma parse_option_calls:
  assumes "known_option c"
  shows "state_io_rel os_calls (parse_option k (c, arg) cf)"
proof -
  have known: "c \<in> set ''vhnscgulz?''" using assms by (auto simp: known_option_def split: if_splits)
  have cond: "(b \<Longrightarrow> state_io_rel os_calls m) \<Longrightarrow> (\<not> b \<Longrightarrow> state_io_rel os_calls n) \<Longrightarrow> state_io_rel os_calls (if b then m else n)"
    for b and m n :: "('a os_scheme, int + options) state" by simp
  show ?thesis
    unfolding parse_option_def Let_def fst_conv
    by (intro cond calls.return calls.bind sys_calls) (use known in \<open>simp only: list.set insert_iff empty_iff simp_thms\<close>)
qed

lemma parse_options_calls:
  assumes "\<And>oa. oa \<in> set oas \<Longrightarrow> known_option (fst oa)"
  shows "state_io_rel os_calls (parse_options k oas cf)"
  using assms
proof (induction oas arbitrary: cf)
  case (Cons oa oas)
  then show ?case
    using parse_option_calls [of "fst oa" k "snd oa"] by (auto intro!: calls.bind calls.case_sum calls.return)
qed (simp add: calls.return)

text \<open>The labels free everything.\<close>

lemma server_ok_freed:
  assumes "server_ok w" and "send_ok k"
  shows "wp (server_finish k) (\<lambda>_. all_freed) w"
  using server_finish_inv [OF assms(1) [unfolded server_ok_def]] assms(2) by simp

lemma labels_free:
  assumes ok: "server_ok w" and send: "send_ok k" and Q: "\<And>w'. all_freed w' \<Longrightarrow> Q status w'"
  shows "wp (error_server k status) Q w" "wp (error_socket k cf status) Q w"
    "wp (error_control_socket k cf fd status) Q w"
proof -
  have server: "wp (error_server k status) Q v" if "server_ok v" for v
    unfolding error_server_def wp_bind wp_return
    by (rule wp_mono [OF server_ok_freed [OF that send]]) (rule Q)
  have socket: "wp (error_socket k cf status) Q v" if "server_ok v" for v
    unfolding error_socket_def wp_bind by (rule wp_server_calls [OF sys_val_calls that]) (rule server)
  show "wp (error_server k status) Q w" "wp (error_socket k cf status) Q w"
    using ok server socket by auto
  show "wp (error_control_socket k cf fd status) Q w"
    using ok unfolding error_control_socket_def
    by (auto simp: wp_bind wp_return wp_case_option intro!: socket wp_server_calls [OF sys_val_calls]
        wp_server_calls [OF close_unless_unset_calls])
qed

text \<open>The state while the daemon serves: the invariant, and the signals that the server asked for.\<close>

definition up :: "world \<Rightarrow> bool" where
  "up w \<longleftrightarrow> server_ok w \<and> signal_pairs (the_poller w) = server_signals"

lemma up_serving: "kernel_ok k \<Longrightarrow> serving k server_signals w = up w"
  by (simp add: up_def serving_def)

lemma wp_up_calls:
  assumes "state_io_rel os_calls m" and "up w" and "\<And>r w'. up w' \<Longrightarrow> Q r w'"
  shows "wp m Q w"
  by (rule wp_server_calls [OF assms(1)]) (use assms(2,3) in \<open>auto simp: up_def data_eq\<close>)

lemma add_listener_inv:
  assumes "up w" and "f = Server_handle_connection \<or> f = Control_handle_connection"
    and "\<And>r w'. up w' \<Longrightarrow> Q r w'"
  shows "wp (poller_add_fd k fd ev f) Q w"
proof (rule poller_add_listener_inv)
  show "server_ok w" using assms(1) by (simp add: up_def)
  show "f = Server_handle_connection \<or> f = Control_handle_connection \<or> f = Server_handle_vt_event"
    using assms(2) by auto
qed (use assms in \<open>auto simp: up_def signal_pairs_def\<close>)

lemma listen_control_inv:
  assumes ok: "up w" and send: "send_ok k"
    and Q: "\<And>r w'. (case r of Inl status \<Rightarrow> all_freed w' | Inr fd \<Rightarrow> up w') \<Longrightarrow> Q r w'"
  shows "wp (listen_control k cf) Q w"
proof -
  have server: "server_ok v" if "up v" for v using that by (simp add: up_def)
  show ?thesis
    using ok unfolding listen_control_def
    by (auto simp: wp_bind wp_return wp_if wp_case_option
        intro!: Q wp_up_calls [OF open_socket_calls(3)] wp_up_calls [OF sys_val_calls]
          add_listener_inv labels_free [OF server send])
qed

lemma start_serving_inv:
  assumes init: "blank w" and send: "send_ok k"
    and Q: "\<And>r w'. (case r of Inl status \<Rightarrow> blank w' | Inr fd \<Rightarrow> up w') \<Longrightarrow> Q r w'"
  shows "wp (start_serving k cf) Q w"
proof -
  have server: "server_ok v" if "up v" for v using that by (simp add: up_def)
  have freed: "blank v" if "all_freed v" for v using that by (simp add: all_freed_def blank_def)
  define rest where "rest = do {
     c \<leftarrow> listen_control k cf;
     case c of
       Inl r \<Rightarrow> State_Monad.return (Inl r)
     | Inr control_socket_fd \<Rightarrow> do {
         notify_ready k cf;
         State_Monad.return (Inr control_socket_fd :: int + int)
       }
   }"
  have rest: "wp rest Q v" if "up v" for v
    using that unfolding rest_def
    by (auto simp: wp_bind wp_return wp_case_sum split: sum.splits
        intro!: listen_control_inv [OF _ send] Q freed wp_up_calls [OF startup_calls(2)])
  have listen: "wp (do {
       socket_fd \<leftarrow> open_socket k (socket_path cf) (opt_uid cf) (opt_gid cf);
       if socket_fd = -1 then do {
         r \<leftarrow> error_server k 1;
         State_Monad.return (Inl r)
       } else do {
         e \<leftarrow> poller_add_fd k socket_fd EVENT_READABLE Server_handle_connection;
         if e = None then do {
           _ \<leftarrow> sys_val k (Sys_close socket_fd);
           r \<leftarrow> error_socket k cf 1;
           State_Monad.return (Inl r)
         } else rest
       }
     }) Q v" if "up v" for v
    using that
    by (auto simp: wp_bind wp_return wp_if intro!: Q freed rest wp_up_calls [OF open_socket_calls(2)]
        wp_up_calls [OF sys_val_calls] add_listener_inv labels_free [OF server send])
  show ?thesis
    unfolding start_serving_def rest_def [symmetric] wp_bind
    by (rule wp_mono [OF server_init_inv [OF init send]])
      (use listen in \<open>auto simp: wp_bind wp_return wp_if started_def one_seat_def up_def intro!: Q\<close>)
qed

section \<open>Signals and rounds keep the invariant\<close>

text \<open>Every seat bound to VTs knows the current VT.\<close>

definition vt_known :: "world \<Rightarrow> bool" where
  "vt_known w \<longleftrightarrow> list_all (\<lambda>s. case seat_heap w s of None \<Rightarrow> True | Some st \<Rightarrow> vt_bound st \<longrightarrow> 0 \<le> cur_vt st) (seats (the_server w))"

definition may_arrive :: "world \<Rightarrow> int \<Rightarrow> bool" where
  "may_arrive w sig \<longleftrightarrow> (sig = SIGUSR1 \<or> sig = SIGUSR2 \<longrightarrow> vt_known w)"

lemma vt_known_seat:
  assumes "server_ok w" and "vt_known w" and "seat_heap w s = Some st" and "vt_bound st"
  shows "0 \<le> cur_vt st"
proof -
  have "s \<in> set (seats (the_server w))"
    using assms(1,3) by (auto simp: server_ok_def world_ok_def seats_ok_def)
  then show ?thesis using assms(2-4) by (auto simp: vt_known_def list_all_iff)
qed

definition raise_signal :: "int \<Rightarrow> poller \<Rightarrow> poller" where
  "raise_signal sig p = p\<lparr>signals := map (\<lambda>(a, s). (a, if ss_signal s = sig then s\<lparr>ss_raised := True\<rparr> else s)) (signals p)\<rparr>"

lemma raise_signal_simps [simp]:
  "fds (raise_signal sig p) = fds p" "live_source (raise_signal sig p) a f = live_source p a f"
  "fst ` set (signals (raise_signal sig p)) = fst ` set (signals p)"
  "signal_pairs (raise_signal sig p) = signal_pairs p" "poller_ok (raise_signal sig p) = poller_ok p"
proof -
  have fst: "map fst (signals (raise_signal sig p)) = map fst (signals p)"
    by (simp add: raise_signal_def comp_def case_prod_beta)
  then show "fst ` set (signals (raise_signal sig p)) = fst ` set (signals p)"
    by (metis list.set_map)
  show "fds (raise_signal sig p) = fds p" "live_source (raise_signal sig p) a f = live_source p a f"
    by (simp_all add: raise_signal_def live_source_def)
  show "signal_pairs (raise_signal sig p) = signal_pairs p"
  proof -
    let ?g = "\<lambda>(a, s). (a, if ss_signal s = sig then s\<lparr>ss_raised := True\<rparr> else s)"
    have list: "signal_pairs q = set (map (\<lambda>(a, s). (ss_signal s, ss_func s)) (filter (\<lambda>(a, s). \<not> ss_killed s) (signals q)))" for q
      unfolding signal_pairs_def set_map set_filter by (rule arg_cong [where f = "image _"]) auto
    have "map (\<lambda>(a, s). (ss_signal s, ss_func s)) (filter (\<lambda>(a, s). \<not> ss_killed s) (map ?g ss)) =
        map (\<lambda>(a, s). (ss_signal s, ss_func s)) (filter (\<lambda>(a, s). \<not> ss_killed s) ss)" for ss :: "(nat \<times> event_source_signal) list"
      by (induction ss) (auto split: if_splits)
    moreover have "signals (raise_signal sig p) = map ?g (signals p)" by (simp add: raise_signal_def)
    ultimately show ?thesis by (simp only: list)
  qed
  show "poller_ok (raise_signal sig p) = poller_ok p"
    unfolding poller_ok_def fst by (simp add: raise_signal_def)
qed

lemma up_raise:
  assumes up: "up w" and sig: "may_arrive w sig"
  shows "up (w\<lparr>the_poller := raise_signal sig (the_poller w)\<rparr>)"
proof -
  let ?p = "raise_signal sig (the_poller w)"
  have st: "steady (guard_at (the_poller w)) w" and pairs: "signal_pairs (the_poller w) = server_signals"
    using up by (simp_all add: up_def server_ok_def)
  have known: "vt_signal (signals (the_poller w)) \<or> vt_known w" if raised: "vt_signal (signals ?p)"
  proof (rule disjCI)
    assume quiet: "\<not> vt_known w"
    obtain a s where s: "(a, s) \<in> set (signals ?p)" "ss_raised s" "\<not> ss_killed s" "ss_func s \<noteq> Server_handle_kill"
      using raised by (auto simp: vt_signal_def)
    then have "(ss_signal s, ss_func s) \<in> signal_pairs ?p" by (force simp: signal_pairs_def)
    then have "ss_signal s = SIGUSR1 \<or> ss_signal s = SIGUSR2" using s(4) by (auto simp: pairs server_signals_def)
    then have "sig \<noteq> ss_signal s" using sig quiet by (auto simp: may_arrive_def)
    with s show "vt_signal (signals (the_poller w))"
      by (force simp: raise_signal_def vt_signal_def split: if_splits)
  qed
  have "seats_ok (vt_signal (signals ?p)) {} (client_heap w) (seat_heap w) (seats (the_server w)) (next_addr w)"
  proof -
    have "seat_ok (vt_signal (signals ?p)) (client_heap w) s st'" if s: "seat_heap w s = Some st'" for s st'
      using invD(4) [OF st s] known vt_known_seat [OF _ _ s] up by (auto simp: seat_ok_def up_def)
    then show ?thesis using st by (auto simp: world_ok_def seats_ok_def)
  qed
  with st have "server_ok (w\<lparr>the_poller := ?p\<rparr>)"
    by (simp add: server_ok_def world_ok_def poll_at_def sources_ok_def controls_ok_def)
  then show ?thesis by (simp add: up_def pairs)
qed

lemma signal_handler_inv:
  assumes "up w" and "may_arrive w sig" and "\<And>w'. up w' \<Longrightarrow> vt_known w' = vt_known w \<Longrightarrow> Q () w'"
  shows "wp (signal_handler k sig) Q w"
proof -
  let ?v = "w\<lparr>the_poller := raise_signal sig (the_poller w)\<rparr>"
  have upv: "up ?v" by (rule up_raise [OF assms(1,2)])
  have "Q () v" if "pdata v = pdata ?v" for v
    using upv server_ok_data [OF that] that by (intro assms(3)) (auto simp: up_def vt_known_def data_eq)
  then show ?thesis
    using assms(1,3) by (auto simp: signal_handler_def wp_simps Let_def data_eq raise_signal_def)
qed

lemma deliver_inv:
  assumes "\<And>w'. up w' \<Longrightarrow> Q () w'"
  shows "up w \<Longrightarrow> (\<And>s. s \<in> set b \<Longrightarrow> may_arrive w s) \<Longrightarrow> wp (deliver k b) Q w"
proof (induction b arbitrary: w)
  case (Cons s b)
  show ?case
    unfolding deliver.simps wp_bind
    by (rule signal_handler_inv [OF Cons.prems(1)]) (use Cons in \<open>auto simp: may_arrive_def\<close>)
qed (simp add: wp_return assms)

lemma round_inv:
  assumes "up w" and "kernel_ok k"
  shows "wp (poller_poll k (call_signal k) (call_fd k)) (\<lambda>_. up) w"
  using srv.poll_keeps [of k server_signals w k] assms by (simp add: up_serving)

lemma main_loop_inv:
  assumes k: "kernel_ok k" and Q: "\<And>r w'. up w' \<Longrightarrow> Q r w'"
  shows "up w \<Longrightarrow> \<forall>b \<in> set bs. SIGUSR1 \<notin> set b \<and> SIGUSR2 \<notin> set b \<Longrightarrow> wp (main_loop k bs) Q w"
proof (induction bs arbitrary: w)
  case (Cons b bs)
  have poll: "wp (poller_poll k (call_signal k) (call_fd k)) Q' v" if "up v" "\<And>r w'. up w' \<Longrightarrow> Q' r w'" for Q' v
    by (rule wp_mono [OF round_inv [OF that(1) k]]) (rule that(2))
  show ?case
    using Cons by (auto simp: wp_bind wp_return wp_if wp_get_server may_arrive_def intro!: Q deliver_inv poll)
qed (simp add: wp_bind wp_return wp_get_server Q)

text \<open>A run of the whole program fails no assertion, and when it ends it has freed everything.\<close>

definition ended :: "int option \<Rightarrow> world \<Rightarrow> bool" where
  "ended r w \<longleftrightarrow> (case r of None \<Rightarrow> up w | Some status \<Rightarrow> blank w)"

lemma ended_simps [simp]: "ended None = up" "ended (Some status) = blank"
  by (simp_all add: ended_def fun_eq_iff)

lemma serve_inv:
  assumes init: "blank w" and k: "kernel_ok k" and bs: "\<forall>b \<in> set bs. SIGUSR1 \<notin> set b \<and> SIGUSR2 \<notin> set b"
  shows "wp (serve k cf bs) ended w"
proof -
  have send: "send_ok k" using k by (simp add: kernel_ok_def)
  have server: "server_ok v" if "up v" for v using that by (simp add: up_def)
  have freed: "wp (error_control_socket k cf fd status) (\<lambda>_. blank) v" if "up v" for fd status v
    by (rule labels_free(3) [OF server [OF that] send]) (simp add: all_freed_def blank_def)
  have calls: "wp m Q v" if "state_io_rel os_calls m" "blank v" "\<And>r v'. blank v' \<Longrightarrow> Q r v'"
    for m :: "(world, bool) state" and Q v
    by (rule wp_data_calls [OF that(1)]) (use that(2,3) in \<open>auto simp: blank_def data_eq flags_def\<close>)
  define rest where "rest = do {
         s \<leftarrow> start_serving k cf;
         case s of
           Inl status \<Rightarrow> State_Monad.return (Some status)
         | Inr control_socket_fd \<Rightarrow> do {
             status \<leftarrow> main_loop k bs;
             case status of
               None \<Rightarrow> State_Monad.return None
             | Some status \<Rightarrow> do {
                 r \<leftarrow> error_control_socket k cf control_socket_fd status;
                 State_Monad.return (Some r)
               }
           }
       }"
  have rest: "wp rest ended v" if "blank v" for v
    using that unfolding rest_def
    by (auto simp: wp_bind wp_return wp_case_sum wp_case_option split: sum.splits
        intro!: start_serving_inv [OF _ send] main_loop_inv [OF k] bs freed)
  show ?thesis
    using init unfolding serve_def rest_def [symmetric]
    by (auto simp: wp_bind wp_return wp_if wp_case_option intro!: rest calls startup_calls(1))
qed

end
