(* ===== verification/Reach.thy ===== *)
theory Reach
  imports Daemon
begin

text \<open>
  The running daemon as a transition system: a state is reachable when the start-up of \<open>main\<close>,
  rounds of the event loop and arriving signals lead to it. Signals of the VT switching
  protocol arrive only once the seat knows its VT, as the kernel sends them to the process
  that asked for them on an open VT. The invariant holds in every reachable state.
\<close>

section \<open>Steps\<close>

inductive daemon_step :: "kernel \<Rightarrow> world \<Rightarrow> world \<Rightarrow> bool" for k where
  Signal: "may_arrive w sig \<Longrightarrow> run_state (signal_handler k sig) w = ((), w') \<Longrightarrow> daemon_step k w w'"
| Round: "running (the_server w) \<Longrightarrow> run_state (poller_poll k (call_signal k) (call_fd k)) w = (r, w') \<Longrightarrow> daemon_step k w w'"

inductive reachable :: "kernel \<Rightarrow> world \<Rightarrow> bool" for k where
  Start: "blank w \<Longrightarrow> run_state (start_serving k cf) w = (Inr fd, w') \<Longrightarrow> reachable k w'"
| Step: "reachable k w \<Longrightarrow> daemon_step k w w' \<Longrightarrow> reachable k w'"

lemma daemon_step_up:
  assumes "kernel_ok k" and "up w" and "daemon_step k w w'"
  shows "up w'"
  using assms(3)
proof (cases rule: daemon_step.cases)
  case (Signal sig)
  have "wp (signal_handler k sig) (\<lambda>_. up) w"
    by (rule signal_handler_inv [OF assms(2) Signal(1)])
  then show ?thesis using Signal(2) by (rule wpD)
next
  case (Round r)
  from round_inv [OF assms(2,1)] Round(2) show ?thesis by (rule wpD)
qed

lemma reachable_up:
  assumes "kernel_ok k" and "reachable k w"
  shows "up w"
  using assms(2)
proof (induction rule: reachable.induct)
  case (Start w cf fd w')
  have "wp (start_serving k cf) (\<lambda>r w'. case r of Inl status \<Rightarrow> blank w' | Inr fd \<Rightarrow> up w') w"
    by (rule start_serving_inv [OF Start(1)]) (use assms(1) in \<open>simp_all add: kernel_ok_def\<close>)
  from wpD [OF this Start(2)] show ?case by simp
next
  case (Step w w')
  then show ?case using daemon_step_up [OF assms(1)] by blast
qed

lemma reachable_steady:
  "kernel_ok k \<Longrightarrow> reachable k w \<Longrightarrow> steady (guard_at (the_poller w)) w"
  using reachable_up by (simp add: up_def server_ok_def)

section \<open>A sample run\<close>

text \<open>
  A kernel on which a client connects in the first round and opens the seat in the second;
  the seat is not bound to VTs. The states of this run are reachable.
\<close>

definition polls :: "history \<Rightarrow> nat" where
  "polls h = length (filter (\<lambda>(c, r). case c of Sys_poll _ \<Rightarrow> True | _ \<Rightarrow> False) h)"

definition demo_answer :: "history \<Rightarrow> syscall \<Rightarrow> sysret" where
  "demo_answer h c = (case c of
     Sys_socket \<Rightarrow> ret 5
   | Sys_accept fd \<Rightarrow> ret 7
   | Sys_getenv v \<Rightarrow> (ret 1)\<lparr>sr_str := ''0''\<rparr>
   | Sys_poll ps \<Rightarrow> (ret 1)\<lparr>sr_ints := map (\<lambda>(fd, ev). if fd = (if polls h = 0 then 5 else 7) then 1 else 0) ps\<rparr>
   | Sys_recvmsg fd n \<Rightarrow> if n < 4 then ret_fail EAGAIN else (ret 4)\<lparr>sr_data := [1, 0, 0, 0]\<rparr>
   | Sys_sendmsg fd bs cs \<Rightarrow> ret (int (length bs))
   | Sys_read fd n \<Rightarrow> ret_fail EAGAIN
   | _ \<Rightarrow> ret 0)"

definition demo_kernel :: kernel where
  "demo_kernel = \<lparr>answer = demo_answer, retry_fuel = 3, has_hidiocrevoke = True\<rparr>"

definition blank_world :: world where
  "blank_world = \<lparr>errno = 0, trace = [], aborted = False, stuck = False, next_addr = 1, global_poller = False,
     the_poller = \<lparr>signals = [], fds = [], signal_fds = (0, 0), pollfds = [], fd_event_sources = 0, dirty = False\<rparr>,
     client_heap = Map.empty, seat_heap = Map.empty, control_heap = Map.empty,
     the_server = \<lparr>running = False, seats = [], idle_clients = [], control_clients = [], vt_event_running = False,
       vt_event_thread_started = False, vt_event_fd = 0, vt_event_pipe = (0, 0)\<rparr>\<rparr>"

abbreviation (input) "demo_options \<equiv> default_options ''/run/dde-seatd.sock''"

lemma demo_kernel_ok: "kernel_ok demo_kernel"
  by (auto simp: kernel_ok_def send_ok_def recv_ok_def vt_pipe_ok_def demo_kernel_def demo_answer_def Let_def ret_def ret_fail_def)

lemma blank_world_blank: "blank blank_world"
  by (simp add: blank_def blank_world_def)

lemma demo_answers [simp]:
  "answer demo_kernel h Sys_socket = ret 5"
  "answer demo_kernel h (Sys_accept fd) = ret 7"
  "answer demo_kernel h (Sys_getenv v) = (ret 1)\<lparr>sr_str := ''0''\<rparr>"
  "answer demo_kernel h (Sys_read fd n) = ret_fail EAGAIN"
  "answer demo_kernel h Sys_calloc = ret 0" "answer demo_kernel h Sys_pipe = ret 0" "answer demo_kernel h Sys_pipe2 = ret 0"
  "answer demo_kernel h Sys_realloc = ret 0" "answer demo_kernel h (Sys_peercred fd) = ret 0"
  "answer demo_kernel h (Sys_fcntl fd fc) = ret 0" "answer demo_kernel h (Sys_sigaction i b) = ret 0"
  "answer demo_kernel h (Sys_open p fl) = ret 0" "answer demo_kernel h (Sys_strdup p) = ret 0"
  "answer demo_kernel h Sys_pthread_create = ret 0" "answer demo_kernel h (Sys_write fd bs) = ret 0"
  "answer demo_kernel h (Sys_bind fd p) = ret 0" "answer demo_kernel h (Sys_listen fd n) = ret 0"
  "answer demo_kernel h (Sys_poll ps) = (ret 1)\<lparr>sr_ints := map (\<lambda>(fd, ev). if fd = (if polls h = 0 then 5 else 7) then 1 else 0) ps\<rparr>"
  "answer demo_kernel h (Sys_recvmsg fd n) = (if n < 4 then ret_fail EAGAIN else (ret 4)\<lparr>sr_data := [1, 0, 0, 0]\<rparr>)"
  "answer demo_kernel h (Sys_sendmsg fd bs cs) = ret (int (length bs))"
  "retry_fuel demo_kernel = 3"
  by (simp_all add: demo_kernel_def demo_answer_def)

lemmas startup_defs = start_serving_def server_init_def poller_init_def set_nonblock_def wp_simps Let_def blank_world_def
  poller_add_signal_def seat_create_def start_vt_events_def terminal_open_def get_tty_path_def create_vt_event_pipe_def
  server_set_nonblock_def server_set_cloexec_def open_socket_def open_socket_internal_def default_options_def
  listen_control_def notify_ready_def pipe_fds_def

definition demo_world :: world where
  "demo_world = snd (run_state (start_serving demo_kernel demo_options) blank_world)"

lemma demo_start: "run_state (start_serving demo_kernel demo_options) blank_world = (Inr (-1), demo_world)"
  and demo_running: "running (the_server demo_world)" and demo_stuck: "\<not> stuck demo_world"
proof -
  have "wp (start_serving demo_kernel demo_options) (\<lambda>r w. r = Inr (-1) \<and> running (the_server w) \<and> \<not> stuck w) blank_world"
    by (simp add: startup_defs)
  then show "run_state (start_serving demo_kernel demo_options) blank_world = (Inr (-1), demo_world)"
    "running (the_server demo_world)" "\<not> stuck demo_world"
    by (auto simp: wp_def demo_world_def split: prod.splits)
qed

lemma demo_reachable: "reachable demo_kernel demo_world"
  by (rule reachable.Start [OF blank_world_blank demo_start])

end
