(* ===== verification/Device_Spec.thy ===== *)
theory Device_Spec
  imports Reach
begin

text \<open>
  The devices of a client (\<open>seatd/seat.c\<close>) as a table of counted references: opening a device
  takes a reference, closing it gives one back, and the device is closed with its last
  reference. The abstract contract is a locale; the lists of devices satisfy it, and
  \<open>seat_open_device\<close> and \<open>seat_close_device\<close> refine its two operations.
\<close>

section \<open>Tables of counted references\<close>

locale refcount_table =
  fixes ok :: "'t \<Rightarrow> bool" and room :: "'t \<Rightarrow> bool"
    and entry :: "'t \<Rightarrow> 'p \<Rightarrow> (int \<times> int) option"
    and acquire :: "'p \<Rightarrow> 't \<Rightarrow> 't" and release :: "'p \<Rightarrow> 't \<Rightarrow> 't"
  assumes acquire_ok: "ok t \<Longrightarrow> ok (acquire p t)"
    and release_ok: "ok t \<Longrightarrow> ok (release p t)"
    and acquire_held: "ok t \<Longrightarrow> entry t p = Some (i, n) \<Longrightarrow> entry (acquire p t) = (entry t)(p \<mapsto> (i, n + 1))"
    and acquire_new: "ok t \<Longrightarrow> entry t p = None \<Longrightarrow> room t \<Longrightarrow>
      \<exists>i. (\<forall>q j m. entry t q = Some (j, m) \<longrightarrow> j \<noteq> i) \<and> entry (acquire p t) = (entry t)(p \<mapsto> (i, 1))"
    and release_entry: "ok t \<Longrightarrow> entry t p = Some (i, n) \<Longrightarrow>
      entry (release p t) = (entry t)(p := if n > 1 then Some (i, n - 1) else None)"
begin

lemma iterate_ok: "ok t \<Longrightarrow> ok ((acquire p ^^ n) t)" "ok t \<Longrightarrow> ok ((release p ^^ n) t)"
  by (induction n) (simp_all add: acquire_ok release_ok)

lemma acquire_more:
  assumes "ok t" and "entry t p = Some (i, m)"
  shows "entry ((acquire p ^^ n) t) = (entry t)(p \<mapsto> (i, m + int n))"
proof (induction n)
  case (Suc n)
  have "entry (acquire p ((acquire p ^^ n) t)) = (entry ((acquire p ^^ n) t))(p \<mapsto> (i, m + int n + 1))"
    by (rule acquire_held) (use iterate_ok(1) [OF assms(1)] Suc.IH in auto)
  then show ?case by (auto simp: Suc.IH fun_eq_iff)
qed (use assms(2) in \<open>simp add: fun_upd_idem\<close>)

lemma release_all:
  assumes "ok t" and "entry t p = Some (i, int (Suc n))"
  shows "entry ((release p ^^ Suc n) t) = (entry t)(p := None)"
  using assms
proof (induction n arbitrary: t)
  case 0
  then show ?case using release_entry [OF 0(1,2)] by simp
next
  case (Suc n)
  have "entry (release p t) = (entry t)(p \<mapsto> (i, int (Suc n)))"
    using release_entry [OF Suc.prems] by simp
  then have "entry ((release p ^^ Suc n) (release p t)) = (entry (release p t))(p := None)"
    by (intro Suc.IH release_ok Suc.prems(1)) simp
  then show ?case
    using \<open>entry (release p t) = _\<close> by (simp add: funpow_swap1 [of "release p"])
qed

text \<open>As many releases as acquisitions restore the table.\<close>

lemma balanced:
  assumes "ok t" and "entry t p = None" and "room t"
  shows "entry ((release p ^^ n) ((acquire p ^^ n) t)) = entry t"
proof (cases n)
  case (Suc m)
  obtain i where i: "entry (acquire p t) = (entry t)(p \<mapsto> (i, 1))"
    using acquire_new [OF assms] by auto
  have more: "entry ((acquire p ^^ m) (acquire p t)) = (entry t)(p \<mapsto> (i, int (Suc m)))"
    using acquire_more [OF acquire_ok [OF assms(1)], where i = i and m = 1] i by (simp add: algebra_simps)
  have "entry ((release p ^^ Suc m) ((acquire p ^^ m) (acquire p t))) = (entry ((acquire p ^^ m) (acquire p t)))(p := None)"
    by (rule release_all) (use iterate_ok(1) [OF acquire_ok [OF assms(1)]] more in auto)
  then show ?thesis
    using more assms(2) Suc by (simp add: funpow_swap1 [of "acquire p"] fun_upd_idem)
qed simp

end

section \<open>The device lists\<close>

definition dev_entry :: "seat_device list \<Rightarrow> string \<Rightarrow> (int \<times> int) option" where
  "dev_entry ds = map_of (map (\<lambda>d. (dev_path d, (device_id d, ref_cnt d))) ds)"

text \<open>The change that a successful \<open>seat_open_device\<close> makes; a full list stays as it is.\<close>

definition acquire_dev :: "int \<Rightarrow> seat_device_type \<Rightarrow> string \<Rightarrow> seat_device list \<Rightarrow> seat_device list" where
  "acquire_dev fd type path ds = (case scan_devices path ds 0 1 of
     Inl i \<Rightarrow> ds[i := (ds ! i)\<lparr>ref_cnt := ref_cnt (ds ! i) + 1\<rparr>]
   | Inr (did, n) \<Rightarrow> if n \<ge> MAX_SEAT_DEVICES then ds else \<lparr>device_id = did, dev_fd = fd, ref_cnt = 1,
       dev_active = True, dev_path = path, dev_type = type\<rparr> # ds)"

definition release_dev :: "string \<Rightarrow> seat_device list \<Rightarrow> seat_device list" where
  "release_dev path ds = (case find_index (\<lambda>d. dev_path d = path) ds of None \<Rightarrow> ds | Some i \<Rightarrow> drop_ref i ds)"

lemma find_index_None: "find_index P xs = None \<longleftrightarrow> (\<forall>x \<in> set xs. \<not> P x)"
  by (induction xs) (auto simp: find_index_def Let_def split: if_splits)

lemma dev_entry_nth:
  assumes "devices_ok ds" and "i < length ds"
  shows "dev_entry ds (dev_path (ds ! i)) = Some (device_id (ds ! i), ref_cnt (ds ! i))"
proof -
  have "distinct (map fst (map (\<lambda>d. (dev_path d, (device_id d, ref_cnt d))) ds))"
    using assms(1) by (simp add: devices_ok_def comp_def)
  then show ?thesis
    unfolding dev_entry_def by (rule map_of_is_SomeI) (use assms(2) in auto)
qed

lemma dev_entry_None: "dev_entry ds p = None \<longleftrightarrow> p \<notin> dev_path ` set ds"
  by (auto simp: dev_entry_def map_of_eq_None_iff image_image)

lemma dev_entry_id: "dev_entry ds q = Some (j, m) \<Longrightarrow> \<exists>d \<in> set ds. device_id d = j"
  unfolding dev_entry_def by (auto dest!: map_of_SomeD)

lemma dev_entry_upd:
  assumes "devices_ok ds" and "i < length ds" and "dev_path d = dev_path (ds ! i)"
  shows "dev_entry (ds[i := d]) = (dev_entry ds)(dev_path d \<mapsto> (device_id d, ref_cnt d))"
proof
  fix q
  have dist: "distinct (map dev_path (ds[i := d]))" "distinct (map dev_path ds)"
    using assms by (simp_all add: devices_ok_def map_list_update_same)
  show "dev_entry (ds[i := d]) q = ((dev_entry ds)(dev_path d \<mapsto> (device_id d, ref_cnt d))) q"
    using assms(2,3) dist
  proof (induction ds arbitrary: i)
    case (Cons e es)
    show ?case
    proof (cases i)
      case (Suc j)
      with Cons.prems have "es ! j \<in> set es" by simp
      with Cons.prems Suc have "dev_path e \<noteq> dev_path d" by (metis distinct.simps(2) imageI list.set_map list.simps(9) nth_Cons_Suc)
      then show ?thesis using Suc Cons by (auto simp: dev_entry_def)
    qed (use Cons.prems in \<open>simp add: dev_entry_def\<close>)
  qed simp
qed

lemma dev_entry_remove:
  assumes "devices_ok ds" and "i < length ds"
  shows "dev_entry (take i ds @ drop (Suc i) ds) = (dev_entry ds)(dev_path (ds ! i) := None)"
proof -
  have "distinct (map dev_path ds)" using assms(1) by (simp add: devices_ok_def)
  then show ?thesis
    using assms(2)
  proof (induction ds arbitrary: i)
    case (Cons e es)
    show ?case
    proof (cases i)
      case 0
      have "dev_entry es (dev_path e) = None" using Cons.prems(1) by (simp add: dev_entry_None)
      then show ?thesis using 0 by (auto simp: dev_entry_def fun_eq_iff)
    next
      case (Suc j)
      then have "dev_path e \<noteq> dev_path (es ! j)" using Cons.prems by (auto simp: nth_mem)
      then show ?thesis using Suc Cons.IH [of j] Cons.prems by (auto simp: dev_entry_def fun_eq_iff)
    qed
  qed simp
qed

lemma dev_entry_drop_ref:
  assumes "devices_ok ds" and "i < length ds"
  shows "dev_entry (drop_ref i ds) = (dev_entry ds)(dev_path (ds ! i) :=
    if ref_cnt (ds ! i) > 1 then Some (device_id (ds ! i), ref_cnt (ds ! i) - 1) else None)"
  using dev_entry_upd [OF assms, of "(ds ! i)\<lparr>ref_cnt := ref_cnt (ds ! i) - 1\<rparr>"] dev_entry_remove [OF assms]
  by (simp add: drop_ref_def Let_def)

lemma acquire_dev_ok:
  assumes "devices_ok ds" and "type \<noteq> SEAT_DEVICE_TYPE_NORMAL"
  shows "devices_ok (acquire_dev fd type p ds)"
proof (cases "scan_devices p ds 0 1")
  case (Inl i)
  then show ?thesis
    using scan_devices_found [OF Inl] devices_ok_ref [OF assms(1)] by (simp add: acquire_dev_def)
next
  case (Inr r)
  then show ?thesis
    using assms by (cases r) (auto simp: acquire_dev_def intro!: devices_ok_new)
qed

lemma acquire_dev_held:
  assumes "devices_ok ds" and "dev_entry ds p = Some (i, n)"
  shows "dev_entry (acquire_dev fd type p ds) = (dev_entry ds)(p \<mapsto> (i, n + 1))"
proof (cases "scan_devices p ds 0 1")
  case (Inl j)
  then have j: "j < length ds" "dev_path (ds ! j) = p" using scan_devices_found [OF Inl] by auto
  with assms(2) dev_entry_nth [OF assms(1) j(1)] have "device_id (ds ! j) = i" "ref_cnt (ds ! j) = n" by auto
  then show ?thesis
    using dev_entry_upd [OF assms(1) j(1), of "(ds ! j)\<lparr>ref_cnt := ref_cnt (ds ! j) + 1\<rparr>"] j Inl
    by (simp add: acquire_dev_def)
next
  case (Inr r)
  then have "p \<notin> dev_path ` set ds" using scan_devices_new [of p ds 0 1 "fst r" "snd r"] by simp
  with assms(2) dev_entry_None [of ds p] show ?thesis by auto
qed

lemma acquire_dev_new:
  assumes "dev_entry ds p = None" and "length ds < MAX_SEAT_DEVICES"
  shows "\<exists>i. (\<forall>q j m. dev_entry ds q = Some (j, m) \<longrightarrow> j \<noteq> i) \<and> dev_entry (acquire_dev fd type p ds) = (dev_entry ds)(p \<mapsto> (i, 1))"
proof (cases "scan_devices p ds 0 1")
  case (Inl j)
  then have "dev_path (ds ! j) = p" "j < length ds" using scan_devices_found [OF Inl] by auto
  with assms(1) show ?thesis unfolding dev_entry_None by (metis image_eqI nth_mem)
next
  case (Inr r)
  then have r: "snd r = length ds" "\<forall>e \<in> set ds. device_id e < fst r"
    using scan_devices_new [of p ds 0 1 "fst r" "snd r"] by auto
  have "j \<noteq> fst r" if "dev_entry ds q = Some (j, m)" for q j m
    using dev_entry_id [OF that] r(2) by auto
  then show ?thesis
    using Inr r(1) assms(2) by (intro exI [of _ "fst r"]) (auto simp: acquire_dev_def dev_entry_def split: prod.split)
qed

text \<open>The class of a path; paths of no class are refused before the table is looked at.\<close>

definition open_type :: "kernel \<Rightarrow> string \<Rightarrow> seat_device_type" where
  "open_type k p = (case device_type_of k p of Some t \<Rightarrow> t | None \<Rightarrow> SEAT_DEVICE_TYPE_WSCONS)"

lemma open_type_normal: "open_type k p \<noteq> SEAT_DEVICE_TYPE_NORMAL"
  using device_type_of_normal [of k p] by (auto simp: open_type_def split: option.split)

interpretation devs: refcount_table
  "\<lambda>ds. devices_ok ds" "\<lambda>ds. length ds < MAX_SEAT_DEVICES" dev_entry "\<lambda>p. acquire_dev fd (open_type k p) p" release_dev for k fd
proof
  fix ds p i n
  assume ok: "devices_ok ds"
  show "devices_ok (acquire_dev fd (open_type k p) p ds)" by (rule acquire_dev_ok [OF ok open_type_normal])
  show "devices_ok (release_dev p ds)"
    using ok by (auto simp: release_dev_def split: option.split dest!: find_index_Some intro: devices_ok_drop_ref)
  show "dev_entry (release_dev p ds) = (dev_entry ds)(p := if n > 1 then Some (i, n - 1) else None)"
    if e: "dev_entry ds p = Some (i, n)"
  proof (cases "find_index (\<lambda>d. dev_path d = p) ds")
    case None
    then have "p \<notin> dev_path ` set ds" by (auto simp: find_index_None)
    with e dev_entry_None [of ds p] show ?thesis by auto
  next
    case (Some j)
    then have j: "j < length ds" "dev_path (ds ! j) = p" using find_index_Some [OF Some] by auto
    with e dev_entry_nth [OF ok j(1)] have "device_id (ds ! j) = i" "ref_cnt (ds ! j) = n" by auto
    then show ?thesis using dev_entry_drop_ref [OF ok j(1)] j(2) Some by (simp add: release_dev_def)
  qed
qed (use acquire_dev_held acquire_dev_new in blast)+

section \<open>Opening\<close>

text \<open>The state in which the operations on devices run: the client and its seat exist, and the seat is the client's.\<close>

definition seated :: "world \<Rightarrow> nat \<Rightarrow> client \<Rightarrow> nat \<Rightarrow> seat \<Rightarrow> bool" where
  "seated w c x s st \<longleftrightarrow> client_heap w c = Some x \<and> cl_seat x = Some s \<and> seat_heap w s = Some st \<and>
     devices_ok (cl_devices x) \<and> (cl_state x = CLIENT_ACTIVE \<longrightarrow> active_client st = Some c)"

lemma seated_reachable:
  assumes "kernel_ok k" and "reachable k w" and "client_heap w c = Some x" and "cl_seat x = Some s"
  shows "\<exists>st. seated w c x s st"
proof -
  have ok: "steady (guard_at (the_poller w)) w" by (rule reachable_steady [OF assms(1,2)])
  obtain st where st: "seat_heap w s = Some st" "c \<in> set (seat_clients st)"
    using inv_member [OF ok assms(3,4)] by auto
  have "active_client st = Some c" if "cl_state x = CLIENT_ACTIVE"
    using inv_seat_client [OF ok st] assms(3) that by (auto simp: on_duty_def)
  then show ?thesis
    using st(1) assms(3,4) inv_client(2) [OF ok assms(3)] by (auto simp: seated_def)
qed

lemma open_device_wp:
  assumes seated: "seated w c x s st"
    and fail: "\<And>w'. client_heap w' = client_heap w \<Longrightarrow>
      (cl_state x \<noteq> CLIENT_ACTIVE \<longrightarrow> errno w' = EPERM \<and> trace w' = trace w) \<Longrightarrow>
      (let a = answer k (trace w) (Sys_realpath path) in cl_state x = CLIENT_ACTIVE \<longrightarrow> sr_val a \<noteq> -1 \<longrightarrow>
        (device_type_of k (sr_str a) = None \<longrightarrow> errno w' = ENOENT \<and> trace w' = (Sys_realpath path, a) # trace w) \<and>
        (device_type_of k (sr_str a) \<noteq> None \<longrightarrow> dev_entry (cl_devices x) (sr_str a) = None \<longrightarrow> length (cl_devices x) = MAX_SEAT_DEVICES \<longrightarrow>
          errno w' = EMFILE \<and> trace w' = (Sys_realpath path, a) # trace w)) \<Longrightarrow> Q None w'"
    and okay: "\<And>i w' ds fd t p. p = sr_str (answer k (trace w) (Sys_realpath path)) \<Longrightarrow> cl_state x = CLIENT_ACTIVE \<Longrightarrow>
      device_type_of k p = Some t \<Longrightarrow> ds = acquire_dev fd t p (cl_devices x) \<Longrightarrow> i < length ds \<Longrightarrow> dev_path (ds ! i) = p \<Longrightarrow>
      dev_entry (cl_devices x) p \<noteq> None \<or> length (cl_devices x) < MAX_SEAT_DEVICES \<Longrightarrow>
      client_heap w' = (client_heap w)(c \<mapsto> x\<lparr>cl_devices := ds\<rparr>) \<Longrightarrow> Q (Some i) w'"
  shows "wp (seat_open_device k c path) Q w"
proof -
  have x: "client_heap w c = Some x" "cl_seat x = Some s" "seat_heap w s = Some st" "devices_ok (cl_devices x)"
    and active: "cl_state x = CLIENT_ACTIVE \<Longrightarrow> active_client st = Some c"
    using seated by (auto simp: seated_def)
  define a where "a = answer k (trace w) (Sys_realpath path)"
  define p where "p = sr_str a"
  have mem: "p \<in> dev_path ` set (cl_devices x)" if "scan_devices p (cl_devices x) 0 1 = Inl i" for i
    using scan_devices_found [OF that] by (metis add_cancel_left_left add_diff_cancel_left' diff_zero image_eqI le_add_diff_inverse nth_mem)
  consider (inactive) "cl_state x \<noteq> CLIENT_ACTIVE"
    | (refused) "cl_state x = CLIENT_ACTIVE" "sr_val a = -1 \<or> device_type_of k p = None"
    | (held) t i where "cl_state x = CLIENT_ACTIVE" "sr_val a \<noteq> -1" "device_type_of k p = Some t" "scan_devices p (cl_devices x) 0 1 = Inl i"
    | (new) t did n where "cl_state x = CLIENT_ACTIVE" "sr_val a \<noteq> -1" "device_type_of k p = Some t" "scan_devices p (cl_devices x) 0 1 = Inr (did, n)"
    by (metis option.exhaust sum.exhaust prod.exhaust)
  then show ?thesis
  proof cases
    case inactive
    then show ?thesis using x by (auto simp: seat_open_device_def wp_simps intro!: fail)
  next
    case refused
    then show ?thesis
      using x active unfolding a_def p_def by (auto simp: seat_open_device_def wp_simps Let_def a_def p_def intro!: fail)
  next
    case held
    note h = held [unfolded p_def a_def]
    from held have "i < length (cl_devices x)" "dev_path (cl_devices x ! i) = p" using scan_devices_found [OF held(4)] by auto
    then have Qi: "Q (Some i) v" if "client_heap v = (client_heap w)(c \<mapsto> x\<lparr>cl_devices := (cl_devices x)[i :=
                 (cl_devices x ! i)\<lparr>ref_cnt := ref_cnt (cl_devices x ! i) + 1\<rparr>]\<rparr>)" for v
      using held that mem [OF held(4)]
      by (intro okay [where p = p and t = t and fd = 0 and ds = "acquire_dev 0 t p (cl_devices x)"]) (auto simp: p_def a_def acquire_dev_def dev_entry_None)
    show ?thesis
      using x active h by (auto simp: seat_open_device_def wp_simps Let_def intro!: Qi)
  next
    case new
    note h = new [unfolded p_def a_def]
    have n: "n = length (cl_devices x)" "p \<notin> dev_path ` set (cl_devices x)" using scan_devices_new [OF new(4)] by auto
    have le: "length (cl_devices x) \<le> MAX_SEAT_DEVICES" using x(4) by (simp add: devices_ok_def)
    show ?thesis
    proof (cases "n \<ge> MAX_SEAT_DEVICES")
      case True
      then show ?thesis
        using x active h n le by (auto simp: seat_open_device_def wp_simps Let_def intro!: fail)
    next
      case False
      have none: "Q None v" if "client_heap v = client_heap w" for v
        using False n new(1) new(3) that by (intro fail) (auto simp: Let_def p_def a_def)
      have some: "Q (Some 0) v" if "client_heap v = (client_heap w)(c \<mapsto> x\<lparr>cl_devices := \<lparr>device_id = did, dev_fd = fd, ref_cnt = 1,
          dev_active = True, dev_path = p, dev_type = t\<rparr> # cl_devices x\<rparr>)" for fd v
        using False n new that
        by (intro okay [where p = p and t = t and fd = fd and ds = "acquire_dev fd t p (cl_devices x)"])
          (auto simp: p_def a_def acquire_dev_def)
      show ?thesis
        using x active h False unfolding seat_open_device_def
        by (auto simp: wp_simps Let_def p_def a_def data_eq intro!: none some wp_data_calls [OF device_calls(1)])
    qed
  qed
qed

section \<open>Revoking and closing\<close>

text \<open>The call that takes the access to a device away; no call for a device that is not active.\<close>

definition revoke_calls :: "kernel \<Rightarrow> seat_device \<Rightarrow> syscall list" where
  "revoke_calls k d = (if \<not> dev_active d then [] else case dev_type d of
     SEAT_DEVICE_TYPE_DRM \<Rightarrow> [Sys_ioctl (dev_fd d) DRM_IOCTL_DROP_MASTER]
   | SEAT_DEVICE_TYPE_EVDEV \<Rightarrow> [Sys_ioctl (dev_fd d) EVIOCREVOKE]
   | SEAT_DEVICE_TYPE_HIDRAW \<Rightarrow> if has_hidiocrevoke k then [Sys_ioctl (dev_fd d) HIDIOCREVOKE] else []
   | _ \<Rightarrow> [])"

text \<open>The device after the attempt: inactive, unless the kernel refused the call.\<close>

definition revoked :: "kernel \<Rightarrow> seat_device \<Rightarrow> seat_device \<Rightarrow> bool" where
  "revoked k d d' \<longleftrightarrow> (d' = d\<lparr>dev_active := False\<rparr> \<or> d' = d \<and> (\<exists>c \<in> set (revoke_calls k d). \<exists>h. sr_val (answer k h c) = -1))"

lemma deactivate_wp:
  assumes "dev_type d \<noteq> SEAT_DEVICE_TYPE_NORMAL"
  shows "wp (seat_deactivate_device k d) (\<lambda>(r, d') w'. os_calls w w' \<and>
    map fst (trace w') = rev (revoke_calls k d) @ map fst (trace w) \<and> revoked k d d') w"
proof (cases "dev_active d")
  case True
  then show ?thesis
    using assms
    by (cases "dev_type d") (auto simp: seat_deactivate_device_def wp_simps drm_drop_master_def evdev_revoke_def hidraw_revoke_def
        Let_def os_calls_def os_step_def revoke_calls_def revoked_def)
next
  case False
  then have "d\<lparr>dev_active := False\<rparr> = d" by simp
  with False show ?thesis
    by (simp add: seat_deactivate_device_def wp_simps os_calls_def os_step_def revoke_calls_def revoked_def)
qed

lemma deactivate_all_wp:
  "\<forall>d \<in> set ds. dev_type d \<noteq> SEAT_DEVICE_TYPE_NORMAL \<Longrightarrow>
    wp (for_devices (\<lambda>_. True) (seat_deactivate_device k) ds) (\<lambda>ds' w'. os_calls w w' \<and>
      map fst (trace w') = rev (concat (map (revoke_calls k) ds)) @ map fst (trace w) \<and> list_all2 (revoked k) ds ds') w"
proof (induction ds arbitrary: w)
  case Nil
  then show ?case by (simp add: wp_simps os_calls_def os_step_def)
next
  case (Cons d ds)
  show ?case
    unfolding for_devices.simps wp_simps if_True
    by (rule wp_mono [OF deactivate_wp])
      (use Cons.prems in \<open>auto intro!: wp_mono [OF Cons.IH] elim: calls.trans\<close>)
qed

lemma deactivate_all_rule:
  fixes w :: world
  assumes "\<forall>d \<in> set ds. dev_type d \<noteq> SEAT_DEVICE_TYPE_NORMAL"
    and "\<And>ds' w'. client_heap w' = client_heap w \<Longrightarrow> seat_heap w' = seat_heap w \<Longrightarrow>
      map fst (trace w') = rev (concat (map (revoke_calls k) ds)) @ map fst (trace w) \<Longrightarrow> list_all2 (revoked k) ds ds' \<Longrightarrow> Q ds' w'"
  shows "wp (for_devices (\<lambda>_. True) (seat_deactivate_device k) ds) Q w"
  by (rule wp_mono [OF deactivate_all_wp [OF assms(1)]]) (auto dest: os_step_world(1,2) [OF os_calls_imp_step] intro!: assms(2))

text \<open>Sending an event changes only the connection of the client, and adds calls to the history.\<close>

lemma on_connection_only:
  assumes "client_heap w c = Some x" and "\<And>n. state_io_rel os_step (f n)"
    and "\<And>r w' n. client_heap w' = (client_heap w)(c \<mapsto> x\<lparr>cl_connection := n\<rparr>) \<Longrightarrow> seat_heap w' = seat_heap w \<Longrightarrow>
      \<exists>t. trace w' = t @ trace w \<Longrightarrow> Q r w'"
  shows "wp (on_connection c f) Q w"
  unfolding on_connection_def
  using assms(1)
  by (auto simp: wp_simps os_step_world intro!: wp_frame [OF assms(2)] assms(3)) (auto simp: os_step_def)

lemma send_event_only:
  assumes "client_heap w c = Some x"
    and Q: "\<And>r w' n. client_heap w' = (client_heap w)(c \<mapsto> x\<lparr>cl_connection := n\<rparr>) \<Longrightarrow> seat_heap w' = seat_heap w \<Longrightarrow>
      \<exists>t. trace w' = t @ trace w \<Longrightarrow> Q r w'"
  shows "wp (send_event k c opcode) Q w"
  unfolding send_event_def client_put_def
  using assms(1)
  by (auto simp: wp_bind wp_return wp_if intro!: Q on_connection_only [OF _ connection_put_all_step] on_connection_only [OF _ connection_flush_step])

section \<open>Properties\<close>


text \<open>C8:
  The refusals of \<open>seat_open_device\<close>: a client that is not active gets \<open>EPERM\<close> before any system
  call; a path outside the device classes gets \<open>ENOENT\<close>, and a new path for a client with the
  maximum of 128 open devices \<open>EMFILE\<close>, both before anything is opened.
\<close>

theorem seat_open_device_errors:
  assumes "seated w c x s st"
  shows "wp (seat_open_device k c path) (\<lambda>r w'. let a = answer k (trace w) (Sys_realpath path);
       asked = (trace w' = (Sys_realpath path, a) # trace w) in
     (cl_state x \<noteq> CLIENT_ACTIVE \<longrightarrow> r = None \<and> errno w' = EPERM \<and> trace w' = trace w) \<and>
     (cl_state x = CLIENT_ACTIVE \<and> sr_val a \<noteq> -1 \<longrightarrow>
        (device_type_of k (sr_str a) = None \<longrightarrow> r = None \<and> errno w' = ENOENT \<and> asked) \<and>
        (device_type_of k (sr_str a) \<noteq> None \<and> dev_entry (cl_devices x) (sr_str a) = None \<and>
           length (cl_devices x) = MAX_SEAT_DEVICES \<longrightarrow> r = None \<and> errno w' = EMFILE \<and> asked))) w"
  by (rule open_device_wp [OF assms]) (auto simp: Let_def)

text \<open>C7:
  \<open>seat_close_device\<close> refines giving a reference back: the entry of the device loses one
  reference, or disappears with the last one, and no other entry changes. With the last
  reference the access to the device is revoked before its descriptor is closed; otherwise no
  system call is made. \<open>errno\<close> is kept.
\<close>

theorem seat_close_device_refines:
  assumes "seated w c x s st" and "i < length (cl_devices x)"
  shows "wp (seat_close_device k c i) (\<lambda>_ w'. let d = cl_devices x ! i in
     errno w' = errno w \<and>
     (\<exists>ds. client_heap w' = (client_heap w)(c \<mapsto> x\<lparr>cl_devices := ds\<rparr>) \<and> devices_ok ds \<and>
       dev_entry ds = (dev_entry (cl_devices x))(dev_path d :=
         if ref_cnt d > 1 then Some (device_id d, ref_cnt d - 1) else None)) \<and>
     map fst (trace w') = (if ref_cnt d > 1 \<or> dev_fd d = -1 then [] else Sys_close (dev_fd d) # rev (revoke_calls k d)) @ map fst (trace w)) w"
proof -
  let ?d = "cl_devices x ! i"
  have x: "client_heap w c = Some x" "cl_seat x = Some s" "seat_heap w s = Some st" and ok: "devices_ok (cl_devices x)"
    using assms(1) by (auto simp: seated_def)
  have type: "dev_type ?d \<noteq> SEAT_DEVICE_TYPE_NORMAL" using ok nth_mem [OF assms(2)] by (auto simp: devices_ok_def)
  have dev: "devices_ok (drop_ref i (cl_devices x))" "dev_entry (drop_ref i (cl_devices x)) = (dev_entry (cl_devices x))(dev_path ?d :=
         if ref_cnt ?d > 1 then Some (device_id ?d, ref_cnt ?d - 1) else None)"
    by (rule devices_ok_drop_ref [OF ok assms(2)], rule dev_entry_drop_ref [OF ok assms(2)])
  show ?thesis
  proof (cases "ref_cnt ?d > 1")
    case True
    then have "drop_ref i (cl_devices x) = (cl_devices x)[i := ?d\<lparr>ref_cnt := ref_cnt ?d - 1\<rparr>]" by (simp add: drop_ref_def)
    with dev x assms(2) True show ?thesis by (auto simp: seat_close_device_def wp_simps Let_def)
  next
    case False
    then have drop: "drop_ref i (cl_devices x) = take i (cl_devices x) @ drop (Suc i) (cl_devices x)" by (simp add: drop_ref_def)
    have "revoke_calls k (?d\<lparr>ref_cnt := m\<rparr>) = revoke_calls k ?d" for m
      by (cases "dev_type ?d") (simp_all add: revoke_calls_def)
    then have revoke: "wp (seat_deactivate_device k (?d\<lparr>ref_cnt := m\<rparr>)) Q v"
      if "\<And>r v'. client_heap v' = client_heap v \<Longrightarrow> map fst (trace v') = rev (revoke_calls k ?d) @ map fst (trace v) \<Longrightarrow> Q r v'" for m Q and v :: world
      by (intro wp_mono [OF deactivate_wp]) (use type that in \<open>auto dest: os_step_world(1) [OF os_calls_imp_step]\<close>)
    show ?thesis
      using dev [unfolded drop] x assms(2) False unfolding seat_close_device_def
      by (auto simp: wp_simps Let_def intro!: revoke)
  qed
qed

text \<open>C5:
  \<open>seat_disable_client\<close> on an active client first revokes every active device of the client,
  in the order of the list, and only then sends the event: the calls before any other are the
  revocations, each device is inactive afterwards unless the kernel refused its revocation, and
  the client waits for its acknowledgement.
\<close>

theorem seat_disable_client_revokes:
  assumes "seated w c x s st" and "cl_state x = CLIENT_ACTIVE"
  shows "wp (seat_disable_client k c) (\<lambda>_ w'. \<exists>ds n t.
     client_heap w' = (client_heap w)(c \<mapsto> x\<lparr>cl_devices := ds, cl_state := CLIENT_PENDING_DISABLE, cl_connection := n\<rparr>) \<and>
     list_all2 (revoked k) (cl_devices x) ds \<and>
     map fst (trace w') = t @ rev (concat (map (revoke_calls k) (cl_devices x))) @ map fst (trace w)) w"
proof -
  have x: "client_heap w c = Some x" "cl_seat x = Some s" "seat_heap w s = Some st" "active_client st = Some c"
    and types: "\<forall>d \<in> set (cl_devices x). dev_type d \<noteq> SEAT_DEVICE_TYPE_NORMAL"
    using assms by (auto simp: seated_def devices_ok_def)
  define Q where "Q w' \<longleftrightarrow> (\<exists>ds n t.
     client_heap w' = (client_heap w)(c \<mapsto> x\<lparr>cl_devices := ds, cl_state := CLIENT_PENDING_DISABLE, cl_connection := n\<rparr>) \<and>
     list_all2 (revoked k) (cl_devices x) ds \<and>
     map fst (trace w') = t @ rev (concat (map (revoke_calls k) (cl_devices x))) @ map fst (trace w))" for w' :: world
  have sent: "wp (send_event k c opcode) (\<lambda>_. Q) v"
    if "client_heap v = (client_heap w)(c \<mapsto> x\<lparr>cl_devices := ds, cl_state := CLIENT_PENDING_DISABLE\<rparr>)" "list_all2 (revoked k) (cl_devices x) ds"
      "map fst (trace v) = rev (concat (map (revoke_calls k) (cl_devices x))) @ map fst (trace w)" for v ds opcode
    by (rule send_event_only [where x = "x\<lparr>cl_devices := ds, cl_state := CLIENT_PENDING_DISABLE\<rparr>"]) (use that in \<open>fastforce simp: Q_def\<close>)+
  show ?thesis
    using x assms(2) unfolding Q_def [symmetric] seat_disable_client_def client_send_disable_seat_def on_devices_def
    by (auto simp: wp_bind wp_return wp_if wp_get_client wp_deref wp_get_seat wp_assert_that wp_upd_client
        intro!: deactivate_all_rule [OF types] sent)
qed

section \<open>Sample states\<close>

text \<open>A client with an open graphics card on a seat, and a kernel that finds an input device behind every path.\<close>

definition sample_device :: seat_device where
  "sample_device = \<lparr>device_id = 1, dev_fd = 9, ref_cnt = 2, dev_active = True, dev_path = ''/dev/dri/card0'', dev_type = SEAT_DEVICE_TYPE_DRM\<rparr>"

definition desk_client :: "client_state \<Rightarrow> client" where
  "desk_client state = null_client\<lparr>cl_link_null := False, cl_server := True, cl_event_source := Some 3, cl_seat := Some 1,
     cl_session := 1, cl_state := state, cl_devices := [sample_device]\<rparr>"

definition desk_seat :: "client_state \<Rightarrow> seat" where
  "desk_seat state = null_seat\<lparr>seat_name := ''seat0'', seat_clients := [2],
     active_client := if on_duty (desk_client state) then Some 2 else None\<rparr>"

definition desk :: "client_state \<Rightarrow> world" where
  "desk state = blank_world\<lparr>next_addr := 4, client_heap := [2 \<mapsto> desk_client state], seat_heap := [1 \<mapsto> desk_seat state],
     the_server := (the_server blank_world)\<lparr>seats := [1]\<rparr>,
     the_poller := \<lparr>signals = [], fds = [(3, \<lparr>es_func = Client_handle_connection 2, es_fd = 7, es_mask = EVENT_READABLE,
       es_killed = False, pollfd_idx = -1\<rparr>)], signal_fds = (0, 0), pollfds = [], fd_event_sources = 2, dirty = True\<rparr>\<rparr>"

definition desk_kernel :: kernel where
  "desk_kernel = sample_kernel (\<lambda>h c. case c of Sys_realpath p \<Rightarrow> Some ((ret 0)\<lparr>sr_str := ''/dev/input/event3''\<rparr>) | _ \<Rightarrow> None)"

lemma desk_client_ok:
  "devices_ok [sample_device]" "state \<noteq> CLIENT_NEW \<Longrightarrow> client_ok (desk_client state)"
  by (auto simp: desk_client_def null_client_def client_ok_def new_connection_ok devices_ok_def sample_device_def)

lemma desk_seated: "seated (desk state) 2 (desk_client state) 1 (desk_seat state)"
  using desk_client_ok(1) by (auto simp: seated_def desk_def desk_client_def desk_seat_def on_duty_def)

lemma desk_ok:
  assumes "state \<noteq> CLIENT_NEW"
  shows "server_ok (desk state)"
proof -
  have pending: "pending (new_connection 0) = 0" by (simp add: new_connection_def)
  have "live_source (the_poller (desk state)) a f \<longleftrightarrow> a = 3 \<and> f = Client_handle_connection 2" for a f
    by (auto simp: live_source_def desk_def)
  then show ?thesis
    using desk_client_ok(2) [OF assms]
    by (auto simp: server_ok_def world_ok_def clients_ok_def seats_ok_def links_ok_def sources_ok_def controls_ok_def poll_at_def poller_ok_def
        seat_ok_def linked_at_def desk_def desk_seat_def null_seat_def blank_world_def desk_client_def null_client_def pending on_duty_def
        bind_eq_Some_conv split: if_splits)
qed

lemma desk_simps [simp]:
  "client_heap (desk state) = [2 \<mapsto> desk_client state]" "seat_heap (desk state) = [1 \<mapsto> desk_seat state]" "trace (desk state) = []"
  "cl_devices (desk_client state) = [sample_device]" "cl_seat (desk_client state) = Some 1" "cl_state (desk_client state) = state"
  "answer desk_kernel h (Sys_realpath p) = (ret 0)\<lparr>sr_str := ''/dev/input/event3''\<rparr>"
  by (simp_all add: desk_def desk_client_def blank_world_def desk_kernel_def)


theorem seat_open_device_errors_witness:
  "case run_state (seat_open_device desk_kernel 2 ''/dev/kbd'') (desk CLIENT_DISABLED) of (r, w') \<Rightarrow> r = None \<and> errno w' = EPERM \<and> trace w' = []"
  using seat_open_device_errors [OF desk_seated [of CLIENT_DISABLED], of desk_kernel "''/dev/kbd''"]
  by (auto simp: wp_def Let_def split: prod.splits)

theorem seat_close_device_refines_witness:
  "\<exists>ds. client_heap (snd (run_state (seat_close_device desk_kernel 2 0) (desk CLIENT_ACTIVE))) 2 =
       Some ((desk_client CLIENT_ACTIVE)\<lparr>cl_devices := ds\<rparr>) \<and> dev_entry ds ''/dev/dri/card0'' = Some (1, 1)"
  using seat_close_device_refines [OF desk_seated [of CLIENT_ACTIVE], of 0 desk_kernel]
  by (auto simp: wp_def Let_def sample_device_def split: prod.splits)

theorem seat_disable_client_revokes_witness:
  "\<exists>t. map fst (trace (snd (run_state (seat_disable_client desk_kernel 2) (desk CLIENT_ACTIVE)))) = t @ [Sys_ioctl 9 DRM_IOCTL_DROP_MASTER]"
  using seat_disable_client_revokes [OF desk_seated [of CLIENT_ACTIVE], of desk_kernel]
  by (auto simp: wp_def revoke_calls_def sample_device_def split: prod.splits)

end
