(* ===== verification/Seat_Spec.thy ===== *)
theory Seat_Spec
  imports Device_Spec
begin

text \<open>
  What the operations of \<open>seatd/seat.c\<close> on clients promise: which session a client gets, how a
  seat is handed over from one client to the next, what a departing client leaves behind, and
  how requests are refused.
\<close>

section \<open>Joining and leaving\<close>

text \<open>The session numbers of the clients of a seat.\<close>

definition sessions :: "world \<Rightarrow> seat \<Rightarrow> int set" where
  "sessions w st = (\<lambda>d. cl_session (the (client_heap w d))) ` set (seat_clients st)"


text \<open>C9:
  A client that leaves its seat leaves nothing behind: its devices are closed, it is off the
  seat and in no list of clients, no grouped VT has it as owner, no seat has it as active or
  next client, and the invariant of the daemon's data holds for all other objects.
\<close>

theorem seat_remove_client_releases:
  assumes ok: "server_ok w" and x: "client_heap w c = Some x" "cl_seat x = Some s" and send: "send_ok k"
  shows "wp (seat_remove_client k c) (\<lambda>_ w'. \<not> aborted w' \<and>
     client_heap w' c = Some (x\<lparr>cl_link_null := False, cl_devices := [], cl_state := CLIENT_CLOSED, cl_seat := None\<rparr>) \<and>
     c \<notin> set (idle_clients (the_server w')) \<and>
     (\<forall>s st. seat_heap w' s = Some st \<longrightarrow> c \<notin> set (seat_clients st) \<and> active_client st \<noteq> Some c \<and> next_client st \<noteq> Some c \<and>
        (\<forall>g \<in> set (group_vts st). gv_owner g \<noteq> Some c))) w"
proof -
  let ?g = "(guard_at (the_poller w))\<lparr>g_seats := {s}\<rparr>"
  have "steady (guard_at (the_poller w)) w" using ok by (simp add: server_ok_def)
  moreover obtain st where "seat_heap w s = Some st"
    using inv_member [OF calculation x] by auto
  ultimately have steady: "steady ?g w" by (auto simp: world_ok_def seats_ok_def)
  let ?y = "x\<lparr>cl_link_null := False, cl_devices := [], cl_state := CLIENT_CLOSED, cl_seat := None\<rparr>"
  show ?thesis
  proof (rule seat_remove_client_inv [OF steady x _ _ send])
    fix w' assume w': "world_ok ?g (Map.empty(c \<mapsto> ?y)) {} w'"
    have free: "unlinked_from (seat_heap w') (idle_clients (the_server w')) c" and y: "client_heap w' c = Some ?y"
      using w' by (auto simp: world_ok_def links_ok_def)
    have "c \<notin> set (seat_clients st) \<and> active_client st \<noteq> Some c \<and> next_client st \<noteq> Some c \<and> (\<forall>g \<in> set (group_vts st). gv_owner g \<noteq> Some c)"
      if "seat_heap w' s = Some st" for s st
      using free invD(4) [OF w' that] that by (fastforce simp: unlinked_from_def seat_ok_def)
    then show "\<not> aborted w' \<and> client_heap w' c = Some ?y \<and> c \<notin> set (idle_clients (the_server w')) \<and>
       (\<forall>s st. seat_heap w' s = Some st \<longrightarrow> c \<notin> set (seat_clients st) \<and> active_client st \<noteq> Some c \<and> next_client st \<noteq> Some c \<and>
          (\<forall>g \<in> set (group_vts st). gv_owner g \<noteq> Some c))"
      using free y invD(1) [OF w'] by (auto simp: unlinked_from_def)
  qed simp_all
qed

section \<open>Handing the seat over\<close>

lemma on_devices_rule:
  assumes x: "client_heap w c = Some x" and types: "\<forall>d \<in> set (cl_devices x). dev_type d \<noteq> SEAT_DEVICE_TYPE_NORMAL"
    and f: "f = seat_deactivate_device k \<or> f = seat_activate_device k"
    and Q: "\<And>w' ds. client_heap w' = (client_heap w)(c \<mapsto> x\<lparr>cl_devices := ds\<rparr>) \<Longrightarrow> seat_heap w' = seat_heap w \<Longrightarrow>
      map dev_key ds = map dev_key (cl_devices x) \<Longrightarrow> Q () w'"
  shows "wp (on_devices c (for_devices P f)) Q w"
proof -
  have loop: "wp (for_devices P f (cl_devices x)) Q' w"
    if "\<And>ds' w'. pdata w' = pdata w \<Longrightarrow> map dev_key ds' = map dev_key (cl_devices x) \<Longrightarrow> Q' ds' w'" for Q'
    using f that by (elim disjE) (auto intro!: for_devices_wp types seat_deactivate_device_wp seat_activate_device_wp)
  show ?thesis
    unfolding on_devices_def wp_simps x
    by (simp add: x, rule loop) (use x Q in \<open>auto simp: data_eq\<close>)
qed

lemma types_key:
  assumes "map dev_key ds = map dev_key es" and "\<forall>d \<in> set es. dev_type d \<noteq> SEAT_DEVICE_TYPE_NORMAL"
  shows "\<forall>d \<in> set ds. dev_type d \<noteq> SEAT_DEVICE_TYPE_NORMAL"
proof
  fix d assume "d \<in> set ds"
  then have "dev_key d \<in> dev_key ` set es" using assms(1) by (metis image_eqI list.set_map)
  then show "dev_type d \<noteq> SEAT_DEVICE_TYPE_NORMAL" using assms(2) by (auto simp: dev_key_def)
qed

text \<open>
  \<open>unsent k t n\<close>: there is a state in which the client \<open>t\<close> has the connection \<open>n\<close> and the event
  that enables it cannot be sent.
\<close>

definition unsent :: "kernel \<Rightarrow> nat \<Rightarrow> connection \<Rightarrow> bool" where
  "unsent k t n \<longleftrightarrow> (\<exists>v v' x. client_heap v t = Some x \<and> cl_connection x = n \<and> run_state (client_send_enable_seat k t) v = (-1, v'))"

lemma send_enable_rule:
  assumes "client_heap w t = Some x"
    and "\<And>r w' n. client_heap w' = (client_heap w)(t \<mapsto> x\<lparr>cl_connection := n\<rparr>) \<Longrightarrow> seat_heap w' = seat_heap w \<Longrightarrow>
      (r = -1 \<longrightarrow> unsent k t (cl_connection x)) \<Longrightarrow> Q r w'"
  shows "wp (client_send_enable_seat k t) Q w"
proof (rule wp_both)
  show "wp (client_send_enable_seat k t) (\<lambda>_ w'. (\<exists>n. client_heap w' = (client_heap w)(t \<mapsto> x\<lparr>cl_connection := n\<rparr>)) \<and> seat_heap w' = seat_heap w) w"
    unfolding client_send_enable_seat_def by (rule send_event_only [OF assms(1)]) blast
  show "wp (client_send_enable_seat k t) (\<lambda>r _. r = -1 \<longrightarrow> unsent k t (cl_connection x)) w"
    by (rule wpI) (use assms(1) in \<open>auto simp: unsent_def\<close>)
qed (use assms(2) in blast)

text \<open>Opening a client on a seat that is not bound to VTs and has no active client.\<close>

lemma open_client_rule:
  assumes y: "client_heap w t = Some y" "cl_seat y = Some s" "cl_state y = CLIENT_NEW \<or> cl_state y = CLIENT_DISABLED"
    and types: "\<forall>d \<in> set (cl_devices y). dev_type d \<noteq> SEAT_DEVICE_TYPE_NORMAL"
    and st: "seat_heap w s = Some st" "active_client st = None" "\<not> vt_bound st"
    and fail: "\<And>w' y'. client_heap w' = (client_heap w)(t \<mapsto> y') \<Longrightarrow> cl_state y' = cl_state y \<Longrightarrow> seat_heap w' = seat_heap w \<Longrightarrow>
      unsent k t (cl_connection y) \<Longrightarrow> Q (-1) w'"
    and okay: "\<And>w' y'. client_heap w' = (client_heap w)(t \<mapsto> y') \<Longrightarrow> cl_state y' = CLIENT_ACTIVE \<Longrightarrow>
      seat_heap w' = (seat_heap w)(s \<mapsto> st\<lparr>active_client := Some t\<rparr>) \<Longrightarrow> Q 0 w'"
  shows "wp (seat_open_client k s t) Q w"
proof -
  have owns: "wp (client_owns_vt t vt) Q' w = Q' (owns_vt w t vt) w" for vt Q'
    by (rule client_owns_vt_wp [OF y(1)]) (use y(2) st(1) in auto)
  define rest where "rest = do {
     r \<leftarrow> client_send_enable_seat k t;
     if r = -1 then do {
       on_devices t (for_devices (\<lambda>_. True) (seat_deactivate_device k));
       State_Monad.return (-1)
     } else do {
       upd_client t (\<lambda>x. x\<lparr>cl_state := CLIENT_ACTIVE\<rparr>);
       upd_seat s (\<lambda>x. x\<lparr>active_client := Some t\<rparr>);
       State_Monad.return (0::int)
     }
   }"
  have rest: "wp rest Q v"
    if v: "client_heap v = (client_heap w)(t \<mapsto> y\<lparr>cl_devices := ds\<rparr>)" "seat_heap v = seat_heap w"
      and ds: "map dev_key ds = map dev_key (cl_devices y)" for v ds
  proof -
    have undo: "wp (on_devices t (for_devices (\<lambda>_. True) (seat_deactivate_device k))) (\<lambda>_. Q (-1)) u"
      if "client_heap u = (client_heap w)(t \<mapsto> y\<lparr>cl_devices := ds, cl_connection := n\<rparr>)" "seat_heap u = seat_heap w" "unsent k t (cl_connection y)" for u n
      by (rule on_devices_rule [where x = "y\<lparr>cl_devices := ds, cl_connection := n\<rparr>" and k = k])
        (use that types_key [OF ds types] in \<open>auto intro!: fail\<close>)
    have opened: "Q 0 (u\<lparr>client_heap := (client_heap u)(t \<mapsto> y'), seat_heap := (seat_heap u)(s \<mapsto> st\<lparr>active_client := Some t\<rparr>)\<rparr>)"
      if "client_heap u = (client_heap w)(t \<mapsto> y0)" "seat_heap u = seat_heap w" "cl_state y' = CLIENT_ACTIVE" for u y0 y'
      using that by (intro okay) auto
    show ?thesis
      unfolding rest_def wp_bind
      by (rule send_enable_rule [where x = "y\<lparr>cl_devices := ds\<rparr>"])
        (use v st in \<open>auto simp: wp_bind wp_return wp_if wp_upd_client wp_upd_seat intro!: undo opened [simplified] okay\<close>)
  qed
  have "wp (seat_open_client k s t) Q w = wp (on_devices t (for_devices (\<lambda>_. True) (seat_activate_device k))) (\<lambda>_. wp rest Q) w"
    unfolding seat_open_client_def rest_def vt_for_client_open_def
    using y st by (auto simp: wp_simps owns)
  also have "\<dots>"
    by (rule on_devices_rule [OF y(1) types, where k = k]) (auto intro!: rest)
  finally show ?thesis .
qed

lemma disable_client_rule:
  assumes "seated w c x s st" and "cl_state x = CLIENT_ACTIVE"
    and Q: "\<And>r w' ds n. client_heap w' = (client_heap w)(c \<mapsto> x\<lparr>cl_devices := ds, cl_state := CLIENT_PENDING_DISABLE, cl_connection := n\<rparr>) \<Longrightarrow>
      seat_heap w' = seat_heap w \<Longrightarrow> Q r w'"
  shows "wp (seat_disable_client k c) Q w"
proof -
  have x: "client_heap w c = Some x" "cl_seat x = Some s" "seat_heap w s = Some st" "active_client st = Some c"
    and types: "\<forall>d \<in> set (cl_devices x). dev_type d \<noteq> SEAT_DEVICE_TYPE_NORMAL"
    using assms(1,2) by (auto simp: seated_def devices_ok_def)
  have sent: "wp (send_event k c opcode) Q' v"
    if "client_heap v = (client_heap w)(c \<mapsto> x\<lparr>cl_devices := ds, cl_state := CLIENT_PENDING_DISABLE\<rparr>)" "seat_heap v = seat_heap w"
      "\<And>r w' n. client_heap w' = (client_heap w)(c \<mapsto> x\<lparr>cl_devices := ds, cl_state := CLIENT_PENDING_DISABLE, cl_connection := n\<rparr>) \<Longrightarrow>
        seat_heap w' = seat_heap w \<Longrightarrow> Q' r w'" for v ds opcode Q'
    by (rule send_event_only [where x = "x\<lparr>cl_devices := ds, cl_state := CLIENT_PENDING_DISABLE\<rparr>"]) (use that in auto)
  show ?thesis
    using x assms(2) unfolding seat_disable_client_def client_send_disable_seat_def
    by (auto simp: wp_bind wp_return wp_if wp_get_client wp_deref wp_get_seat wp_assert_that wp_upd_client
        intro!: on_devices_rule [OF x(1) types, where k = k] sent Q)
qed


section \<open>Sample states\<close>

text \<open>The sample client with its graphics card, and a guest that has just connected or has joined the seat.\<close>

definition guest :: "bool \<Rightarrow> client" where
  "guest joined = null_client\<lparr>cl_link_null := False, cl_server := True, cl_event_source := Some 5,
     cl_seat := (if joined then Some 1 else None), cl_session := (if joined then 2 else -1)\<rparr>"

definition office_seat :: "bool \<Rightarrow> seat" where
  "office_seat joined = (desk_seat CLIENT_ACTIVE)\<lparr>seat_clients := (if joined then [4, 2] else [2])\<rparr>"

definition office :: "bool \<Rightarrow> world" where
  "office joined = (desk CLIENT_ACTIVE)\<lparr>next_addr := 6,
     client_heap := [2 \<mapsto> desk_client CLIENT_ACTIVE, 4 \<mapsto> guest joined], seat_heap := [1 \<mapsto> office_seat joined],
     the_server := (the_server blank_world)\<lparr>seats := [1], idle_clients := (if joined then [] else [4])\<rparr>,
     the_poller := (the_poller (desk CLIENT_ACTIVE))\<lparr>fds := fds (the_poller (desk CLIENT_ACTIVE)) @
       [(5, \<lparr>es_func = Client_handle_connection 4, es_fd = 8, es_mask = EVENT_READABLE, es_killed = False, pollfd_idx = -1\<rparr>)],
       fd_event_sources := 3\<rparr>\<rparr>"

lemma office_ok: "server_ok (office joined)"
proof -
  have pending: "pending (new_connection 0) = 0" by (simp add: new_connection_def)
  have live: "live_source (the_poller (office joined)) a f \<longleftrightarrow>
      a = 3 \<and> f = Client_handle_connection 2 \<or> a = 5 \<and> f = Client_handle_connection 4" for a f
    unfolding live_source_def by (simp add: desk_def office_def) (metis event_source_fd.select_convs(1,4))
  have guest: "client_ok (guest joined)"
    by (auto simp: guest_def null_client_def client_ok_def new_connection_ok)
  show ?thesis
    using desk_client_ok(2) [of CLIENT_ACTIVE] live guest
    by (cases joined) (auto simp: server_ok_def world_ok_def clients_ok_def seats_ok_def links_ok_def sources_ok_def controls_ok_def poll_at_def
        poller_ok_def seat_ok_def linked_at_def office_def guest_def office_seat_def desk_def desk_seat_def null_seat_def blank_world_def
        desk_client_def null_client_def pending on_duty_def bind_eq_Some_conv split: if_splits)
qed

lemma office_simps [simp]:
  "client_heap (office joined) = [2 \<mapsto> desk_client CLIENT_ACTIVE, 4 \<mapsto> guest joined]" "seat_heap (office joined) = [1 \<mapsto> office_seat joined]"
  "seat_clients (office_seat joined) = (if joined then [4, 2] else [2])" "vt_bound (office_seat joined) = False"
  "next_client (office_seat joined) = None" "pending_vt_switch (office_seat joined) = 0"
  "cl_seat (guest joined) = (if joined then Some 1 else None)" "cl_session (guest joined) = (if joined then 2 else -1)"
  "cl_state (guest joined) = CLIENT_NEW" "cl_session (desk_client state) = 1"
  by (simp_all add: office_def office_seat_def guest_def desk_seat_def null_seat_def null_client_def desk_client_def)


theorem seat_remove_client_releases_witness:
  "case run_state (seat_remove_client demo_kernel 2) (desk CLIENT_ACTIVE) of (r, w') \<Rightarrow>
     \<not> aborted w' \<and> cl_devices (the (client_heap w' 2)) = [] \<and> cl_seat (the (client_heap w' 2)) = None"
  using seat_remove_client_releases [OF desk_ok, of CLIENT_ACTIVE 2 "desk_client CLIENT_ACTIVE" 1 demo_kernel] demo_kernel_ok
  by (simp add: kernel_ok_def wp_def split: prod.splits)


end
