(* ===== verification/Daemon_Spec.thy ===== *)
theory Daemon_Spec
  imports Seat_Spec
begin

text \<open>
  Further properties of the daemon's parts: a seat is passed on when its client leaves, a VT is
  released only after its client lost the graphics devices, the control socket admits only
  the daemon's own user, the event loop polls what is live, request handling ends, and the
  whole program releases what it holds.
\<close>

section \<open>Passing a seat on\<close>

text \<open>C10:
  A seat is passed on: when the active client leaves a seat that is not bound to VTs, the seat
  goes to the client that was queued for it, or else to the first of the clients that remain,
  which becomes active; the seat stays free only if the event for that client could not be sent.
\<close>

theorem seat_passed_on:
  assumes ok: "server_ok w" and x: "client_heap w c = Some x" "cl_state x = CLIENT_ACTIVE" "cl_seat x = Some s"
    and st: "seat_heap w s = Some st" "\<not> vt_bound st"
    and d: "next_client st = Some d \<or> next_client st = None \<and> (\<exists>ds. remove1 c (seat_clients st) = d # ds)" "d \<noteq> c"
    and y: "client_heap w d = Some y" "cl_state y = CLIENT_NEW \<or> cl_state y = CLIENT_DISABLED"
  shows "wp (seat_remove_client k c) (\<lambda>_ w'. \<exists>y' st'. client_heap w' d = Some y' \<and> seat_heap w' s = Some st' \<and> next_client st' = None \<and>
     (active_client st' = Some d \<and> cl_state y' = CLIENT_ACTIVE \<or> active_client st' = None \<and> cl_state y' = cl_state y \<and> unsent k d (cl_connection y))) w"
proof -
  define Q where "Q w' \<longleftrightarrow> (\<exists>y' st'. client_heap w' d = Some y' \<and> seat_heap w' s = Some st' \<and> next_client st' = None \<and>
     (active_client st' = Some d \<and> cl_state y' = CLIENT_ACTIVE \<or> active_client st' = None \<and> cl_state y' = cl_state y \<and> unsent k d (cl_connection y)))" for w' :: world
  have steady: "steady (guard_at (the_poller w)) w" using ok by (simp add: server_ok_def)
  have active: "active_client st = Some c" using inv_duty [OF steady x(1)] x st(1) by (auto simp: on_duty_def)
  have mem: "d \<in> set (seat_clients st)"
    using d(1)
  proof (elim disjE conjE exE)
    show "d \<in> set (seat_clients st)" if "next_client st = Some d" using that invD(4) [OF steady st(1)] by (auto simp: seat_ok_def)
    show "d \<in> set (seat_clients st)" if "remove1 c (seat_clients st) = d # ds" for ds
      using set_remove1_subset [of c "seat_clients st"] that by auto
  qed
  then have seat: "cl_seat y = Some s" using inv_seat_client [OF steady st(1)] y(1) by fastforce
  have types: "\<forall>d \<in> set (cl_devices y). dev_type d \<noteq> SEAT_DEVICE_TYPE_NORMAL"
    using inv_client(2) [OF steady y(1)] by (simp add: devices_ok_def)
  define st1 where "st1 = st\<lparr>next_client := (if next_client st = Some c then None else next_client st),
      seat_clients := remove1 c (seat_clients st), group_vts := filter (\<lambda>v. gv_owner v \<noteq> Some c) (group_vts st)\<rparr>"
  let ?x = "x\<lparr>cl_link_null := False, cl_devices := []\<rparr>"
  have left: "wp (seat_client_left k s c) (\<lambda>_. Q) v"
    if v: "pdata v = pdata (w\<lparr>client_heap := (client_heap w)(c \<mapsto> ?x), seat_heap := (seat_heap w)(s \<mapsto> st1)\<rparr>)" for v
  proof -
    have heaps: "client_heap v = (client_heap w)(c \<mapsto> ?x)" "seat_heap v = (seat_heap w)(s \<mapsto> st1)" using v by (simp_all add: data_eq)
    let ?st = "st1\<lparr>active_client := None, next_client := None\<rparr>"
    let ?u = "v\<lparr>seat_heap := (seat_heap w)(s \<mapsto> ?st)\<rparr>"
    define P where "P w' \<longleftrightarrow> (\<exists>y' st'. client_heap w' = (client_heap v)(d \<mapsto> y') \<and> seat_heap w' s = Some st' \<and> next_client st' = None \<and> \<not> vt_bound st' \<and>
     (active_client st' = Some d \<and> cl_state y' = CLIENT_ACTIVE \<or> active_client st' = None \<and> cl_state y' = cl_state y \<and> unsent k d (cl_connection y)))" for w' :: world
    have opened: "wp (seat_open_client k s d) (\<lambda>_. P) ?u"
      by (rule open_client_rule [where y = y and st = ?st]) (use y seat types d(2) st(2) heaps in \<open>auto simp: P_def st1_def\<close>)
    have same: "st1\<lparr>active_client := None\<rparr> = ?st" if "next_client st = None" using that by (cases st) (simp add: st1_def)
    have sel: "active_client st1 = Some c" "\<not> vt_bound st1" "seat_clients st1 = remove1 c (seat_clients st)"
      "next_client st1 = (if next_client st = Some c then None else next_client st)"
      using active st(2) by (simp_all add: st1_def)
    have "wp (do { upd_seat s (\<lambda>st. st\<lparr>active_client := None\<rparr>); seat_activate k s }) (\<lambda>_. P) v"
      using d opened heaps unfolding seat_activate_def by (auto simp: wp_simps sel same [symmetric])
    with heaps sel d(2) show ?thesis
      unfolding seat_client_left_def by (auto simp: wp_simps P_def Q_def elim!: wp_mono)
  qed
  show ?thesis
    unfolding Q_def [symmetric] by (rule seat_remove_client_left [OF steady x(1,3) refl st(1) refl st1_def left])
qed

theorem seat_passed_on_witness:
  "case run_state (seat_remove_client desk_kernel 2) (office True) of
     (r, w') \<Rightarrow> active_client (the (seat_heap w' 1)) \<in> {Some 4, None}"
proof -
  obtain r w' where run: "run_state (seat_remove_client desk_kernel 2) (office True) = (r, w')" by (meson surj_pair)
  show ?thesis
    using wpD [OF seat_passed_on [OF office_ok [of True], of 2 "desk_client CLIENT_ACTIVE" 1 "office_seat True" 4 "guest True" desk_kernel] run]
    by (auto simp: run)
qed

section \<open>Releasing a VT\<close>

definition is_reldisp :: "syscall \<Rightarrow> bool" where
  "is_reldisp c \<longleftrightarrow> (\<exists>fd n. c = Sys_ioctl fd (VT_RELDISP n))"

definition drm_active :: "seat_device \<Rightarrow> bool" where
  "drm_active d \<longleftrightarrow> dev_type d = SEAT_DEVICE_TYPE_DRM \<and> dev_active d"

text \<open>What \<open>seat_drop_client_drm_master\<close> makes of a device.\<close>

definition master_dropped :: "kernel \<Rightarrow> seat_device \<Rightarrow> seat_device \<Rightarrow> bool" where
  "master_dropped k d d' \<longleftrightarrow> (if drm_active d then revoked k d d' else d' = d)"

lemma drop_master_wp:
  "wp (for_devices drm_active (seat_deactivate_device k) ds) (\<lambda>ds' w'. os_calls w w' \<and>
     map fst (trace w') = rev (concat (map (revoke_calls k) (filter drm_active ds))) @ map fst (trace w) \<and>
     list_all2 (master_dropped k) ds ds') w"
proof (induction ds arbitrary: w)
  case Nil
  then show ?case by (simp add: wp_simps os_calls_def os_step_def)
next
  case (Cons d ds)
  have one: "wp (if drm_active d then seat_deactivate_device k d else State_Monad.return (0, d)) (\<lambda>(r, d') w'. os_calls w w' \<and>
      map fst (trace w') = rev (concat (map (revoke_calls k) (filter drm_active [d]))) @ map fst (trace w) \<and>
      master_dropped k d d') w"
    using deactivate_wp [of d k w] by (auto simp: drm_active_def master_dropped_def wp_return os_calls_def os_step_def)
  show ?case
    unfolding for_devices.simps wp_bind
    by (rule wp_mono [OF one]) (auto simp: wp_simps intro!: wp_mono [OF Cons.IH] elim: calls.trans)
qed

lemma drop_master_rule:
  assumes "client_heap w c = Some x"
    and "\<And>ds w'. client_heap w' = (client_heap w)(c \<mapsto> x\<lparr>cl_devices := ds\<rparr>) \<Longrightarrow> seat_heap w' = seat_heap w \<Longrightarrow>
      map fst (trace w') = rev (concat (map (revoke_calls k) (filter drm_active (cl_devices x)))) @ map fst (trace w) \<Longrightarrow>
      list_all2 (master_dropped k) (cl_devices x) ds \<Longrightarrow> Q () w'"
  shows "wp (seat_drop_client_drm_master k c) Q w"
proof -
  have heaps: "client_heap v = client_heap w" "seat_heap v = seat_heap w" if "os_calls w v" for v
    using os_step_world(1,2) [OF os_calls_imp_step [OF that]] .
  show ?thesis
    unfolding seat_drop_client_drm_master_def on_devices_def drm_active_def [symmetric]
    using assms(1)
    by (auto simp: wp_bind wp_get_client wp_upd_client heaps intro!: wp_mono [OF drop_master_wp] assms(2))
qed

lemma update_vt_calls:
  "state_io_rel (only_calls (\<lambda>c. \<not> is_reldisp c)) (seat_update_vt k s)"
proof -
  have abort: "state_io_rel (only_calls P) abort_now" for P
    unfolding abort_now_def by (intro only.update) (simp add: only_calls_def)
  have get: "state_io_rel (only_calls (\<lambda>c. \<not> is_reldisp c)) (get_seat s)"
    unfolding get_seat_def by (intro only.rules abort)
  have upd: "state_io_rel (only_calls (\<lambda>c. \<not> is_reldisp c)) (upd_seat s f)" for f
    unfolding upd_seat_def by (intro only.rules only.update get) (auto simp: only_calls_def)
  show ?thesis
    unfolding seat_update_vt_def terminal_open_def terminal_current_vt_def
    by (intro only.rules only_sys only_other upd abort) (auto simp: is_reldisp_def)
qed


definition bound_desk :: world where
  "bound_desk = (desk CLIENT_ACTIVE)\<lparr>seat_heap := [1 \<mapsto> (desk_seat CLIENT_ACTIVE)\<lparr>vt_bound := True, cur_vt := 1\<rparr>]\<rparr>"


section \<open>The event loop\<close>

text \<open>C17:
  \<open>regenerate\<close> rebuilds the argument of \<open>poll\<close> in place, and equals the reference that builds it
  anew: unless memory runs out, the first entry polls the signal pipe and the others poll
  exactly the sources that were not destroyed, in their order, each with the flags of its mask;
  every source knows the place of its entry, and the destroyed sources are unlinked.
\<close>

theorem regenerate_polls_live:
  assumes "poller_ok (the_poller w)"
  shows "wp (regenerate k) (\<lambda>r w'. let p = the_poller w; q = the_poller w' in
     r = -1 \<and> q = p \<or>
     r = 0 \<and> take (fd_event_sources q) (map (\<lambda>f. (pfd_fd f, pfd_events f)) (pollfds q)) =
         (fst (signal_fds p), POLLIN) # map (\<lambda>(a, e). (es_fd e, event_mask_to_poll_mask (es_mask e))) (live (fds p)) \<and>
       map (\<lambda>(a, e). (a, pollfd_idx e)) (fds q) = zip (map fst (live (fds p))) (map int [1..<Suc (length (live (fds p)))]) \<and>
       (\<forall>(a, s) \<in> set (signals q). \<not> ss_killed s)) w"
proof (rule wp_mono [OF regenerate_wp [OF assms]], goal_cases)
  case (1 r w')
  let ?p = "the_poller w" and ?q = "the_poller w'"
  have n: "fd_event_sources ?p = Suc (length (live (fds ?p)))" using assms by (simp add: poller_ok_def)
  have fst: "map fst (number i ls) = map fst ls" for i ls by (induction ls arbitrary: i) auto
  have zip: "map (\<lambda>(a, e). (a, pollfd_idx e)) es = zip (map fst es) (map (\<lambda>s. pollfd_idx (snd s)) es)" for es :: "(nat \<times> event_source_fd) list"
    by (induction es) auto
  from 1 show ?case
    by (auto simp: Let_def in_step_def take_map n zip fst number_fields split_beta simp del: upt_Suc)
qed

theorem regenerate_polls_live_witness:
  "case run_state (regenerate demo_kernel) (desk CLIENT_ACTIVE) of (r, w') \<Rightarrow> r = -1 \<or>
     take (fd_event_sources (the_poller w')) (map (\<lambda>f. (pfd_fd f, pfd_events f)) (pollfds (the_poller w'))) =
       [(0, POLLIN), (7, event_mask_to_poll_mask EVENT_READABLE)]"
proof -
  have "poller_ok (the_poller (desk CLIENT_ACTIVE))"
    using desk_ok [of CLIENT_ACTIVE] by (simp add: server_ok_def world_ok_def poll_at_def)
  from regenerate_polls_live [OF this, of demo_kernel] show ?thesis
    by (auto simp: wp_def Let_def desk_def split: prod.splits)
qed

section \<open>Requests\<close>



section \<open>Who may control the daemon\<close>

text \<open>
  \<open>checked h y\<close>: the calls in \<open>h\<close> asked for the credentials of the peer and for the daemon's own
  user, and they are those of \<open>y\<close>. \<open>settled h w\<close>: what \<open>h\<close> accepted belongs to a control client
  or was closed.
\<close>

definition checked :: "history \<Rightarrow> control_client \<Rightarrow> bool" where
  "checked h y \<longleftrightarrow> (\<exists>peer self. (Sys_peercred (conn_fd (cc_connection y)), peer) \<in> set h \<and> (Sys_geteuid, self) \<in> set h \<and>
     sr_cred peer = (cc_pid y, cc_uid y, cc_gid y) \<and> cc_uid y = sr_val self)"

definition settled :: "history \<Rightarrow> world \<Rightarrow> bool" where
  "settled h w \<longleftrightarrow> (\<forall>fd r. (Sys_accept fd, r) \<in> set h \<longrightarrow> sr_val r = -1 \<or> Sys_close (sr_val r) \<in> fst ` set h \<or>
     (\<exists>c y. control_heap w c = Some y \<and> conn_fd (cc_connection y) = sr_val r))"

definition admitted :: "world \<Rightarrow> world \<Rightarrow> bool" where
  "admitted w w' \<longleftrightarrow> (\<exists>t. trace w' = t @ trace w \<and> settled t w' \<and>
     (\<forall>c y. control_heap w' c = Some y \<longrightarrow> control_heap w c = Some y \<or> checked t y))"

text \<open>
  The state on the way: \<open>fd\<close> was accepted, the given calls were among those made since, and
  \<open>H\<close> holds the control clients.
\<close>

definition accepted :: "int \<Rightarrow> history \<Rightarrow> (nat \<Rightarrow> control_client option) \<Rightarrow> world \<Rightarrow> world \<Rightarrow> bool" where
  "accepted fd h H w v \<longleftrightarrow> control_heap v = H \<and>
     (\<exists>t. trace v = t @ trace w \<and> set h \<subseteq> set t \<and> (\<forall>x r. (Sys_accept x, r) \<in> set t \<longrightarrow> sr_val r = fd))"

lemma accepted_other [simp]:
  "accepted fd h H w (v\<lparr>the_server := x\<rparr>) = accepted fd h H w v" "accepted fd h H w (v\<lparr>the_poller := p\<rparr>) = accepted fd h H w v"
  "accepted fd h H w (v\<lparr>next_addr := n\<rparr>) = accepted fd h H w v" "accepted fd h H w (v\<lparr>aborted := b\<rparr>) = accepted fd h H w v"
  "accepted fd h H w (v\<lparr>the_server := x, the_poller := p\<rparr>) = accepted fd h H w v"
  by (simp_all add: accepted_def)

lemma accepted_heap: "accepted fd h H w v \<Longrightarrow> accepted fd h H' w (v\<lparr>control_heap := H'\<rparr>)"
  by (simp add: accepted_def)

lemma accepted_call:
  assumes "accepted fd h H w v" and "\<And>x. c \<noteq> Sys_accept x" and "\<And>r v'. accepted fd ((c, r) # h) H w v' \<Longrightarrow> next_addr v' = next_addr v \<Longrightarrow> Q r v'"
  shows "wp (sys k c) Q v"
proof -
  have "accepted fd ((c, r) # h) H w (v\<lparr>trace := (c, r) # trace v, errno := e\<rparr>)" for r e
    using assms(1,2) unfolding accepted_def by (elim exE conjE) (auto intro!: exI [of _ "(c, r) # _"])
  then show "wp (sys k c) Q v" using assms(3) by (simp add: wp_simps Let_def)
qed

lemma accepted_call_val:
  assumes "accepted fd h H w v" and "\<And>x. c \<noteq> Sys_accept x" and "\<And>r v'. accepted fd ((c, r) # h) H w v' \<Longrightarrow> next_addr v' = next_addr v \<Longrightarrow> Q (sr_val r) v'"
  shows "wp (sys_val k c) Q v"
  unfolding sys_val_def wp_bind wp_return by (rule accepted_call [OF assms])

lemma accepted_calloc:
  assumes "accepted fd h H w v" and "\<And>r x v'. accepted fd ((Sys_calloc, x) # h) H w v' \<Longrightarrow> Q r v'"
  shows "wp (calloc k) Q v"
  unfolding calloc_def
  by (auto simp: wp_bind wp_return wp_if wp_get wp_update intro!: accepted_call_val [OF assms(1)] assms(2))

lemma accepted_closed: "accepted fd h H w v \<Longrightarrow> H \<subseteq>\<^sub>m control_heap w \<Longrightarrow> Sys_close fd \<in> fst ` set h \<Longrightarrow> admitted w v"
  unfolding accepted_def admitted_def settled_def map_le_def dom_def
  by (elim exE conjE) (rule exI, auto, metis fst_conv image_eqI subsetD)

lemma refuse:
  assumes "accepted fd h (control_heap w) w v"
  shows "wp (sys_val k (Sys_close fd)) (\<lambda>_. admitted w) v"
  by (rule accepted_call_val [OF assms]) (auto intro: accepted_closed)

lemma prepare_accepted:
  assumes "accepted fd h H w v" and "\<And>r h v'. accepted fd h H w v' \<Longrightarrow> Q r v'"
  shows "wp (prepare_control_fd k fd) Q v"
  unfolding prepare_control_fd_def
  by (auto simp: wp_bind wp_return wp_if intro!: accepted_call_val [OF assms(1)] assms(2) intro: accepted_call_val)

lemma close_fds_new: "connection_close_fds k (new_connection fd) = State_Monad.return (new_connection fd)"
  by (simp add: connection_close_fds_def connection_buffer_close_fds_def new_connection_def Let_def connection_buffer_size_def empty_buffer_def)

lemma admit:
  assumes "accepted fd h ((control_heap w)(c \<mapsto> y)) w v" and "conn_fd (cc_connection y) = fd" and "checked h y"
  shows "admitted w v"
proof -
  have mono: "set h \<subseteq> set t \<Longrightarrow> checked t y" for t
    using assms(3) by (auto simp: checked_def)
  show ?thesis
    using assms(1,2) mono unfolding accepted_def admitted_def settled_def by (elim exE conjE) (rule exI, auto)
qed

lemma checked_more: "checked h y \<Longrightarrow> checked (a # h) y"
  by (auto simp: checked_def)

text \<open>The end of the handler: a control client is set up for the accepted descriptor.\<close>

lemma admit_wp:
  assumes v: "accepted fd h (control_heap w) w v" and fd: "fd \<noteq> -1" "conn_fd n = fd" "n = new_connection fd"
    and y: "\<And>e. checked h \<lparr>cc_event_source = e, cc_connection = n, cc_pid = pid, cc_uid = uid, cc_gid = gid\<rparr>"
  shows "wp (do {
      State_Monad.update (\<lambda>w. w\<lparr>control_heap := (control_heap w)(c \<mapsto>
        \<lparr>cc_event_source = None, cc_connection = n, cc_pid = pid, cc_uid = uid, cc_gid = gid\<rparr>)\<rparr>);
      upd_server (\<lambda>v. v\<lparr>control_clients := c # control_clients v\<rparr>);
      e \<leftarrow> poller_add_fd k fd EVENT_READABLE (Control_client_handle_connection c);
      upd_control c (\<lambda>x. x\<lparr>cc_event_source := e\<rparr>);
      if e = None then do { control_client_destroy k c; State_Monad.return (0::int) }
      else State_Monad.return 0
    }) (\<lambda>_. admitted w) v"
proof -
  let ?y = "\<lambda>e. \<lparr>cc_event_source = e, cc_connection = n, cc_pid = pid, cc_uid = uid, cc_gid = gid\<rparr>"
  have heap: "control_heap u = H" if "accepted fd' h' H w u" for fd' h' H u using that by (simp add: accepted_def)
  have destroy: "wp (control_client_destroy k c) (\<lambda>_. admitted w) u" if "accepted fd h' ((control_heap w)(c \<mapsto> ?y None)) w u" for h' u
    unfolding control_client_destroy_def on_control_connection_def free_control_def
    using that fd(1,2)
    by (auto simp: heap wp_bind wp_return wp_if wp_get_control wp_upd_control wp_get_server wp_upd_server wp_assert_that wp_update wp_case_prod
        fd(3) [symmetric] close_fds_new [of k fd, unfolded fd(3) [symmetric]] split: if_splits
        intro!: accepted_call_val [OF accepted_heap] accepted_closed accepted_heap simp: map_le_def)
  have add: "wp (poller_add_fd k fd m f) Q u"
    if "accepted fd h H w u" "\<And>r a v'. accepted fd (a # h) H w v' \<Longrightarrow> Q r v'" for m f Q u H
    unfolding poller_add_fd_def
    by (auto simp: wp_bind wp_return wp_case_option wp_Let wp_upd_poller split: option.splits intro!: accepted_calloc [OF that(1)] that(2))
  show ?thesis
    unfolding wp_bind wp_update wp_upd_server
    by (rule add, simp, rule accepted_heap [OF v])
      (auto simp: wp_upd_control wp_if wp_bind wp_return heap [OF v] heap intro!: destroy accepted_heap admit checked_more y fd(2))
qed

text \<open>C12:
  Only processes of the daemon's own user get to control it: \<open>control_handle_connection\<close> makes a
  control client of an accepted connection only after it asked for the peer's credentials and
  found the peer's user to be its own, and it stores these credentials. Every other accepted
  connection is closed, and no other control client changes.
\<close>

theorem control_peer_checked: "wp (control_handle_connection k fd ev) (\<lambda>_. admitted w) w"
proof -
  have none: "admitted w w" by (auto simp: admitted_def settled_def)
  have failed: "admitted w v" if "accepted (-1) h (control_heap w) w v" for h v
    using that by (auto simp: admitted_def settled_def accepted_def)
  have accept: "wp (sys_val k (Sys_accept fd)) Q w" if "\<And>r h v. accepted r h (control_heap w) w v \<Longrightarrow> Q r v" for Q
    by (auto simp: wp_simps Let_def accepted_def intro!: that [where h = "[]"])
  have peer: "wp (get_peer k new) Q v"
    if "accepted new h (control_heap w) w v" "\<And>r v'. accepted new ((Sys_peercred new, r) # h) (control_heap w) w v' \<Longrightarrow>
      Q (if sr_val r = -1 then None else Some (sr_cred r)) v'" for new h Q v
    unfolding get_peer_def wp_bind wp_return by (rule accepted_call [OF that(1)], simp, rule that(2))
  define enter :: "int \<Rightarrow> int \<Rightarrow> int \<Rightarrow> int \<Rightarrow> nat \<Rightarrow> (world, int) state" where "enter new pid uid gid c = do {
      State_Monad.update (\<lambda>w. w\<lparr>control_heap := (control_heap w)(c \<mapsto>
        \<lparr>cc_event_source = None, cc_connection = new_connection new, cc_pid = pid, cc_uid = uid, cc_gid = gid\<rparr>)\<rparr>);
      upd_server (\<lambda>v. v\<lparr>control_clients := c # control_clients v\<rparr>);
      e \<leftarrow> poller_add_fd k new EVENT_READABLE (Control_client_handle_connection c);
      upd_control c (\<lambda>x. x\<lparr>cc_event_source := e\<rparr>);
      if e = None then do { control_client_destroy k c; State_Monad.return 0 }
      else State_Monad.return 0
    }" for new pid uid gid c
  have enter: "wp (enter new pid (sr_val self) gid c) (\<lambda>_. admitted w) v"
    if "accepted new (a # (Sys_geteuid, self) # (Sys_peercred new, peer) # h) (control_heap w) w v" "new \<noteq> -1" "sr_cred peer = (pid, sr_val self, gid)"
    for new pid gid c v a self peer h
    unfolding enter_def
    by (rule admit_wp [OF that(1,2)]) (use that(3) in \<open>auto simp: new_connection_def checked_def\<close>)
  show ?thesis
    unfolding control_handle_connection_def enter_def [symmetric]
    by (auto simp: wp_bind wp_return wp_if wp_case_option none failed split: option.splits prod.splits if_splits intro!: accept prepare_accepted peer refuse
        accepted_call_val accepted_calloc intro: enter)
qed

section \<open>The whole program\<close>



end
