(* ===== verification/Wire_Spec.thy ===== *)
theory Wire_Spec
  imports Reach
begin

text \<open>
  The encodings of the wire protocols (\<open>include/protocol.h\<close>) can be decoded: headers, integers
  and strings come back as they were sent.
\<close>

section \<open>Integers\<close>

lemma bytes_u16_bytes [simp]: "bytes_u16 (u16_bytes x @ bs) = x" "bytes_u16 (u16_bytes x) = x"
proof -
  have "ucast (ucast x :: byte) OR push_bit 8 (ucast (ucast (drop_bit 8 x) :: byte)) = (x :: u16)"
    by (rule bit_word_eqI) (auto simp: bit_simps)
  then show "bytes_u16 (u16_bytes x @ bs) = x" "bytes_u16 (u16_bytes x) = x"
    by (simp_all add: bytes_u16_def u16_bytes_def)
qed

lemma header_decode:
  assumes "n < 65536"
  shows "header_opcode (proto_header opcode n) = opcode" "header_size (proto_header opcode n) = n"
proof -
  have "unat (of_nat n :: u16) = n" using assms by (simp add: unat_of_nat take_bit_eq_mod)
  then show "header_opcode (proto_header opcode n) = opcode" "header_size (proto_header opcode n) = n"
    by (simp_all add: header_opcode_def header_size_def proto_header_def u16_bytes_def) (simp_all flip: u16_bytes_def)
qed

section \<open>Strings\<close>

text \<open>A string without the null character survives the trip through a buffer.\<close>

lemma cstring_string_bytes:
  assumes "CHR 0x00 \<notin> set s"
  shows "cstring (string_bytes s @ bs) = s" "cstring (string_bytes s) = s"
proof -
  have char: "char_of (unat (of_nat (of_char c) :: byte)) = c" for c :: char
    by (simp add: unat_of_nat take_bit_eq_mod)
  have nonzero: "(of_nat (of_char c) :: byte) \<noteq> 0" if "c \<in> set s" for c
  proof
    assume "(of_nat (of_char c) :: byte) = 0"
    then have "c = char_of (0::nat)" using char [of c] by simp
    moreover have "char_of (0::nat) = CHR 0x00" by (simp add: char_of_def)
    ultimately show False using assms that by simp
  qed
  have "takeWhile (\<lambda>b. b \<noteq> 0) (map (\<lambda>c. of_nat (of_char c)) s @ 0 # bs) = map (\<lambda>c. of_nat (of_char c) :: byte) s" for bs
    using nonzero by (subst takeWhile_append2) auto
  then have "cstring (string_bytes s @ bs) = s" for bs
    using char by (simp add: cstring_def string_bytes_def comp_def)
  from this [of bs] this [of "[]"] show "cstring (string_bytes s @ bs) = s" "cstring (string_bytes s) = s" by simp_all
qed

section \<open>Properties\<close>




end
