(* ===== verification/Libseat_Seatd.thy ===== *)
theory Libseat_Seatd
  imports Wire_Spec
begin

text \<open>
  \<open>libseat/backend/seatd.c\<close>: the side of the client library that talks to the daemon. The
  structure \<open>backend_seatd\<close> is part of the state, absent before it is allocated and after it is
  freed; an access to it then sets \<open>aborted\<close>. One seat is open at a time.

  The listener is code of the application, so it is an argument: two programs on the state of
  the library, which may themselves call the library. The build sets the default path of the
  socket, so it is an argument too. The server inside the library (\<open>BUILTIN_ENABLED\<close>) is not
  built by default and not modelled.
\<close>

section \<open>Data\<close>

record backend_seatd =
  be_connection :: connection
  pending_events :: "u16 list"
  awaiting_pong :: bool
  be_error :: bool
  be_seat_name :: "byte list"

abbreviation (input) "MAX_SEAT_LEN \<equiv> (64::nat)"

record lib_os = os +
  the_backend :: "backend_seatd option"

record 'w libseat_seat_listener =
  enable_seat :: "('w, unit) state option"
  disable_seat :: "('w, unit) state option"

definition new_backend :: "int \<Rightarrow> backend_seatd" where
  "new_backend fd = \<lparr>be_connection = new_connection fd, pending_events = [], awaiting_pong = False,
     be_error = False, be_seat_name = replicate MAX_SEAT_LEN 0\<rparr>"

definition get_backend :: "('a lib_os_scheme, backend_seatd) state" where
  "get_backend = do {
     w \<leftarrow> State_Monad.get;
     case the_backend w of
       None \<Rightarrow> do { abort_now; State_Monad.return (new_backend 0) }
     | Some b \<Rightarrow> State_Monad.return b
   }"

definition upd_backend :: "(backend_seatd \<Rightarrow> backend_seatd) \<Rightarrow> ('a lib_os_scheme, unit) state" where
  "upd_backend f = do {
     b \<leftarrow> get_backend;
     State_Monad.update (\<lambda>w. if the_backend w = None then w else w\<lparr>the_backend := Some (f b)\<rparr>)
   }"

definition free_backend :: "('a lib_os_scheme, unit) state" where
  "free_backend = State_Monad.update (\<lambda>w. w\<lparr>the_backend := None\<rparr>)"

definition on_backend ::
    "(connection \<Rightarrow> ('a lib_os_scheme, 'b \<times> connection) state) \<Rightarrow> ('a lib_os_scheme, 'b) state" where
  "on_backend f = do {
     b \<leftarrow> get_backend;
     (r, n) \<leftarrow> f (be_connection b);
     upd_backend (\<lambda>b. b\<lparr>be_connection := n\<rparr>);
     State_Monad.return r
   }"

section \<open>Connection and errors\<close>

definition seatd_connect :: "kernel \<Rightarrow> string \<Rightarrow> ('a os_scheme, int) state" where
  "seatd_connect k default_path = do {
     fd \<leftarrow> sys_val k Sys_socket;
     if fd = -1 then State_Monad.return (-1)
     else do {
       r \<leftarrow> sys k (Sys_getenv ''SEATD_SOCK'');
       let path = (if sr_val r = -1 then default_path else sr_str r);
       r \<leftarrow> sys_val k (Sys_ipc (Connect fd (strncpy 108 path)));
       if r = -1 then do { _ \<leftarrow> sys_val k (Sys_close fd); State_Monad.return (-1) }
       else State_Monad.return fd
     }
   }"

definition cleanup :: "kernel \<Rightarrow> ('a lib_os_scheme, unit) state" where
  "cleanup k = do {
     b \<leftarrow> get_backend;
     _ \<leftarrow> (if conn_fd (be_connection b) \<noteq> -1 then sys_val k (Sys_shutdown (conn_fd (be_connection b)))
           else State_Monad.return 0);
     on_backend (\<lambda>n. do { n \<leftarrow> connection_close_fds k n; State_Monad.return ((), n) });
     upd_backend (\<lambda>b. b\<lparr>pending_events := []\<rparr>)
   }"

definition destroy_backend :: "kernel \<Rightarrow> ('a lib_os_scheme, unit) state" where
  "destroy_backend k = do {
     b \<leftarrow> get_backend;
     _ \<leftarrow> (if conn_fd (be_connection b) \<noteq> -1 then do {
             _ \<leftarrow> sys_val k (Sys_close (conn_fd (be_connection b)));
             upd_backend (\<lambda>b. b\<lparr>be_connection := (be_connection b)\<lparr>conn_fd := -1\<rparr>\<rparr>)
           } else State_Monad.return ());
     cleanup k;
     free_backend
   }"

definition set_error :: "kernel \<Rightarrow> ('a lib_os_scheme, unit) state" where
  "set_error k = do {
     b \<leftarrow> get_backend;
     if be_error b then State_Monad.return ()
     else do {
       stored_errno \<leftarrow> get_errno;
       upd_backend (\<lambda>b. b\<lparr>be_error := True\<rparr>);
       cleanup k;
       set_errno stored_errno
     }
   }"

definition conn_put :: "kernel \<Rightarrow> byte list \<Rightarrow> ('a lib_os_scheme, int) state" where
  "conn_put k bs = do {
     r \<leftarrow> on_backend (\<lambda>n. connection_put k n bs);
     if r = -1 then do { set_error k; State_Monad.return (-1) } else State_Monad.return 0
   }"

definition conn_flush :: "kernel \<Rightarrow> ('a lib_os_scheme, int) state" where
  "conn_flush k = do {
     r \<leftarrow> on_backend (connection_flush k);
     if r = -1 then do { set_error k; State_Monad.return (-1) } else State_Monad.return 0
   }"

definition conn_get :: "kernel \<Rightarrow> nat \<Rightarrow> ('a lib_os_scheme, byte list option) state" where
  "conn_get k n = do {
     r \<leftarrow> on_backend (\<lambda>c. connection_get c n);
     if r = None then do { set_error k; set_errno EBADMSG; State_Monad.return None }
     else State_Monad.return r
   }"

definition conn_get_fd :: "kernel \<Rightarrow> ('a lib_os_scheme, int option) state" where
  "conn_get_fd k = do {
     r \<leftarrow> on_backend connection_get_fd;
     if r = None then do { set_error k; set_errno EBADMSG; State_Monad.return None }
     else State_Monad.return r
   }"

text \<open>\<open>None\<close> is the value \<open>SIZE_MAX\<close>.\<close>

definition read_header :: "kernel \<Rightarrow> u16 \<Rightarrow> nat \<Rightarrow> bool \<Rightarrow> ('a lib_os_scheme, nat option) state" where
  "read_header k expected_opcode expected_size variable = do {
     r \<leftarrow> conn_get k 4;
     case r of
       None \<Rightarrow> do { set_error k; State_Monad.return None }
     | Some header \<Rightarrow>
         if header_opcode header \<noteq> expected_opcode then do {
           _ \<leftarrow> (if header_opcode header \<noteq> SERVER_ERROR \<or> header_size header \<noteq> 4 then do {
                   set_error k;
                   set_errno EBADMSG
                 } else do {
                   m \<leftarrow> conn_get k 4;
                   case m of
                     None \<Rightarrow> do { set_error k; set_errno EBADMSG }
                   | Some msg \<Rightarrow> set_errno (bytes_int msg)
                 });
           State_Monad.return None
         }
         else if (\<not> variable \<and> header_size header \<noteq> expected_size) \<or>
                 (variable \<and> header_size header < expected_size) then do {
           set_error k;
           set_errno EBADMSG;
           State_Monad.return None
         }
         else State_Monad.return (Some (header_size header))
   }"

section \<open>Events\<close>

definition queue_event :: "kernel \<Rightarrow> u16 \<Rightarrow> ('a lib_os_scheme, int) state" where
  "queue_event k opcode = do {
     r \<leftarrow> sys_val k Sys_calloc;
     if r = -1 then State_Monad.return (-1)
     else do {
       upd_backend (\<lambda>b. b\<lparr>pending_events := opcode # pending_events b\<rparr>);
       State_Monad.return 0
     }
   }"

text \<open>Calling a function of the listener; a null pointer is an error.\<close>

definition call_listener :: "('a os_scheme, unit) state option \<Rightarrow> ('a os_scheme, unit) state" where
  "call_listener f = (case f of None \<Rightarrow> abort_now | Some m \<Rightarrow> m)"

text \<open>The loop of \<open>execute_events\<close> over the list it took; it reads the listener from the backend in every round.\<close>

primrec execute_list ::
    "'a lib_os_scheme libseat_seat_listener \<Rightarrow> u16 list \<Rightarrow> int \<Rightarrow> ('a lib_os_scheme, int) state" where
  "execute_list l [] executed = State_Monad.return executed"
| "execute_list l (opcode # opcodes) executed = do {
     _ \<leftarrow> get_backend;
     _ \<leftarrow> (if opcode = SERVER_DISABLE_SEAT then call_listener (disable_seat l)
           else if opcode = SERVER_ENABLE_SEAT then call_listener (enable_seat l)
           else abort_now);
     execute_list l opcodes (executed + 1)
   }"

definition execute_events :: "'a lib_os_scheme libseat_seat_listener \<Rightarrow> ('a lib_os_scheme, int) state" where
  "execute_events l = do {
     b \<leftarrow> get_backend;
     upd_backend (\<lambda>b. b\<lparr>pending_events := []\<rparr>);
     execute_list l (pending_events b) 0
   }"

text \<open>
  The loop of \<open>read_and_queue\<close>. The flag says whether the caller passed a pointer for the
  opcode; the second result is what the loop stores there, 0 if it stores nothing. Every round
  takes a header of four bytes off a buffer of at most 256, so 65 rounds are enough.
\<close>

primrec queue_loop :: "nat \<Rightarrow> kernel \<Rightarrow> bool \<Rightarrow> int \<Rightarrow> ('a lib_os_scheme, int \<times> u16) state" where
  "queue_loop 0 k want packets = do { set_stuck; State_Monad.return (packets, 0) }"
| "queue_loop (Suc n) k want packets = do {
     r \<leftarrow> on_backend (\<lambda>c. connection_get c 4);
     case r of
       None \<Rightarrow> State_Monad.return (packets, 0)
     | Some header \<Rightarrow>
         let packets = packets + 1; opcode = header_opcode header in
         if opcode = SERVER_PONG then do {
           upd_backend (\<lambda>b. b\<lparr>awaiting_pong := False\<rparr>);
           queue_loop n k want packets
         }
         else if opcode = SERVER_DISABLE_SEAT \<or> opcode = SERVER_ENABLE_SEAT then do {
           q \<leftarrow> queue_event k opcode;
           if q = -1 then do { set_error k; State_Monad.return (-1, 0) }
           else queue_loop n k want packets
         }
         else do {
           (p, stored) \<leftarrow> (if \<not> want then do {
               set_error k;
               set_errno EBADMSG;
               State_Monad.return (-1, 0)
             } else do {
               b \<leftarrow> get_backend;
               State_Monad.return (packets,
                 if connection_pending (be_connection b) \<ge> header_size header then opcode else 0)
             });
           on_backend (\<lambda>c. State_Monad.return ((), connection_restore c 4));
           State_Monad.return (p, stored)
         }
   }"

definition read_and_queue :: "kernel \<Rightarrow> bool \<Rightarrow> ('a lib_os_scheme, int \<times> u16) state" where
  "read_and_queue k want = queue_loop 65 k want 0"

definition poll_connection :: "kernel \<Rightarrow> int \<Rightarrow> ('a lib_os_scheme, int) state" where
  "poll_connection k timeout = do {
     b \<leftarrow> get_backend;
     r \<leftarrow> sys k (Sys_ipc (Poll_in (conn_fd (be_connection b)) timeout));
     e \<leftarrow> get_errno;
     let revents = (of_int (sr_out r) :: u16);
     if sr_val r = -1 then State_Monad.return (if e = EAGAIN \<or> e = EINTR then 0 else -1)
     else if revents AND (POLLERR OR POLLHUP) \<noteq> 0 then do {
       set_error k;
       set_errno EPIPE;
       State_Monad.return (-1)
     }
     else if revents AND POLLIN \<noteq> 0 then do {
       len \<leftarrow> on_backend (connection_read k);
       e \<leftarrow> get_errno;
       if len = 0 then do {
         set_error k;
         set_errno EIO;
         State_Monad.return (-1)
       }
       else if len = -1 \<and> e \<noteq> EAGAIN then do {
         set_error k;
         State_Monad.return (-1)
       }
       else State_Monad.return len
     }
     else State_Monad.return 0
   }"

text \<open>The loop of \<open>read_until_response\<close> waits for the daemon without a bound; the model gives up after \<open>retry_fuel\<close> rounds.\<close>

primrec response_loop :: "nat \<Rightarrow> kernel \<Rightarrow> ('a lib_os_scheme, int) state" where
  "response_loop 0 k = do { set_stuck; State_Monad.return (-1) }"
| "response_loop (Suc n) k = do {
     (r, opcode) \<leftarrow> read_and_queue k True;
     if r = -1 then State_Monad.return (-1)
     else if opcode \<noteq> 0 then State_Monad.return 0
     else do {
       r \<leftarrow> poll_connection k (-1);
       if r = -1 then State_Monad.return (-1) else response_loop n k
     }
   }"

definition read_until_response :: "kernel \<Rightarrow> ('a lib_os_scheme, int) state" where
  "read_until_response k = do {
     r \<leftarrow> conn_flush k;
     if r = -1 then State_Monad.return (-1) else response_loop (retry_fuel k) k
   }"

section \<open>Operations\<close>

definition lib_get_fd :: "('a lib_os_scheme, int) state" where
  "lib_get_fd = do { b \<leftarrow> get_backend; State_Monad.return (conn_fd (be_connection b)) }"

definition lib_dispatch ::
    "kernel \<Rightarrow> 'a lib_os_scheme libseat_seat_listener \<Rightarrow> int \<Rightarrow> ('a lib_os_scheme, int) state" where
  "lib_dispatch k l timeout = do {
     b \<leftarrow> get_backend;
     if be_error b then do { set_errno ENOTCONN; State_Monad.return (-1) }
     else do {
       (predispatch, _) \<leftarrow> read_and_queue k False;
       if predispatch = -1 then State_Monad.return (-1)
       else do {
         executed \<leftarrow> execute_events l;
         let predispatch = predispatch + executed;
         read \<leftarrow> (if predispatch > 0 \<or> timeout = 0 then on_backend (connection_read k)
                 else poll_connection k timeout);
         e \<leftarrow> get_errno;
         if read = 0 then State_Monad.return predispatch
         else if read = -1 \<and> e \<noteq> EAGAIN then State_Monad.return (-1)
         else do {
           (postdispatch, _) \<leftarrow> read_and_queue k False;
           if postdispatch = -1 then State_Monad.return (-1)
           else do {
             executed \<leftarrow> execute_events l;
             State_Monad.return (predispatch + (postdispatch + executed))
           }
         }
       }
     }
   }"

text \<open>Putting the parts of a request, and waiting for the response; the first failure ends it.\<close>

primrec conn_put_all :: "kernel \<Rightarrow> byte list list \<Rightarrow> ('a lib_os_scheme, int) state" where
  "conn_put_all k [] = State_Monad.return 0"
| "conn_put_all k (b # bs) = do {
     r \<leftarrow> conn_put k b;
     if r = -1 then State_Monad.return (-1) else conn_put_all k bs
   }"

definition request :: "kernel \<Rightarrow> byte list list \<Rightarrow> ('a lib_os_scheme, int) state" where
  "request k parts = do {
     r \<leftarrow> conn_put_all k parts;
     if r = -1 then State_Monad.return (-1) else read_until_response k
   }"

definition backend_error :: "kernel \<Rightarrow> int \<Rightarrow> ('a lib_os_scheme, bool) state" where
  "backend_error k e = do {
     destroy_backend k;
     set_errno e;
     State_Monad.return False
   }"

definition strnlen :: "byte list \<Rightarrow> nat \<Rightarrow> nat" where
  "strnlen bs n = length (takeWhile (\<lambda>b. b \<noteq> 0) (take n bs))"

text \<open>The name as it is stored, with the terminator that old daemons do not send, and its length.\<close>

definition store_seat_name :: "byte list \<Rightarrow> byte list \<Rightarrow> byte list \<times> nat" where
  "store_seat_name array name =
     (let array = write_at array 0 name; len = length name in
      if len = 0 \<or> (len < MAX_SEAT_LEN \<and> array ! (len - 1) \<noteq> 0)
      then (array[len := 0], len + 1) else (array, len))"

definition open_seat_on ::
    "kernel \<Rightarrow> 'a lib_os_scheme libseat_seat_listener \<Rightarrow> int \<Rightarrow> ('a lib_os_scheme, bool) state" where
  "open_seat_on k l fd = do {
     assert_that (enable_seat l \<noteq> None \<and> disable_seat l \<noteq> None);
     r \<leftarrow> sys_val k Sys_calloc;
     if r = -1 then do { _ \<leftarrow> sys_val k (Sys_close fd); State_Monad.return False }
     else do {
       State_Monad.update (\<lambda>w. w\<lparr>the_backend := Some (new_backend fd)\<rparr>);
       r \<leftarrow> request k [proto_header CLIENT_OPEN_SEAT 0];
       e \<leftarrow> get_errno;
       if r = -1 then backend_error k e
       else do {
         size \<leftarrow> read_header k SERVER_SEAT_OPENED 2 True;
         rmsg \<leftarrow> (if size = None then State_Monad.return None else conn_get k 2);
         e \<leftarrow> get_errno;
         case rmsg of
           None \<Rightarrow> backend_error k e
         | Some msg \<Rightarrow> do {
             let seat_name_len = unat (bytes_u16 msg);
             if seat_name_len \<noteq> the size - 2 then backend_error k EBADMSG
             else if seat_name_len > MAX_SEAT_LEN then backend_error k EBADMSG
             else do {
               r \<leftarrow> conn_get k seat_name_len;
               e \<leftarrow> get_errno;
               case r of
                 None \<Rightarrow> backend_error k e
               | Some name \<Rightarrow> do {
                   b \<leftarrow> get_backend;
                   let (array, len) = store_seat_name (be_seat_name b) name;
                   upd_backend (\<lambda>b. b\<lparr>be_seat_name := array\<rparr>);
                   if len = 0 \<or> strnlen array len \<noteq> len - 1 then backend_error k EBADMSG
                   else do {
                     _ \<leftarrow> execute_events l;
                     State_Monad.return True
                   }
                 }
             }
           }
       }
     }
   }"

definition lib_open_seat ::
    "kernel \<Rightarrow> string \<Rightarrow> 'a lib_os_scheme libseat_seat_listener \<Rightarrow> ('a lib_os_scheme, bool) state" where
  "lib_open_seat k default_path l = do {
     fd \<leftarrow> seatd_connect k default_path;
     if fd = -1 then State_Monad.return False else open_seat_on k l fd
   }"

definition lib_close_seat ::
    "kernel \<Rightarrow> 'a lib_os_scheme libseat_seat_listener \<Rightarrow> ('a lib_os_scheme, int) state" where
  "lib_close_seat k l = do {
     b \<leftarrow> get_backend;
     res \<leftarrow> (if be_error b then State_Monad.return (- ENOTCONN)
             else do {
               r \<leftarrow> request k [proto_header CLIENT_CLOSE_SEAT 0];
               e \<leftarrow> get_errno;
               let res = (if r = -1 then - e else 0);
               size \<leftarrow> read_header k SERVER_SEAT_CLOSED 0 False;
               e \<leftarrow> get_errno;
               State_Monad.return (if size = None then - e else res)
             });
     _ \<leftarrow> execute_events l;
     destroy_backend k;
     if res < 0 then do { set_errno (- res); State_Monad.return (-1) }
     else State_Monad.return 0
   }"

definition lib_seat_name :: "('a lib_os_scheme, string) state" where
  "lib_seat_name = do { b \<leftarrow> get_backend; State_Monad.return (cstring (be_seat_name b)) }"

definition send_ping :: "kernel \<Rightarrow> ('a lib_os_scheme, int) state" where
  "send_ping k = do {
     r \<leftarrow> conn_put k (proto_header CLIENT_PING 0);
     if r = -1 then State_Monad.return (-1) else conn_flush k
   }"

definition check_pending_events :: "kernel \<Rightarrow> ('a lib_os_scheme, unit) state" where
  "check_pending_events k = do {
     (r, _) \<leftarrow> read_and_queue k False;
     b \<leftarrow> get_backend;
     if r = -1 \<or> pending_events b = [] \<or> awaiting_pong b then State_Monad.return ()
     else do {
       r \<leftarrow> send_ping k;
       if r = -1 then State_Monad.return ()
       else upd_backend (\<lambda>b. b\<lparr>awaiting_pong := True\<rparr>)
     }
   }"

text \<open>The end of every request: pending events are looked after, then the error is reported.\<close>

definition finish_request :: "kernel \<Rightarrow> int \<Rightarrow> ('a lib_os_scheme, int) state" where
  "finish_request k res = do {
     check_pending_events k;
     if res < 0 then do { set_errno (- res); State_Monad.return (-1) }
     else State_Monad.return res
   }"

text \<open>The messages of the requests, as the parts that are put on the connection.\<close>

definition open_device_request :: "string \<Rightarrow> byte list list" where
  "open_device_request path = (let pathlen = length path + 1 in
     [proto_header CLIENT_OPEN_DEVICE (2 + pathlen), u16_bytes (of_nat pathlen), string_bytes path])"

definition close_device_request :: "int \<Rightarrow> byte list list" where
  "close_device_request device = [proto_header CLIENT_CLOSE_DEVICE 4, int_bytes device]"

definition switch_session_request :: "int \<Rightarrow> byte list list" where
  "switch_session_request session = [proto_header CLIENT_SWITCH_SESSION 4, int_bytes session]"

text \<open>The second result is what the call stores through its pointer argument \<open>fd\<close>.\<close>

definition lib_open_device :: "kernel \<Rightarrow> string \<Rightarrow> ('a lib_os_scheme, int \<times> int option) state" where
  "lib_open_device k path = do {
     b \<leftarrow> get_backend;
     if be_error b then do { set_errno ENOTCONN; State_Monad.return (-1, None) }
     else if length path + 1 > MAX_PATH_LEN then do { set_errno EINVAL; State_Monad.return (-1, None) }
     else do {
       r \<leftarrow> request k (open_device_request path);
       if r = -1 then State_Monad.return (-1, None)
       else do {
         size \<leftarrow> read_header k SERVER_DEVICE_OPENED 4 False;
         rmsg \<leftarrow> (if size = None then State_Monad.return None else conn_get k 4);
         fd \<leftarrow> (if rmsg = None then State_Monad.return None else conn_get_fd k);
         e \<leftarrow> get_errno;
         res \<leftarrow> (if fd = None then do { assert_that (- e < 0); State_Monad.return (- e) }
                 else State_Monad.return (bytes_int (the rmsg)));
         res \<leftarrow> finish_request k res;
         State_Monad.return (res, fd)
       }
     }
   }"

text \<open>The requests whose response has no payload.\<close>

definition plain_request :: "kernel \<Rightarrow> byte list list \<Rightarrow> u16 \<Rightarrow> ('a lib_os_scheme, int) state" where
  "plain_request k parts response = do {
     r \<leftarrow> request k parts;
     if r = -1 then State_Monad.return (-1)
     else do {
       size \<leftarrow> read_header k response 0 False;
       e \<leftarrow> get_errno;
       r \<leftarrow> finish_request k (if size = None then - e else 0);
       State_Monad.return (if r < 0 then -1 else 0)
     }
   }"

definition lib_close_device :: "kernel \<Rightarrow> int \<Rightarrow> ('a lib_os_scheme, int) state" where
  "lib_close_device k device = do {
     b \<leftarrow> get_backend;
     if be_error b then do { set_errno ENOTCONN; State_Monad.return (-1) }
     else if device < 0 then do { set_errno EINVAL; State_Monad.return (-1) }
     else plain_request k (close_device_request device) SERVER_DEVICE_CLOSED
   }"

definition lib_switch_session :: "kernel \<Rightarrow> int \<Rightarrow> ('a lib_os_scheme, int) state" where
  "lib_switch_session k session = do {
     b \<leftarrow> get_backend;
     if be_error b then do { set_errno ENOTCONN; State_Monad.return (-1) }
     else if session < 0 then do { set_errno EINVAL; State_Monad.return (-1) }
     else plain_request k (switch_session_request session) SERVER_SESSION_SWITCHED
   }"

definition lib_disable_seat :: "kernel \<Rightarrow> ('a lib_os_scheme, int) state" where
  "lib_disable_seat k = do {
     b \<leftarrow> get_backend;
     if be_error b then do { set_errno ENOTCONN; State_Monad.return (-1) }
     else plain_request k [proto_header CLIENT_DISABLE_SEAT 0] SERVER_SEAT_DISABLED
   }"

end
