(* ===== verification/Libseat_Inv.thy ===== *)
theory Libseat_Inv
  imports Libseat_Seatd
begin

text \<open>
  The invariant of the client library's seatd backend (\<open>libseat/backend/seatd.c\<close>), and that
  every operation keeps it: no operation fails an assertion or uses a freed backend, whatever
  the daemon sends. What \<open>read_and_queue\<close> takes off the input is described by a function on
  byte strings. The contract of the application's listener is a locale.
\<close>

section \<open>Symbolic execution\<close>

lemma wp_get_backend [wp_simps]:
  "wp get_backend Q = (\<lambda>w. case the_backend w of
     None \<Rightarrow> Q (new_backend 0) (w\<lparr>aborted := True\<rparr>) | Some b \<Rightarrow> Q b w)"
  by (auto simp: get_backend_def wp_simps fun_eq_iff split: option.split)

lemma wp_upd_backend [wp_simps]:
  "wp (upd_backend f) Q = (\<lambda>w. case the_backend w of
     None \<Rightarrow> Q () (w\<lparr>aborted := True\<rparr>) | Some b \<Rightarrow> Q () (w\<lparr>the_backend := Some (f b)\<rparr>))"
  by (auto simp: upd_backend_def wp_simps fun_eq_iff split: option.split)

lemma wp_free_backend [wp_simps]: "wp free_backend Q = (\<lambda>w. Q () (w\<lparr>the_backend := None\<rparr>))"
  by (simp add: free_backend_def wp_simps)

lemma os_step_backend:
  assumes "os_step (w :: 'a lib_os_scheme) w'"
  shows "the_backend w' = the_backend w" "aborted w' = aborted w" "lib_os.more w' = lib_os.more w"
  using assms by (cases w; cases w'; simp add: os_step_def)+

lemma on_backend_rule:
  assumes b: "the_backend w = Some b" and step: "state_io_rel R (f (be_connection b))" and R: "\<And>w'. R w w' \<Longrightarrow> os_step w w'"
    and f: "wp (f (be_connection b)) (\<lambda>(r, n). P r n) w"
    and Q: "\<And>r n w'. P r n w' \<Longrightarrow> R w w' \<Longrightarrow> Q r (w'\<lparr>the_backend := Some (b\<lparr>be_connection := n\<rparr>)\<rparr>)"
  shows "wp (on_backend f) Q w"
proof -
  have "wp (f (be_connection b)) (\<lambda>(r, n) w'. P r n w' \<and> R w w') w"
    using f wp_frame [OF step, of w "\<lambda>_. R w"] by (rule wp_both) auto
  then show ?thesis
    unfolding on_backend_def wp_simps b
    by (simp add: b, rule wp_mono) (use Q b in \<open>auto simp: os_step_backend(1) [OF R]\<close>)
qed

section \<open>The invariant of the library\<close>

definition lib_ok :: "backend_seatd \<Rightarrow> bool" where
  "lib_ok b \<longleftrightarrow> conn_ok (be_connection b) \<and> set (pending_events b) \<subseteq> {SERVER_DISABLE_SEAT, SERVER_ENABLE_SEAT} \<and>
     length (be_seat_name b) = MAX_SEAT_LEN"

lemma connection_close_fds_ok:
  assumes "conn_ok c"
  shows "wp (connection_close_fds k c) (\<lambda>c' w'. conn_ok c' \<and> cin c' = cin c \<and> cout c' = cout c \<and>
     conn_fd c' = conn_fd c \<and> want_flush c' = want_flush c) w"
proof -
  have some: "wp (connection_buffer_close_fds k b) (\<lambda>b' _. buffer_ok b') w" if "buffer_ok b" for b and w :: "'a os_scheme"
    using that by (auto simp: connection_buffer_close_fds_def wp_simps intro!: wp_frame [OF close_all_calls] ring.consume_ok)
  have all: "wp (connection_buffer_close_fds k (fds_out c)) (\<lambda>b' _. buffer_ok b' \<and> contents b' = []) w" for w :: "'a os_scheme"
    using assms by (intro close_fds_ok) (auto simp: conn_ok_def)
  show ?thesis
    using assms by (auto simp: connection_close_fds_def wp_simps conn_ok_def intro!: wp_mono [OF some] wp_mono [OF all])
qed

definition same_seat :: "backend_seatd \<Rightarrow> backend_seatd \<Rightarrow> bool" where
  "same_seat b b' \<longleftrightarrow> be_seat_name b' = be_seat_name b \<and> conn_fd (be_connection b') = conn_fd (be_connection b)"

text \<open>What \<open>set_error\<close> leaves of the backend.\<close>

definition failed :: "backend_seatd \<Rightarrow> backend_seatd \<Rightarrow> bool" where
  "failed b b' \<longleftrightarrow> lib_ok b' \<and> be_error b' \<and> cin (be_connection b') = cin (be_connection b) \<and>
     awaiting_pong b' = awaiting_pong b \<and> same_seat b b'"

lemma cleanup_wp:
  assumes "the_backend w = Some b" and "lib_ok b"
  shows "wp (cleanup k) (\<lambda>_ w'. \<exists>n. conn_ok n \<and> cin n = cin (be_connection b) \<and> conn_fd n = conn_fd (be_connection b) \<and>
     the_backend w' = Some (b\<lparr>be_connection := n, pending_events := []\<rparr>) \<and> aborted w' = aborted w \<and> stuck w' = stuck w) w"
proof -
  have close: "wp (on_backend (\<lambda>n. do { n \<leftarrow> connection_close_fds k n; State_Monad.return ((), n) })) Q v"
    if v: "the_backend v = Some b" "aborted v = aborted w" "stuck v = stuck w"
      and Q: "\<And>n v'. conn_ok n \<Longrightarrow> cin n = cin (be_connection b) \<Longrightarrow> conn_fd n = conn_fd (be_connection b) \<Longrightarrow>
        the_backend v' = Some (b\<lparr>be_connection := n\<rparr>) \<Longrightarrow> aborted v' = aborted w \<Longrightarrow> stuck v' = stuck w \<Longrightarrow> Q () v'" for Q v
  proof (rule on_backend_rule [where b = b and R = os_calls])
    show "wp (do { n \<leftarrow> connection_close_fds k (be_connection b); State_Monad.return ((), n) })
       (\<lambda>(r, n) w'. conn_ok n \<and> cin n = cin (be_connection b) \<and> conn_fd n = conn_fd (be_connection b)) v"
      unfolding wp_simps by (rule wp_mono [OF connection_close_fds_ok]) (use assms in \<open>auto simp: lib_ok_def\<close>)
  qed (use v in \<open>auto intro!: Q calls.rules calls_frame simp: os_calls_def os_step_backend\<close>)
  show ?thesis
    unfolding cleanup_def using assms
    by (auto simp: wp_simps Let_def intro!: close)
qed

lemma set_error_wp:
  assumes "the_backend w = Some b" and "lib_ok b"
  shows "wp (set_error k) (\<lambda>_ w'. \<exists>b'. failed b b' \<and> the_backend w' = Some b' \<and> aborted w' = aborted w \<and>
     stuck w' = stuck w \<and> errno w' = errno w) w"
proof (cases "be_error b")
  case True
  with assms show ?thesis by (simp add: set_error_def wp_simps failed_def same_seat_def)
next
  case False
  have "wp (cleanup k) (\<lambda>_ w'. \<exists>n. conn_ok n \<and> cin n = cin (be_connection b) \<and> conn_fd n = conn_fd (be_connection b) \<and>
     the_backend w' = Some (b\<lparr>be_connection := n, be_error := True, pending_events := []\<rparr>) \<and> aborted w' = aborted w \<and> stuck w' = stuck w)
     (w\<lparr>the_backend := Some (b\<lparr>be_error := True\<rparr>)\<rparr>)"
    by (rule wp_mono [OF cleanup_wp [where b = "b\<lparr>be_error := True\<rparr>"]]) (use assms in \<open>auto simp: lib_ok_def\<close>)
  with False assms show ?thesis
    unfolding set_error_def by (auto simp: wp_simps failed_def lib_ok_def same_seat_def elim!: wp_mono)
qed


section \<open>Background messages\<close>

text \<open>
  The messages at the start of the input that need no request: the opcodes of the pongs and
  events there, and the rest of the input. This is what \<open>read_and_queue\<close> should take.
\<close>

definition is_background :: "u16 \<Rightarrow> bool" where
  "is_background opcode \<longleftrightarrow> opcode = SERVER_PONG \<or> opcode = SERVER_DISABLE_SEAT \<or> opcode = SERVER_ENABLE_SEAT"

function background :: "byte list \<Rightarrow> u16 list \<times> byte list" where
  "background bs =
     (if length bs < 4 \<or> \<not> is_background (header_opcode (take 4 bs)) then ([], bs)
      else let (opcodes, rest) = background (drop 4 bs) in (header_opcode (take 4 bs) # opcodes, rest))"
  by pat_completeness auto
termination by (relation "measure length") auto

declare background.simps [simp del]

text \<open>The backend after the opcodes were read and queued, with the rest of the input left.\<close>

definition absorbed :: "backend_seatd \<Rightarrow> u16 list \<Rightarrow> byte list \<Rightarrow> backend_seatd \<Rightarrow> bool" where
  "absorbed b opcodes rest b' \<longleftrightarrow> lib_ok b' \<and> contents (cin (be_connection b')) = rest \<and> be_error b' = be_error b \<and>
     pending_events b' = rev (filter (\<lambda>e. e \<noteq> SERVER_PONG) opcodes) @ pending_events b \<and>
     awaiting_pong b' = (awaiting_pong b \<and> SERVER_PONG \<notin> set opcodes) \<and> same_seat b b'"

definition queued :: "bool \<Rightarrow> int \<Rightarrow> backend_seatd \<Rightarrow> int \<times> u16 \<Rightarrow> backend_seatd \<Rightarrow> bool" where
  "queued want packets b r b' \<longleftrightarrow>
     (case background (contents (cin (be_connection b))) of (opcodes, rest) \<Rightarrow>
        r = (-1, 0) \<and> be_error b' \<and> lib_ok b' \<and> same_seat b b' \<or>
        absorbed b opcodes rest b' \<and>
          (if length rest < 4 then r = (packets + int (length opcodes), 0)
           else want \<and> r = (packets + int (length opcodes) + 1,
             if header_size (take 4 rest) \<le> length rest - 4 then header_opcode (take 4 rest) else 0)))"

lemma queued_step:
  assumes "background (contents (cin (be_connection b))) = (opcode # opcodes, rest)"
    and "background (contents (cin (be_connection bx))) = (opcodes, rest)"
    and "be_error bx = be_error b" "same_seat b bx"
    and "pending_events bx = (if opcode = SERVER_PONG then [] else [opcode]) @ pending_events b"
    and "awaiting_pong bx = (awaiting_pong b \<and> opcode \<noteq> SERVER_PONG)"
    and "queued want (packets + 1) bx r b'"
  shows "queued want packets b r b'"
  using assms by (auto simp: queued_def absorbed_def same_seat_def split: if_splits)

lemma get_header_rule:
  assumes b: "the_backend w = Some b" "lib_ok b"
    and none: "length (contents (cin (be_connection b))) < 4 \<Longrightarrow> Q None (w\<lparr>errno := EAGAIN\<rparr>)"
    and some: "\<And>n. 4 \<le> length (contents (cin (be_connection b))) \<Longrightarrow> lib_ok (b\<lparr>be_connection := n\<rparr>) \<Longrightarrow>
      contents (cin n) = drop 4 (contents (cin (be_connection b))) \<Longrightarrow> 
      n = (be_connection b)\<lparr>cin := connection_buffer_consume 4 (cin (be_connection b))\<rparr> \<Longrightarrow>
      Q (Some (take 4 (contents (cin (be_connection b))))) (w\<lparr>the_backend := Some (b\<lparr>be_connection := n\<rparr>)\<rparr>)"
  shows "wp (on_backend (\<lambda>c. connection_get c 4)) Q w"
proof -
  have same: "w\<lparr>errno := e, the_backend := Some b\<rparr> = w\<lparr>errno := e\<rparr>" for e using b(1) by (cases w) simp
  show ?thesis
  proof (rule on_backend_rule [where R = os_calls, OF b(1) _ _ connection_get_wp])
    show "conn_ok (be_connection b)" using b by (simp add: lib_ok_def)
  qed (use b none some in \<open>auto simp: lib_ok_def calls_frame os_calls_def same split: if_splits\<close>)
qed


lemma background_cons:
  assumes "4 \<le> length bs" and "is_background (header_opcode (take 4 bs))"
  shows "\<exists>opcodes rest. background bs = (header_opcode (take 4 bs) # opcodes, rest) \<and> background (drop 4 bs) = (opcodes, rest)"
  using assms by (subst background.simps) (auto split: prod.splits)

lemma background_stop:
  assumes "length bs < 4 \<or> \<not> is_background (header_opcode (take 4 bs))"
  shows "background bs = ([], bs)"
  using assms by (subst background.simps) simp

lemma queue_loop_wp:
  assumes "the_backend w = Some b" and "lib_ok b" and "length (contents (cin (be_connection b))) div 4 < n" and "0 \<le> packets"
  shows "wp (queue_loop n k want packets) (\<lambda>r w'. aborted w' = aborted w \<and> stuck w' = stuck w \<and>
     (\<exists>b'. the_backend w' = Some b' \<and> queued want packets b r b')) w"
  using assms
proof (induction n arbitrary: w b packets)
  case (Suc n)
  let ?bs = "contents (cin (be_connection b))" and ?header = "take 4 (contents (cin (be_connection b)))"
  define Q where "Q r w' \<longleftrightarrow> aborted w' = aborted w \<and> stuck w' = stuck w \<and> (\<exists>b'. the_backend w' = Some b' \<and> queued want packets b r b')"
    for r and w' :: "'a lib_os_scheme"
  have again: "wp (queue_loop n k want (packets + 1)) Q v"
    if v: "the_backend v = Some bx" "lib_ok bx" "aborted v = aborted w" "stuck v = stuck w"
      and bx: "contents (cin (be_connection bx)) = drop 4 ?bs" "be_error bx = be_error b" "same_seat b bx"
        "pending_events bx = (if header_opcode ?header = SERVER_PONG then [] else [header_opcode ?header]) @ pending_events b"
        "awaiting_pong bx = (awaiting_pong b \<and> header_opcode ?header \<noteq> SERVER_PONG)"
      and hd: "4 \<le> length ?bs" "is_background (header_opcode ?header)" for v bx
  proof -
    obtain opcodes rest where bg: "background ?bs = (header_opcode ?header # opcodes, rest)" "background (drop 4 ?bs) = (opcodes, rest)"
      using background_cons [OF hd] by auto
    have less: "length (contents (cin (be_connection bx))) div 4 < n" using bx(1) hd(1) Suc.prems(3) by simp
    have "wp (queue_loop n k want (packets + 1)) (\<lambda>r w'. aborted w' = aborted v \<and> stuck w' = stuck v \<and>
        (\<exists>b'. the_backend w' = Some b' \<and> queued want (packets + 1) bx r b')) v"
      by (rule Suc.IH [OF v(1,2) less]) (use Suc.prems(4) in simp)
    moreover have "queued want packets b r b'" if "queued want (packets + 1) bx r b'" for r b'
      by (rule queued_step [OF bg(1) _ bx(2-5) that]) (simp add: bx(1) bg(2))
    ultimately show ?thesis
      by (elim wp_mono) (use v in \<open>auto simp: Q_def\<close>)
  qed
  have short: "Q (packets, 0) (w\<lparr>errno := EAGAIN\<rparr>)" if "length ?bs < 4"
    using that Suc.prems background_stop [of ?bs] by (simp add: Q_def queued_def absorbed_def same_seat_def)
  have response: "background ?bs = ([], ?bs)" if "\<not> is_background (header_opcode ?header)"
    using that background_stop by simp
  have failed: "Q (-1, 0) v"
    if "the_backend v = Some bx" "be_error bx" "lib_ok bx" "same_seat b bx" "aborted v = aborted w" "stuck v = stuck w" for v bx
    using that by (auto simp: Q_def queued_def split: prod.splits)
  have stop: "wp (set_error k) (\<lambda>_ w'. Q' w') v"
    if "the_backend v = Some bx" "lib_ok bx" "aborted v = aborted w" "stuck v = stuck w"
      "\<And>w' b'. failed bx b' \<Longrightarrow> the_backend w' = Some b' \<Longrightarrow> aborted w' = aborted w \<Longrightarrow> stuck w' = stuck w \<Longrightarrow> Q' w'" for Q' bx and v :: "'a lib_os_scheme"
    by (rule wp_mono [OF set_error_wp [OF that(1,2)]]) (use that in auto)
  show ?case
    unfolding queue_loop.simps Q_def [symmetric] wp_bind
  proof (rule get_header_rule [OF Suc.prems(1,2)], goal_cases)
    case 1
    then show ?case using short by (simp add: wp_simps)
  next
    case (2 n')
    let ?opcode = "header_opcode ?header" and ?v = "w\<lparr>the_backend := Some (b\<lparr>be_connection := n'\<rparr>)\<rparr>"
    consider (pong) "?opcode = SERVER_PONG" | (event) "?opcode = SERVER_DISABLE_SEAT \<or> ?opcode = SERVER_ENABLE_SEAT"
      | (other) "\<not> is_background ?opcode" by (auto simp: is_background_def)
    then show ?case
    proof cases
      case pong
      have "wp (queue_loop n k want (packets + 1)) Q (w\<lparr>the_backend := Some (b\<lparr>be_connection := n', awaiting_pong := False\<rparr>)\<rparr>)"
        by (rule again [where bx = "b\<lparr>be_connection := n', awaiting_pong := False\<rparr>"])
          (use 2 pong in \<open>simp_all add: lib_ok_def is_background_def same_seat_def\<close>)
      with pong show ?thesis by (simp add: wp_simps Let_def)
    next
      case event
      let ?b = "b\<lparr>be_connection := n', pending_events := ?opcode # pending_events b\<rparr>"
      have more: "wp (queue_loop n k want (packets + 1)) Q v"
        if "the_backend v = Some ?b" "aborted v = aborted w" "stuck v = stuck w" for v
        by (rule again [OF that(1)]) (use 2 event that in \<open>auto simp: lib_ok_def is_background_def same_seat_def\<close>)
      show ?thesis
        using event 2
        by (auto simp: wp_simps Let_def queue_event_def failed_def same_seat_def simp del: split_paired_All
            intro!: more stop [where bx = "b\<lparr>be_connection := n'\<rparr>"] failed)
    next
      case other
      have restored: "lib_ok (b'\<lparr>be_connection := connection_restore (be_connection b') 4\<rparr>)"
        if "lib_ok b'" "cin (be_connection b') = cin n'" for b'
        using that 2(4) Suc.prems(2) by (simp add: lib_ok_def conn_ok_def connection_restore_def)
      have same: "b\<lparr>be_connection := connection_restore n' 4\<rparr> = b"
        using 2(4) by (simp add: connection_restore_def)
      have found: "Q (packets + 1, if header_size ?header \<le> connection_pending n' then ?opcode else 0) (w\<lparr>the_backend := Some b\<rparr>)" if want
        using that other 2 response Suc.prems(2) by (simp add: Q_def queued_def absorbed_def connection_pending_def same_seat_def)
      have refused: "wp (set_error k) (\<lambda>_ w'. wp (on_backend (\<lambda>c. State_Monad.return ((), connection_restore c 4))) (\<lambda>_. Q (-1, 0)) (w'\<lparr>errno := EBADMSG\<rparr>)) ?v"
      proof (rule stop)
        fix b' and w' :: "'a lib_os_scheme" assume b': "failed (b\<lparr>be_connection := n'\<rparr>) b'" and w': "the_backend w' = Some b'" "aborted w' = aborted w" "stuck w' = stuck w"
        let ?b = "b'\<lparr>be_connection := connection_restore (be_connection b') 4\<rparr>"
        have "Q (-1, 0) (w'\<lparr>errno := EBADMSG, the_backend := Some ?b\<rparr>)"
          by (rule failed [where bx = ?b]) (use b' w' 2(4) restored in \<open>simp_all add: failed_def same_seat_def connection_restore_def\<close>)
        with w' show "wp (on_backend (\<lambda>c. State_Monad.return ((), connection_restore c 4))) (\<lambda>_. Q (-1, 0)) (w'\<lparr>errno := EBADMSG\<rparr>)"
          by (simp add: on_backend_def wp_simps)
      qed (use 2 in simp_all)
      show ?thesis
        using other found refused
        by (cases want) (auto simp: wp_simps Let_def is_background_def on_backend_def same)
    qed
  qed
qed simp

section \<open>Every operation keeps the invariant\<close>

text \<open>
  The state of an application with an open seat: the kernel keeps its promises, nothing has
  been aborted, and the backend exists, is well formed and owns the descriptor \<open>fd\<close>. Programs
  that keep this are closed under the operations of the monad.
\<close>

definition lib_inv :: "kernel \<Rightarrow> int \<Rightarrow> 'a lib_os_scheme \<Rightarrow> bool" where
  "lib_inv k fd w \<longleftrightarrow> send_ok k \<and> recv_ok k \<and> \<not> aborted w \<and>
     (\<exists>b. the_backend w = Some b \<and> lib_ok b \<and> conn_fd (be_connection b) = fd)"

definition lib_keeps :: "kernel \<Rightarrow> int \<Rightarrow> 'a lib_os_scheme \<Rightarrow> 'a lib_os_scheme \<Rightarrow> bool" where
  "lib_keeps k fd w w' \<longleftrightarrow> (lib_inv k fd w \<longrightarrow> lib_inv k fd w')"

interpretation keeps: frame_rel "lib_keeps k fd" for k fd
  by unfold_locales (auto simp: lib_keeps_def)

named_theorems lib_frame "operations that keep the invariant of the library"

lemma lib_keepsI:
  fixes m :: "('a lib_os_scheme, 'b) state"
  assumes "\<And>w b. the_backend w = Some b \<Longrightarrow> lib_ok b \<Longrightarrow> conn_fd (be_connection b) = fd \<Longrightarrow> \<not> aborted w \<Longrightarrow> send_ok k \<Longrightarrow> recv_ok k \<Longrightarrow>
     wp m (\<lambda>_ w'. \<not> aborted w' \<and> (\<exists>b'. the_backend w' = Some b' \<and> lib_ok b' \<and> conn_fd (be_connection b') = fd)) w"
  shows "state_io_rel (lib_keeps k fd) m"
proof (rule state_io_relI)
  fix r and w w' :: "'a lib_os_scheme" assume run: "run_state m w = (r, w')"
  show "lib_keeps k fd w w'"
    unfolding lib_keeps_def lib_inv_def using wpD [OF assms run] by auto
qed

lemma wp_keeps:
  "state_io_rel (lib_keeps k fd) m \<Longrightarrow> lib_inv k fd w \<Longrightarrow> (\<And>r w'. lib_inv k fd w' \<Longrightarrow> Q r w') \<Longrightarrow> wp m Q w"
  by (erule wp_frame) (simp add: lib_keeps_def)

lemma step_lib_keeps: "state_io_rel os_step m \<Longrightarrow> state_io_rel (lib_keeps k fd) m"
  by (rule lib_keepsI, erule wp_frame) (simp add: os_step_backend)

lemmas calls_lib_keeps = io_calls_imp_step [THEN step_lib_keeps]

lemma get_backend_keeps [lib_frame]: "state_io_rel (lib_keeps k fd) get_backend"
  by (rule lib_keepsI) (simp add: wp_simps)

lemma upd_backend_keeps:
  "(\<And>b. lib_ok b \<Longrightarrow> lib_ok (f b) \<and> conn_fd (be_connection (f b)) = conn_fd (be_connection b)) \<Longrightarrow>
     state_io_rel (lib_keeps k fd) (upd_backend f)"
  by (rule lib_keepsI) (simp add: wp_simps)

lemma on_backend_keeps:
  assumes "\<And>n (w :: 'a lib_os_scheme). conn_ok n \<Longrightarrow> send_ok k \<Longrightarrow> recv_ok k \<Longrightarrow> wp (f n) (\<lambda>(r, n') _. conn_ok n' \<and> conn_fd n' = conn_fd n) w"
    and "\<And>n. state_io_rel os_step (f n)"
  shows "state_io_rel (lib_keeps k fd) (on_backend f :: ('a lib_os_scheme, 'b) state)"
proof (rule lib_keepsI)
  fix b and w :: "'a lib_os_scheme"
  assume b: "the_backend w = Some b" "lib_ok b" "conn_fd (be_connection b) = fd" and w: "\<not> aborted w" and k: "send_ok k" "recv_ok k"
  then have conn: "conn_ok (be_connection b)" by (simp add: lib_ok_def)
  show "wp (on_backend f) (\<lambda>_ w'. \<not> aborted w' \<and> (\<exists>b'. the_backend w' = Some b' \<and> lib_ok b' \<and> conn_fd (be_connection b') = fd)) w"
    by (rule on_backend_rule [where R = os_step and P = "\<lambda>r n' _. conn_ok n' \<and> conn_fd n' = conn_fd (be_connection b)", OF b(1)])
      (use b w assms(1) [OF conn k] assms(2) in \<open>auto simp: lib_ok_def os_step_backend\<close>)
qed

lemma connection_read_fd:
  "wp (connection_read k c) (\<lambda>(r, c') _. conn_fd c' = conn_fd c) (w :: 'a os_scheme)"
  by (auto simp: connection_read_def wp_simps intro!: wp_frame [OF retry_eintr_step] wp_frame [OF decode_cmsg_calls])

lemma read_keeps [lib_frame]: "state_io_rel (lib_keeps k fd) (on_backend (connection_read k))"
  by (rule on_backend_keeps, rule wp_both [OF connection_read_wp connection_read_fd]) (auto simp: step_frame)

lemma conn_ops_keeps [lib_frame]:
  "length bs \<le> 256 \<Longrightarrow> state_io_rel (lib_keeps k fd) (on_backend (\<lambda>n. connection_put k n bs))"
  "state_io_rel (lib_keeps k fd) (on_backend (connection_flush k))"
  "state_io_rel (lib_keeps k fd) (on_backend (\<lambda>c. connection_get c n))"
  "state_io_rel (lib_keeps k fd) (on_backend connection_get_fd)"
proof -
  show "length bs \<le> 256 \<Longrightarrow> state_io_rel (lib_keeps k fd) (on_backend (\<lambda>n. connection_put k n bs))"
    by (rule on_backend_keeps, rule wp_mono [OF connection_put_wp]) (auto simp: step_frame)
  show "state_io_rel (lib_keeps k fd) (on_backend (connection_flush k))"
    by (rule on_backend_keeps, rule wp_mono [OF connection_flush_wp]) (auto simp: step_frame)
  show "state_io_rel (lib_keeps k fd) (on_backend (\<lambda>c. connection_get c n))"
    by (rule on_backend_keeps)
      (auto simp: calls_frame [THEN io_calls_imp_step], auto simp: connection_get_def wp_simps conn_ok_def ring.consume_ok)
  show "state_io_rel (lib_keeps k fd) (on_backend connection_get_fd)"
    by (rule on_backend_keeps)
      (auto simp: calls_frame [THEN io_calls_imp_step], auto simp: connection_get_fd_def wp_simps conn_ok_def ring.consume_ok)
qed

lemma set_error_keeps [lib_frame]: "state_io_rel (lib_keeps k fd) (set_error k)"
  by (rule lib_keepsI, rule wp_mono [OF set_error_wp]) (auto simp: failed_def same_seat_def)

lemma set_errno_keeps [lib_frame]: "state_io_rel (lib_keeps k fd) (set_errno e)" "state_io_rel (lib_keeps k fd) get_errno"
  "state_io_rel (lib_keeps k fd) (sys k c)" "state_io_rel (lib_keeps k fd) (sys_val k c)" "state_io_rel (lib_keeps k fd) set_stuck"
  by (rule calls_lib_keeps step_lib_keeps, rule calls_frame step_frame)+

lemma conn_keeps [lib_frame]:
  "length bs \<le> 256 \<Longrightarrow> state_io_rel (lib_keeps k fd) (conn_put k bs)"
  "state_io_rel (lib_keeps k fd) (conn_flush k)" "state_io_rel (lib_keeps k fd) (conn_get k n)" "state_io_rel (lib_keeps k fd) (conn_get_fd k)"
  unfolding conn_put_def conn_flush_def conn_get_def conn_get_fd_def by (intro keeps.rules lib_frame; assumption)+

lemma read_header_keeps [lib_frame]: "state_io_rel (lib_keeps k fd) (read_header k opcode len variable)"
  unfolding read_header_def by (intro keeps.rules lib_frame)

lemma read_and_queue_wp:
  assumes "the_backend w = Some b" and "lib_ok b"
  shows "wp (read_and_queue k want) (\<lambda>r w'. aborted w' = aborted w \<and> stuck w' = stuck w \<and>
     (\<exists>b'. the_backend w' = Some b' \<and> queued want 0 b r b')) w"
proof -
  have "length (contents (cin (be_connection b))) div 4 < 65"
    using assms(2) ring.abs_bound [of "cin (be_connection b)"] by (simp add: lib_ok_def conn_ok_def)
  from queue_loop_wp [OF assms this] show ?thesis by (simp add: read_and_queue_def)
qed

lemma queued_ok: "queued want packets b r b' \<Longrightarrow> lib_ok b' \<and> same_seat b b'"
  by (cases "background (contents (cin (be_connection b)))") (auto simp: queued_def absorbed_def)

lemma read_and_queue_keeps [lib_frame]: "state_io_rel (lib_keeps k fd) (read_and_queue k want)"
  by (rule lib_keepsI, rule wp_mono [OF read_and_queue_wp]) (auto dest!: queued_ok simp: same_seat_def)

lemma poll_connection_keeps [lib_frame]: "state_io_rel (lib_keeps k fd) (poll_connection k timeout)"
  unfolding poll_connection_def by (intro keeps.rules lib_frame)

lemma response_loop_keeps [lib_frame]: "state_io_rel (lib_keeps k fd) (response_loop n k)"
  by (induction n) (auto intro!: keeps.rules lib_frame)

lemma read_until_response_keeps [lib_frame]: "state_io_rel (lib_keeps k fd) (read_until_response k)"
  unfolding read_until_response_def by (intro keeps.rules lib_frame)

lemma conn_put_all_keeps [lib_frame]:
  "\<forall>b \<in> set bs. length b \<le> 256 \<Longrightarrow> state_io_rel (lib_keeps k fd) (conn_put_all k bs)"
  by (induction bs) (auto intro!: keeps.rules lib_frame)

lemma request_keeps [lib_frame]: "\<forall>b \<in> set bs. length b \<le> 256 \<Longrightarrow> state_io_rel (lib_keeps k fd) (request k bs)"
  unfolding request_def by (intro keeps.rules lib_frame)

lemma check_pending_events_keeps [lib_frame]: "state_io_rel (lib_keeps k fd) (check_pending_events k)"
  unfolding check_pending_events_def send_ping_def
  by (intro keeps.rules lib_frame upd_backend_keeps) (simp_all add: lib_ok_def)

lemma finish_request_keeps [lib_frame]: "state_io_rel (lib_keeps k fd) (finish_request k res)"
  unfolding finish_request_def by (intro keeps.rules lib_frame)

lemma plain_request_keeps [lib_frame]: "\<forall>b \<in> set bs. length b \<le> 256 \<Longrightarrow> state_io_rel (lib_keeps k fd) (plain_request k bs opcode)"
  unfolding plain_request_def by (intro keeps.rules lib_frame)

lemma requests_keep [lib_frame]:
  "state_io_rel (lib_keeps k fd) (lib_close_device k device)" "state_io_rel (lib_keeps k fd) (lib_switch_session k session)"
  "state_io_rel (lib_keeps k fd) (lib_disable_seat k)"
  unfolding lib_close_device_def lib_switch_session_def lib_disable_seat_def close_device_request_def switch_session_request_def
  by (intro keeps.rules lib_frame; simp)+

section \<open>Closing\<close>

text \<open>The history of calls only grows.\<close>

definition grows :: "'a os_scheme \<Rightarrow> 'a os_scheme \<Rightarrow> bool" where
  "grows w w' \<longleftrightarrow> set (trace w) \<subseteq> set (trace w')"

interpretation grow: frame_rel grows
  by unfold_locales (auto simp: grows_def)

lemma step_grows: "state_io_rel os_step m \<Longrightarrow> state_io_rel grows m"
  by (rule state_io_relI) (auto dest!: state_io_relD simp: os_step_def grows_def)

lemma upd_backend_grows: "state_io_rel grows (upd_backend f)" "state_io_rel grows get_backend"
  unfolding upd_backend_def get_backend_def abort_now_def
  by (intro grow.rules grow.update; simp add: grows_def)+

lemma cleanup_grows: "state_io_rel grows (cleanup k)"
  unfolding cleanup_def on_backend_def
  by (intro grow.rules upd_backend_grows calls_frame [THEN io_calls_imp_step, THEN step_grows])

definition closed :: "int \<Rightarrow> 'a lib_os_scheme \<Rightarrow> bool" where
  "closed fd w \<longleftrightarrow> \<not> aborted w \<and> the_backend w = None \<and> (fd \<noteq> -1 \<longrightarrow> Sys_close fd \<in> fst ` set (trace w))"

lemma closed_errno [simp]: "closed fd (w\<lparr>errno := e\<rparr>) = closed fd w"
  by (simp add: closed_def)

lemma destroy_backend_wp:
  assumes "lib_inv k fd w"
  shows "wp (destroy_backend k) (\<lambda>_. closed fd) w"
proof -
  obtain b where b: "the_backend w = Some b" "lib_ok b" "conn_fd (be_connection b) = fd" and w: "\<not> aborted w"
    using assms by (auto simp: lib_inv_def)
  have clean: "wp (cleanup k) (\<lambda>_ w'. closed fd (w'\<lparr>the_backend := None\<rparr>)) v"
    if v: "the_backend v = Some b'" "lib_ok b'" "\<not> aborted v" "fd \<noteq> -1 \<longrightarrow> Sys_close fd \<in> fst ` set (trace v)" for b' and v :: "'a lib_os_scheme"
    using cleanup_wp [OF v(1,2)] wp_frame [OF cleanup_grows, of v "\<lambda>_. grows v"]
    by (rule wp_both) (use v in \<open>auto simp: closed_def grows_def image_iff\<close>)
  let ?b = "b\<lparr>be_connection := (be_connection b)\<lparr>conn_fd := -1\<rparr>\<rparr>"
  have ok: "lib_ok ?b" using b(2) by (simp add: lib_ok_def conn_ok_def)
  show ?thesis
  proof (cases "fd = -1")
    case True
    with clean [OF b(1,2) w] b show ?thesis by (simp add: destroy_backend_def wp_simps)
  next
    case False
    with clean [where b' = ?b, OF _ ok] b w show ?thesis by (simp add: destroy_backend_def wp_simps Let_def)
  qed
qed

section \<open>The listener\<close>

text \<open>
  What the library relies on: the application sets both functions of its listener, and these
  use the library only through its operations, so that they keep its invariant. In particular
  they do not close the seat.
\<close>

locale seat_listener =
  fixes k :: kernel and fd :: int and l :: "'a lib_os_scheme libseat_seat_listener"
  assumes enable_keeps: "\<exists>m. enable_seat l = Some m \<and> state_io_rel (lib_keeps k fd) m"
    and disable_keeps: "\<exists>m. disable_seat l = Some m \<and> state_io_rel (lib_keeps k fd) m"
begin

lemma call_keeps:
  "state_io_rel (lib_keeps k fd) (call_listener (enable_seat l))" "state_io_rel (lib_keeps k fd) (call_listener (disable_seat l))"
  using enable_keeps disable_keeps by (auto simp: call_listener_def)

lemma execute_list_keeps:
  "set opcodes \<subseteq> {SERVER_DISABLE_SEAT, SERVER_ENABLE_SEAT} \<Longrightarrow> state_io_rel (lib_keeps k fd) (execute_list l opcodes n)"
  by (induction opcodes arbitrary: n) (auto intro!: keeps.rules lib_frame call_keeps)

lemma execute_events_keeps: "state_io_rel (lib_keeps k fd) (execute_events l)"
proof (rule lib_keepsI)
  fix b and w :: "'a lib_os_scheme"
  assume b: "the_backend w = Some b" "lib_ok b" "conn_fd (be_connection b) = fd" and w: "\<not> aborted w" "send_ok k" "recv_ok k"
  have "wp (execute_list l (pending_events b) 0) (\<lambda>_. lib_inv k fd) (w\<lparr>the_backend := Some (b\<lparr>pending_events := []\<rparr>)\<rparr>)"
    by (rule wp_keeps [OF execute_list_keeps]) (use b w in \<open>auto simp: lib_ok_def lib_inv_def\<close>)
  then show "wp (execute_events l) (\<lambda>_ w'. \<not> aborted w' \<and> (\<exists>b'. the_backend w' = Some b' \<and> lib_ok b' \<and> conn_fd (be_connection b') = fd)) w"
    unfolding execute_events_def wp_simps b by (simp add: b, elim wp_mono) (simp add: lib_inv_def)
qed

lemma dispatch_keeps: "state_io_rel (lib_keeps k fd) (lib_dispatch k l timeout)"
  unfolding lib_dispatch_def by (intro keeps.rules lib_frame execute_events_keeps)

lemma close_seat_closes: "lib_inv k fd w \<Longrightarrow> wp (lib_close_seat k l) (\<lambda>_. closed fd) w"
proof -
  define rest where "rest res = do {
     _ \<leftarrow> execute_events l;
     destroy_backend k;
     if res < 0 then do { set_errno (- res); State_Monad.return (-1) } else State_Monad.return (0::int)
   }" for res :: int
  have rest: "wp (rest res) (\<lambda>_. closed fd) v" if "lib_inv k fd v" for v res
    unfolding rest_def wp_simps
    by (rule wp_keeps [OF execute_events_keeps that]) (auto intro!: wp_mono [OF destroy_backend_wp])
  assume "lib_inv k fd w"
  then show ?thesis
    unfolding lib_close_seat_def rest_def [symmetric] wp_bind
    by (rule wp_keeps [rotated]) (auto intro!: wp_keeps [OF _ _ rest] keeps.rules lib_frame rest)
qed

end

section \<open>Opening\<close>

lemma conn_get_length:
  assumes "lib_inv k fd w"
  shows "wp (conn_get k n) (\<lambda>r w'. lib_inv k fd w' \<and> (\<forall>bs. r = Some bs \<longrightarrow> length bs = n)) w"
proof -
  obtain b where b: "the_backend w = Some b" "lib_ok b" using assms by (auto simp: lib_inv_def)
  then have conn: "conn_ok (be_connection b)" by (simp add: lib_ok_def)
  have get: "wp (on_backend (\<lambda>c. connection_get c n)) (\<lambda>r w'. \<forall>bs. r = Some bs \<longrightarrow> length bs = n) w"
    by (rule on_backend_rule [where R = os_calls and P = "\<lambda>r _ _. \<forall>bs. r = Some bs \<longrightarrow> length bs = n", OF b(1)],
        (auto simp: calls_frame os_calls_def)[2], rule wp_mono [OF connection_get_wp [OF conn]]) (auto split: if_splits)
  have "wp (conn_get k n) (\<lambda>r w'. \<forall>bs. r = Some bs \<longrightarrow> length bs = n) w"
    unfolding conn_get_def wp_bind by (rule wp_mono [OF get]) (auto simp: wp_simps)
  with wp_keeps [OF conn_keeps(3) assms] show ?thesis
    by (rule wp_both [where Q = "\<lambda>_. lib_inv k fd"]) auto
qed

context seat_listener
begin

lemma open_seat_on_opens:
  assumes k: "send_ok k" "recv_ok k" and w: "\<not> aborted w" "the_backend w = None"
  shows "wp (open_seat_on k l fd) (\<lambda>r. if r then lib_inv k fd else closed fd) w"
proof -
  let ?Q = "\<lambda>r. if r then lib_inv k fd else closed fd"
  have err: "wp (backend_error k e) ?Q v" if "lib_inv k fd v" for e v
    unfolding backend_error_def wp_simps by (rule wp_mono [OF destroy_backend_wp [OF that]]) simp
  define named where "named name = do {
     b \<leftarrow> get_backend;
     let (array, len) = store_seat_name (be_seat_name b) name;
     upd_backend (\<lambda>b. b\<lparr>be_seat_name := array\<rparr>);
     if len = 0 \<or> strnlen array len \<noteq> len - 1 then backend_error k EBADMSG
     else do { _ \<leftarrow> execute_events l; State_Monad.return True }
   }" for name
  have named: "wp (named name) ?Q v" if v: "lib_inv k fd v" and len: "length name \<le> MAX_SEAT_LEN" for name v
  proof -
    obtain b where b: "the_backend v = Some b" "lib_ok b" "conn_fd (be_connection b) = fd" "\<not> aborted v" using v by (auto simp: lib_inv_def)
    let ?array = "fst (store_seat_name (be_seat_name b) name)"
    have "length ?array = MAX_SEAT_LEN" using b(2) len by (simp add: store_seat_name_def Let_def lib_ok_def)
    then have "lib_inv k fd (v\<lparr>the_backend := Some (b\<lparr>be_seat_name := ?array\<rparr>)\<rparr>)"
      using b k by (simp add: lib_inv_def lib_ok_def)
    then show ?thesis
      unfolding named_def using b(1,2,4) by (auto simp: wp_simps intro!: err wp_keeps [OF execute_events_keeps])
  qed
  have new: "lib_inv k fd (v\<lparr>the_backend := Some (new_backend fd)\<rparr>) = (\<not> aborted v)" for v :: "'a lib_os_scheme"
    using k by (simp add: lib_inv_def lib_ok_def new_backend_def new_connection_ok) (simp add: new_connection_def)
  show ?thesis
    unfolding open_seat_on_def named_def [symmetric]
    using enable_keeps disable_keeps w
    by (auto simp: wp_simps Let_def closed_def new split del: if_split
        intro!: wp_keeps [OF request_keeps [where fd = fd]] err wp_keeps [OF read_header_keeps [where fd = fd]] wp_mono [OF conn_get_length [where fd = fd]] named)
qed

end

text \<open>The listener that a program should have at least: it acknowledges that the seat was disabled.\<close>

definition ack_listener :: "kernel \<Rightarrow> 'a lib_os_scheme libseat_seat_listener" where
  "ack_listener k = \<lparr>enable_seat = Some (State_Monad.return ()),
     disable_seat = Some (do { _ \<leftarrow> lib_disable_seat k; State_Monad.return () })\<rparr>"

interpretation ack: seat_listener k fd "ack_listener k" for k fd
  by unfold_locales (auto simp: ack_listener_def intro!: keeps.rules lib_frame)

end
