(* ===== verification/Libseat_Spec.thy ===== *)
theory Libseat_Spec
  imports Libseat_Inv Device_Spec
begin

text \<open>
  What the client library promises to the application, and that library and daemon understand
  each other: the bytes of every request are decoded by \<open>client_handle_opcode\<close> of
  \<open>seatd/client.c\<close> to the arguments the application gave.
\<close>

section \<open>Safety\<close>

text \<open>C20:
  The library never aborts, whatever the daemon sends and the kernel answers: with a listener
  that keeps to the library's operations, \<open>dispatch\<close>, \<open>close_device\<close>, \<open>switch_session\<close> and
  \<open>disable_seat\<close> leave the backend well formed and its descriptor in place, and the operation
  \<open>close_seat\<close> frees the backend and closes the descriptor, also after errors. (The assertion of
  \<open>open_device\<close> depends on the error code that the daemon sends, so it is not among these.)
\<close>

theorem libseat_safe:
  assumes "lib_inv k fd w" and "seat_listener k fd l"
  shows "wp (lib_dispatch k l timeout) (\<lambda>_. lib_inv k fd) w \<and> wp (lib_close_device k device) (\<lambda>_. lib_inv k fd) w \<and>
     wp (lib_switch_session k session) (\<lambda>_. lib_inv k fd) w \<and> wp (lib_disable_seat k) (\<lambda>_. lib_inv k fd) w \<and>
     wp (lib_close_seat k l) (\<lambda>_. closed fd) w"
  using seat_listener.close_seat_closes [OF assms(2,1)]
  by (auto intro!: wp_keeps [OF _ assms(1)] lib_frame seat_listener.dispatch_keeps [OF assms(2)])

text \<open>The descriptor that the next call of \<open>socket\<close> returns.\<close>

definition socket_of :: "kernel \<Rightarrow> 'a os_scheme \<Rightarrow> int" where
  "socket_of k w = sr_val (answer k (trace w) Sys_socket)"

lemma lib_open_seat_wp:
  assumes "send_ok k" "recv_ok k" and "\<not> aborted w" "the_backend w = None" and "\<And>fd. seat_listener k fd l"
  shows "wp (lib_open_seat k default_path l) (\<lambda>r. if r then lib_inv k (socket_of k w) else closed (socket_of k w)) w"
proof -
  have on: "wp (open_seat_on k l fd) (\<lambda>r. if r then lib_inv k fd else closed fd) v" if "\<not> aborted v" "the_backend v = None" for fd v
    by (rule seat_listener.open_seat_on_opens [OF assms(5,1,2) that])
  show ?thesis
    unfolding lib_open_seat_def seatd_connect_def
    using assms(3,4) by (auto simp: wp_simps Let_def socket_of_def [symmetric] closed_def intro!: on)
qed

text \<open>C21:
  Opening a seat succeeds or leaves nothing behind: \<open>open_seat\<close> returns a well-formed backend
  that owns the new socket, or it returns null, no backend remains and the socket is closed.
\<close>

theorem libseat_open_seat_clean:
  assumes "send_ok k" "recv_ok k" and "\<not> aborted w" "the_backend w = None" and "\<And>fd. seat_listener k fd l"
  shows "wp (lib_open_seat k default_path l) (\<lambda>r. if r then lib_inv k (socket_of k w) else closed (socket_of k w)) w"
  by (rule lib_open_seat_wp [OF assms])

section \<open>Messages from the daemon\<close>

text \<open>C22:
  \<open>read_and_queue\<close> takes exactly the pongs and events at the start of the input, in one pass
  that never runs out of rounds: it queues the events, the latest first, notes a pong, counts
  the messages, and leaves the rest of the input. If a response follows, it reports its opcode
  once it is complete, or an error when no response is due; it fails also when memory runs out.
\<close>

theorem read_and_queue_refines:
  assumes "the_backend w = Some b" and "lib_ok b"
  shows "wp (read_and_queue k want) (\<lambda>r w'. aborted w' = aborted w \<and> stuck w' = stuck w \<and>
     (\<exists>b'. the_backend w' = Some b' \<and> queued want 0 b r b')) w"
  by (rule read_and_queue_wp [OF assms])

section \<open>Errors\<close>


section \<open>Library and daemon understand each other\<close>

text \<open>The rest of a round of \<open>client_messages\<close>, once the request is decoded.\<close>

definition handled :: "nat \<Rightarrow> kernel \<Rightarrow> nat \<Rightarrow> (world, int) state \<Rightarrow> (world, int) state" where
  "handled n k c handle = do {
     res \<leftarrow> handle;
     r \<leftarrow> (if res \<noteq> -1 then client_flush k c else State_Monad.return res);
     if r = -1 then State_Monad.return (-1) else client_messages n k c
   }"

text \<open>
  \<open>understood k w c parts handle\<close>: when the input of the client starts with the parts of a
  message, the loop over the messages takes exactly these bytes and goes on with \<open>handle\<close>.
\<close>

definition understood :: "kernel \<Rightarrow> world \<Rightarrow> nat \<Rightarrow> byte list list \<Rightarrow> (world, int) state \<Rightarrow> bool" where
  "understood k w c parts handle \<longleftrightarrow> (\<forall>x rest n Q. client_heap w c = Some x \<and> conn_ok (cl_connection x) \<and>
     contents (cin (cl_connection x)) = concat parts @ rest \<longrightarrow>
     (\<exists>m. conn_ok m \<and> contents (cin m) = rest \<and>
       wp (client_messages (Suc n) k c) Q w =
       wp (handled n k c handle) Q (w\<lparr>client_heap := (client_heap w)(c \<mapsto> x\<lparr>cl_connection := m\<rparr>)\<rparr>)))"

lemma client_get_prefix:
  assumes x: "client_heap w c = Some x" and ok: "conn_ok (cl_connection x)"
    and bs: "contents (cin (cl_connection x)) = bs @ rest" and n: "length bs = n"
  shows "\<exists>m. conn_ok m \<and> contents (cin m) = rest \<and>
     (\<forall>Q. wp (client_get c n) Q w = Q (Some bs) (w\<lparr>client_heap := (client_heap w)(c \<mapsto> x\<lparr>cl_connection := m\<rparr>)\<rparr>))"
proof -
  let ?m = "(cl_connection x)\<lparr>cin := connection_buffer_consume n (cin (cl_connection x))\<rparr>"
  have len: "n \<le> length (contents (cin (cl_connection x)))" and buf: "buffer_ok (cin (cl_connection x))"
    using bs n ok by (auto simp: conn_ok_def)
  have "connection_buffer_copy (cin (cl_connection x)) n = bs"
    using ring.copy_abs [OF buf len] bs n by simp
  then have "\<forall>Q. wp (client_get c n) Q w = Q (Some bs) (w\<lparr>client_heap := (client_heap w)(c \<mapsto> x\<lparr>cl_connection := ?m\<rparr>)\<rparr>)"
    using x len by (simp add: client_get_def on_connection_def connection_get_def wp_simps)
  moreover have "conn_ok ?m" "contents (cin ?m) = rest"
    using ok buf len bs n by (simp_all add: conn_ok_def ring.consume_ok ring.consume_abs)
  ultimately show ?thesis by blast
qed

lemma understood_int:
  assumes opcode: "opcode = CLIENT_CLOSE_DEVICE \<and> handle = handle_close_device k c \<or>
      opcode = CLIENT_SWITCH_SESSION \<and> handle = handle_switch_session k c"
    and i: "- (2 ^ 31) \<le> i" "i < 2 ^ 31"
  shows "understood k w c [proto_header opcode 4, int_bytes i] (handle i)"
  unfolding understood_def
proof (intro allI impI, elim conjE)
  fix x rest n Q
  assume x: "client_heap w c = Some x" "conn_ok (cl_connection x)"
    and bs: "contents (cin (cl_connection x)) = concat [proto_header opcode 4, int_bytes i] @ rest"
  obtain m where m: "conn_ok m" "contents (cin m) = int_bytes i @ rest"
    and get: "\<And>Q. wp (client_get c 4) Q w = Q (Some (proto_header opcode 4)) (w\<lparr>client_heap := (client_heap w)(c \<mapsto> x\<lparr>cl_connection := m\<rparr>)\<rparr>)"
    using client_get_prefix [OF x, of "proto_header opcode 4" "int_bytes i @ rest" 4] bs by auto
  let ?w = "w\<lparr>client_heap := (client_heap w)(c \<mapsto> x\<lparr>cl_connection := m\<rparr>)\<rparr>"
  obtain m' where m': "conn_ok m'" "contents (cin m') = rest"
    and get': "\<And>Q. wp (client_get c 4) Q ?w = Q (Some (int_bytes i)) (?w\<lparr>client_heap := (client_heap ?w)(c \<mapsto> x\<lparr>cl_connection := m'\<rparr>)\<rparr>)"
    using client_get_prefix [of ?w c "x\<lparr>cl_connection := m\<rparr>" "int_bytes i" rest 4] m by auto
  have "wp (client_messages (Suc n) k c) Q w =
       wp (handled n k c (handle i)) Q (w\<lparr>client_heap := (client_heap w)(c \<mapsto> x\<lparr>cl_connection := m'\<rparr>)\<rparr>)"
    using opcode m
    by (auto simp: handled_def wp_simps get get' header_decode connection_pending_def client_handle_opcode_def int_message_def bytes_int_bytes [OF i])
  with m' show "\<exists>m. conn_ok m \<and> contents (cin m) = rest \<and> wp (client_messages (Suc n) k c) Q w =
       wp (handled n k c (handle i)) Q (w\<lparr>client_heap := (client_heap w)(c \<mapsto> x\<lparr>cl_connection := m\<rparr>)\<rparr>)"
    by blast
qed

lemma understood_open_device:
  assumes path: "CHR 0x00 \<notin> set path" "length path < 250"
  shows "understood k w c (open_device_request path) (handle_open_device k c path)"
  unfolding understood_def
proof (intro allI impI, elim conjE)
  fix x rest n Q
  let ?n = "length path + 1"
  let ?header = "proto_header CLIENT_OPEN_DEVICE (2 + ?n)" and ?len = "u16_bytes (of_nat ?n)" and ?bytes = "string_bytes path"
  assume x: "client_heap w c = Some x" "conn_ok (cl_connection x)"
    and bs: "contents (cin (cl_connection x)) = concat (open_device_request path) @ rest"
  have upd: "w\<lparr>client_heap := H, client_heap := H'\<rparr> = w\<lparr>client_heap := H'\<rparr>" for H H' by simp
  obtain m where m: "conn_ok m" "contents (cin m) = ?len @ ?bytes @ rest"
    and get: "\<And>Q. wp (client_get c 4) Q w = Q (Some ?header) (w\<lparr>client_heap := (client_heap w)(c \<mapsto> x\<lparr>cl_connection := m\<rparr>)\<rparr>)"
    using client_get_prefix [OF x, of ?header "?len @ ?bytes @ rest" 4] bs by (auto simp: open_device_request_def Let_def)
  let ?w = "\<lambda>m. w\<lparr>client_heap := (client_heap w)(c \<mapsto> x\<lparr>cl_connection := m\<rparr>)\<rparr>"
  obtain m2 where m2: "conn_ok m2" "contents (cin m2) = ?bytes @ rest"
    and get2: "\<And>Q. wp (client_get c 2) Q (?w m) = Q (Some ?len) (?w m2)"
    using client_get_prefix [of "?w m" c "x\<lparr>cl_connection := m\<rparr>" ?len "?bytes @ rest" 2] m by auto
  obtain m3 where m3: "conn_ok m3" "contents (cin m3) = rest"
    and get3: "\<And>Q. wp (client_get c ?n) Q (?w m2) = Q (Some ?bytes) (?w m3)"
    using client_get_prefix [of "?w m2" c "x\<lparr>cl_connection := m2\<rparr>" ?bytes rest ?n] m2 by auto
  have n: "unat (of_nat ?n :: u16) = ?n" by (subst unat_of_nat) (use path(2) in \<open>simp add: take_bit_eq_mod\<close>)
  have nul: "length (takeWhile (\<lambda>b. b \<noteq> 0) ?bytes) = length path"
    using arg_cong [OF cstring_string_bytes(2) [OF path(1)], of length] by (simp add: cstring_def)
  have "wp (client_messages (Suc n) k c) Q w = wp (handled n k c (handle_open_device k c path)) Q (?w m3)"
    using path(2) m(2) n nul cstring_string_bytes(2) [OF path(1)]
    by (simp add: handled_def wp_simps get get2 get3 [simplified] header_decode connection_pending_def client_handle_opcode_def open_device_message_def)
  with m3 show "\<exists>m. conn_ok m \<and> contents (cin m) = rest \<and> wp (client_messages (Suc n) k c) Q w =
       wp (handled n k c (handle_open_device k c path)) Q (?w m)"
    by blast
qed

text \<open>C24:
  The daemon understands the library: the bytes of an \<open>open_device\<close> request for any path
  without null characters that fits the connection's buffer, and of the requests to close a
  device and to switch the session, are decoded to the same path, device and session number,
  and exactly these bytes are taken off the input.
\<close>

theorem requests_understood:
  assumes "CHR 0x00 \<notin> set path" and "length path < 250" and "0 \<le> device" "device < 2 ^ 31" and "0 \<le> session" "session < 2 ^ 31"
  shows "understood k w c (open_device_request path) (handle_open_device k c path) \<and>
     understood k w c (close_device_request device) (handle_close_device k c device) \<and>
     understood k w c (switch_session_request session) (handle_switch_session k c session)"
  unfolding close_device_request_def switch_session_request_def
  using assms by (auto intro!: understood_open_device understood_int)

text \<open>C25:
  Paths that the library accepts but the daemon cannot receive: for a path of 250 to 255
  characters the request is longer than the input buffer of a connection. Whatever part of it has
  arrived, the daemon handles nothing and waits for the rest; once the buffer is full,
  the next read fails, and with it the connection of the client.
\<close>

theorem long_paths_not_served:
  assumes path: "250 \<le> length path" "length path < 256"
    and x: "client_heap w c = Some x" "conn_ok (cl_connection x)"
    and bs: "contents (cin (cl_connection x)) = take j (concat (open_device_request path))" "4 \<le> j"
  shows "run_state (client_messages (Suc n) k c) w = (0, w) \<and>
     (length (contents (cin (cl_connection x))) = 256 \<longrightarrow> fst (run_state (client_readable k c) w) = -1)"
proof -
  let ?h = "proto_header CLIENT_OPEN_DEVICE (2 + (length path + 1))"
  have len: "length ?h = 4" by simp
  obtain rest where rest: "contents (cin (cl_connection x)) = ?h @ rest"
    using bs by (auto simp: open_device_request_def Let_def take_append)
  let ?m = "(cl_connection x)\<lparr>cin := connection_buffer_consume 4 (cin (cl_connection x))\<rparr>"
  have buf: "buffer_ok (cin (cl_connection x))" and le: "4 \<le> length (contents (cin (cl_connection x)))"
    using x(2) rest len by (auto simp: conn_ok_def)
  have copy: "connection_buffer_copy (cin (cl_connection x)) 4 = ?h"
    using ring.copy_abs [OF buf le] rest len by simp
  have restore: "connection_restore ?m 4 = cl_connection x" by (simp add: connection_restore_def)
  have "pending ?m = pending (cl_connection x) - 4" "pending (cl_connection x) \<le> 256"
    using buf le by (simp_all add: ring.consume_abs buffer_ok_def)
  then have short: "connection_pending ?m < 2 + (length path + 1)"
    using path(1) by (simp add: connection_pending_def)
  have same: "w\<lparr>client_heap := (client_heap w)(c \<mapsto> x)\<rparr> = w" using x(1) by (simp add: fun_upd_idem)
  have "wp (client_messages (Suc n) k c) (\<lambda>r w'. r = 0 \<and> w' = w) w"
    using x(1) copy le short path(2) restore same
    by (simp add: client_get_def on_connection_def connection_get_def wp_simps header_decode)
  moreover have "wp (client_readable k c) (\<lambda>r _. r = -1) w" if "pending (cl_connection x) = 256"
    using that x(1) by (simp add: client_readable_def on_connection_def connection_read_def wp_simps)
  ultimately show ?thesis by (auto simp: wp_def split: prod.splits)
qed

section \<open>Sample runs\<close>

text \<open>
  An application state with a backend that has read two events, and a daemon state whose client
  sent a request.
\<close>

definition lib_demo :: "byte list \<Rightarrow> bool \<Rightarrow> lib_os" where
  "lib_demo bs failing = \<lparr>errno = 0, trace = [], aborted = False, stuck = False,
     the_backend = Some ((new_backend 7)\<lparr>be_error := failing,
       be_connection := (new_connection 7)\<lparr>cin := sample_buffer bs\<rparr>\<rparr>)\<rparr>"

lemma lib_demo_ok:
  assumes "length bs \<le> 256"
  shows "lib_inv demo_kernel 7 (lib_demo bs failing)"
proof -
  have "send_ok demo_kernel" "recv_ok demo_kernel" using demo_kernel_ok by (auto simp: kernel_ok_def)
  moreover have "conn_ok ((new_connection 7)\<lparr>cin := sample_buffer bs\<rparr>)"
    using sample_buffer(1) [OF assms] by (simp add: conn_ok_def new_connection_def)
  ultimately show ?thesis
    by (simp add: lib_inv_def lib_demo_def lib_ok_def new_backend_def new_connection_def)
qed

theorem libseat_safe_witness:
  "wp (lib_dispatch demo_kernel (ack_listener demo_kernel) 0) (\<lambda>_. lib_inv demo_kernel 7) (lib_demo (proto_header SERVER_DISABLE_SEAT 0) False) \<and>
   wp (lib_close_seat demo_kernel (ack_listener demo_kernel)) (\<lambda>_. closed 7) (lib_demo [] False)"
proof -
  have "lib_inv demo_kernel 7 (lib_demo (proto_header SERVER_DISABLE_SEAT 0) False)" "lib_inv demo_kernel 7 (lib_demo [] False)"
    by (simp_all add: lib_demo_ok)
  from this [THEN libseat_safe, OF ack.seat_listener_axioms] show ?thesis by blast
qed

theorem libseat_open_seat_clean_witness:
  "case run_state (lib_open_seat demo_kernel ''/run/seatd.sock'' (ack_listener demo_kernel)) \<lparr>errno = 0, trace = [], aborted = False, stuck = False, the_backend = None\<rparr> of
     (r, w') \<Rightarrow> \<not> aborted w'"
  using libseat_open_seat_clean [OF _ _ _ _ ack.seat_listener_axioms, of demo_kernel "\<lparr>errno = 0, trace = [], aborted = False, stuck = False, the_backend = None\<rparr>"
      "''/run/seatd.sock''"] demo_kernel_ok
  by (auto simp: kernel_ok_def wp_def Let_def lib_inv_def closed_def split: prod.splits if_splits)

theorem read_and_queue_refines_witness:
  "stuck (snd (run_state (read_and_queue demo_kernel False) (lib_demo (proto_header SERVER_ENABLE_SEAT 0) False))) = False"
  using read_and_queue_refines [of "lib_demo (proto_header SERVER_ENABLE_SEAT 0) False" _ demo_kernel False]
    lib_demo_ok [of "proto_header SERVER_ENABLE_SEAT 0" False]
  by (auto simp: lib_inv_def wp_def split: prod.splits) (simp add: lib_demo_def)


definition letter :: "byte list \<Rightarrow> world" where
  "letter bs = (desk CLIENT_ACTIVE)\<lparr>client_heap := [2 \<mapsto> (desk_client CLIENT_ACTIVE)\<lparr>cl_connection := (new_connection 7)\<lparr>cin := sample_buffer bs\<rparr>\<rparr>]\<rparr>"

definition long_letter :: world where
  "long_letter = letter (take 256 (concat (open_device_request (replicate 255 CHR ''a''))))"

theorem long_paths_not_served_witness:
  "run_state (client_messages 65 demo_kernel 2) long_letter = (0, long_letter) \<and> fst (run_state (client_readable demo_kernel 2) long_letter) = -1"
proof -
  let ?path = "replicate 255 CHR ''a''"
  let ?bs = "take 256 (concat (open_device_request ?path))"
  let ?x = "(desk_client CLIENT_ACTIVE)\<lparr>cl_connection := (new_connection 7)\<lparr>cin := sample_buffer ?bs\<rparr>\<rparr>"
  have len: "length ?bs = 256" by (simp add: open_device_request_def Let_def)
  have x: "client_heap long_letter 2 = Some ?x" "conn_ok (cl_connection ?x)" "contents (cin (cl_connection ?x)) = ?bs"
    using sample_buffer [of ?bs] len by (simp_all add: long_letter_def letter_def conn_ok_def new_connection_def)
  have "run_state (client_messages (Suc 64) demo_kernel 2) long_letter = (0, long_letter) \<and>
     (length (contents (cin (cl_connection ?x))) = 256 \<longrightarrow> fst (run_state (client_readable demo_kernel 2) long_letter) = -1)"
    by (rule long_paths_not_served [OF _ _ x(1,2), of ?path 256]) (use x(3) in simp_all)
  then show ?thesis using x(3) len by simp
qed

theorem requests_understood_witness:
  "\<exists>m. contents (cin m) = [] \<and>
     wp (client_messages 65 demo_kernel 2) (\<lambda>r w'. r = 0) (letter (concat (open_device_request ''/dev/dri/card0''))) =
     wp (handled 64 demo_kernel 2 (handle_open_device demo_kernel 2 ''/dev/dri/card0'')) (\<lambda>r w'. r = 0)
       ((letter (concat (open_device_request ''/dev/dri/card0'')))\<lparr>client_heap := [2 \<mapsto> (desk_client CLIENT_ACTIVE)\<lparr>cl_connection := m\<rparr>]\<rparr>)"
proof -
  let ?bs = "concat (open_device_request ''/dev/dri/card0'')"
  let ?x = "(desk_client CLIENT_ACTIVE)\<lparr>cl_connection := (new_connection 7)\<lparr>cin := sample_buffer ?bs\<rparr>\<rparr>"
  have len: "length ?bs \<le> 256" by (simp add: open_device_request_def Let_def)
  have x: "client_heap (letter ?bs) 2 = Some ?x" "conn_ok (cl_connection ?x)" "contents (cin (cl_connection ?x)) = ?bs @ []"
    using sample_buffer [OF len] by (simp_all add: letter_def conn_ok_def new_connection_def)
  have "understood demo_kernel (letter ?bs) 2 (open_device_request ''/dev/dri/card0'') (handle_open_device demo_kernel 2 ''/dev/dri/card0'')"
    using requests_understood [of "''/dev/dri/card0''" 0 0 demo_kernel "letter ?bs" 2] by simp
  then obtain m where "contents (cin m) = []"
     "wp (client_messages (Suc 64) demo_kernel 2) (\<lambda>r w'. r = 0) (letter ?bs) =
      wp (handled 64 demo_kernel 2 (handle_open_device demo_kernel 2 ''/dev/dri/card0'')) (\<lambda>r w'. r = 0)
        ((letter ?bs)\<lparr>client_heap := (client_heap (letter ?bs))(2 \<mapsto> ?x\<lparr>cl_connection := m\<rparr>)\<rparr>)"
    unfolding understood_def using x by blast
  then show ?thesis by (auto simp: letter_def)
qed

section \<open>The order of events\<close>

text \<open>A listener that records which of its functions were called, in order.\<close>

record event_log = lib_os +
  ran :: "u16 list"

definition log_listener :: "event_log libseat_seat_listener" where
  "log_listener = \<lparr>enable_seat = Some (State_Monad.update (\<lambda>w. w\<lparr>ran := ran w @ [SERVER_ENABLE_SEAT]\<rparr>)),
     disable_seat = Some (State_Monad.update (\<lambda>w. w\<lparr>ran := ran w @ [SERVER_DISABLE_SEAT]\<rparr>))\<rparr>"

lemma execute_list_log:
  "the_backend w = Some b \<Longrightarrow> set opcodes \<subseteq> {SERVER_DISABLE_SEAT, SERVER_ENABLE_SEAT} \<Longrightarrow>
     wp (execute_list log_listener opcodes n) (\<lambda>_ w'. ran w' = ran w @ opcodes) w"
proof (induction opcodes arbitrary: w n)
  case (Cons opcode opcodes)
  have "wp (execute_list log_listener opcodes (n + 1)) (\<lambda>_ w'. ran w' = ran w @ opcode # opcodes) (w\<lparr>ran := ran w @ [opcode]\<rparr>)"
    by (rule wp_mono [OF Cons.IH]) (use Cons.prems in auto)
  with Cons.prems show ?case
    by (auto simp: wp_simps call_listener_def log_listener_def)
qed (simp add: wp_simps)

text \<open>The library itself does not touch the application's part of the state.\<close>

definition app_same :: "'a lib_os_scheme \<Rightarrow> 'a lib_os_scheme \<Rightarrow> bool" where
  "app_same w w' \<longleftrightarrow> lib_os.more w' = lib_os.more w"

interpretation app: frame_rel app_same
  by unfold_locales (auto simp: app_same_def)

lemma step_app: "state_io_rel os_step m \<Longrightarrow> state_io_rel app_same m"
  by (rule state_io_relI) (auto dest!: state_io_relD simp: os_step_backend app_same_def)

lemma backend_app: "state_io_rel app_same get_backend" "state_io_rel app_same (upd_backend f)"
  unfolding get_backend_def upd_backend_def abort_now_def by (intro app.rules app.update; simp add: app_same_def)+

lemma on_backend_app: "(\<And>n. state_io_rel os_step (f n)) \<Longrightarrow> state_io_rel app_same (on_backend f)"
  unfolding on_backend_def by (intro app.rules backend_app step_app)

lemmas app_frame = app.rules backend_app calls_frame [THEN io_calls_imp_step, THEN step_app] step_frame [THEN step_app]

lemma set_error_app: "state_io_rel app_same (set_error k)"
  unfolding set_error_def cleanup_def
  by (intro app_frame on_backend_app step.rules calls_frame [THEN io_calls_imp_step])

lemma queue_loop_app: "state_io_rel app_same (queue_loop n k want p)"
  by (induction n arbitrary: p)
    (auto simp: queue_event_def Let_def intro!: app_frame set_error_app on_backend_app step.rules calls_frame [THEN io_calls_imp_step])

lemma app_same_ran: "app_same w w' \<Longrightarrow> ran (w' :: event_log) = ran w"
  by (cases w; cases w') (simp add: app_same_def)

text \<open>C26:
  Events that arrive together run backwards: when the input holds several events and no
  response, the library queues them all and then calls the listener in the reverse order of
  arrival.
\<close>

theorem events_run_backwards:
  assumes "the_backend w = Some b" and "lib_ok b" and "pending_events b = []"
    and "background (contents (cin (be_connection b))) = (opcodes, rest)"
  shows "wp (do { (r, _) \<leftarrow> read_and_queue k False;
                  if r = -1 then State_Monad.return False
                  else do { _ \<leftarrow> execute_events log_listener; State_Monad.return True } })
     (\<lambda>executed w'. executed \<longrightarrow> ran w' = ran w @ rev (filter (\<lambda>e. e \<noteq> SERVER_PONG) opcodes)) w"
proof -
  have step: "wp (read_and_queue k False) (\<lambda>r w'. ran w' = ran w \<and> (\<exists>b'. the_backend w' = Some b' \<and> queued False 0 b r b')) w"
    using read_and_queue_wp [OF assms(1,2)] wp_frame [OF queue_loop_app [of 65 k False 0], of w "\<lambda>_. app_same w"]
    unfolding read_and_queue_def by (rule wp_both) (auto dest: app_same_ran)
  have run: "wp (execute_events log_listener) (\<lambda>_ w'. ran w' = ran w @ rev (filter (\<lambda>e. e \<noteq> SERVER_PONG) opcodes)) v"
    if v: "ran v = ran w" "the_backend v = Some b'" "queued False 0 b r b'" "fst r \<noteq> -1" for v b' r
  proof -
    have b': "lib_ok b'" "pending_events b' = rev (filter (\<lambda>e. e \<noteq> SERVER_PONG) opcodes)"
      using v(3,4) assms(3,4) by (auto simp: queued_def absorbed_def)
    then show ?thesis
      unfolding execute_events_def using v(1,2)
      by (simp add: wp_simps, intro wp_mono [OF execute_list_log]) (auto simp: lib_ok_def)
  qed
  show ?thesis
    unfolding wp_simps by (rule wp_mono [OF step]) (auto intro!: wp_mono [OF run])
qed

text \<open>The seat is disabled and then enabled; the listener hears of it in the other order.\<close>

definition event_demo :: event_log where
  "event_demo = lib_os.extend (lib_demo (proto_header SERVER_DISABLE_SEAT 0 @ proto_header SERVER_ENABLE_SEAT 0) False) \<lparr>ran = []\<rparr>"

definition read_and_execute :: "(event_log, bool) state" where
  "read_and_execute = do {
     (r, _) \<leftarrow> read_and_queue demo_kernel False;
     if r = -1 then State_Monad.return False
     else do { _ \<leftarrow> execute_events log_listener; State_Monad.return True }
   }"

theorem events_run_backwards_witness:
  "ran (snd (run_state read_and_execute event_demo)) = [SERVER_ENABLE_SEAT, SERVER_DISABLE_SEAT]"
proof -
  let ?bs = "proto_header SERVER_DISABLE_SEAT 0 @ proto_header SERVER_ENABLE_SEAT 0"
  let ?b = "the (the_backend event_demo)"
  have bs: "length ?bs \<le> 256" by simp
  have b: "the_backend event_demo = Some ?b" "pending_events ?b = []" "ran event_demo = []" "contents (cin (be_connection ?b)) = ?bs"
    using sample_buffer(2) [OF bs] by (simp_all add: event_demo_def lib_demo_def lib_os.defs new_backend_def new_connection_def)
  have ok: "lib_ok ?b"
    using lib_demo_ok [OF bs, of False] by (auto simp: lib_inv_def event_demo_def lib_os.defs)
  have bg: "background (contents (cin (be_connection ?b))) = ([SERVER_DISABLE_SEAT, SERVER_ENABLE_SEAT], [])"
    unfolding b(4) by code_simp
  have "fst (run_state read_and_execute event_demo)" by code_simp
  then show ?thesis
    using events_run_backwards [OF b(1) ok b(2) bg, of demo_kernel] b(3)
    by (auto simp: wp_def read_and_execute_def split: prod.splits)
qed

end
