(* ===== verification/Libseat.thy ===== *)
theory Libseat
  imports Libseat_Spec
begin

text \<open>
  \<open>libseat/libseat.c\<close>, the interface of the client library, which chooses a backend and passes
  every call on to it, and the backend without a daemon, \<open>libseat/backend/noop.c\<close>. Which
  backends there are is a choice of the build, and the logind and builtin backends are not
  modelled, so the table of backends and their operations are arguments; the operations of
  the seatd and noop backends are given here.
\<close>

section \<open>The backend without a daemon\<close>

record backend_noop =
  initial_setup :: bool
  sockets :: "int \<times> int"

record noop_os = lib_os +
  the_noop :: "backend_noop option"

definition get_noop :: "('a noop_os_scheme, backend_noop) state" where
  "get_noop = do {
     w \<leftarrow> State_Monad.get;
     case the_noop w of
       None \<Rightarrow> do { abort_now; State_Monad.return \<lparr>initial_setup = False, sockets = (0, 0)\<rparr> }
     | Some b \<Rightarrow> State_Monad.return b
   }"

definition noop_destroy :: "kernel \<Rightarrow> ('a noop_os_scheme, unit) state" where
  "noop_destroy k = do {
     b \<leftarrow> get_noop;
     _ \<leftarrow> sys_val k (Sys_close (fst (sockets b)));
     _ \<leftarrow> sys_val k (Sys_close (snd (sockets b)));
     State_Monad.update (\<lambda>w. w\<lparr>the_noop := None\<rparr>)
   }"

definition noop_close_seat :: "kernel \<Rightarrow> ('a noop_os_scheme, int) state" where
  "noop_close_seat k = do { noop_destroy k; State_Monad.return 0 }"

definition noop_disable_seat :: "('w, int) state" where
  "noop_disable_seat = State_Monad.return 0"

definition noop_seat_name :: "('w, string) state" where
  "noop_seat_name = State_Monad.return ''seat0''"

definition noop_open_device :: "kernel \<Rightarrow> string \<Rightarrow> ('a os_scheme, int \<times> int option) state" where
  "noop_open_device k path = do {
     tmpfd \<leftarrow> sys_val k (Sys_open path [O_RDWR, O_NOCTTY, O_NOFOLLOW, O_CLOEXEC, O_NONBLOCK]);
     State_Monad.return (if tmpfd < 0 then (-1, None) else (tmpfd, Some tmpfd))
   }"

definition noop_close_device :: "int \<Rightarrow> ('w, int) state" where
  "noop_close_device device = State_Monad.return 0"

definition noop_switch_session :: "int \<Rightarrow> ('w, int) state" where
  "noop_switch_session session = State_Monad.return (-1)"

definition noop_get_fd :: "('a noop_os_scheme, int) state" where
  "noop_get_fd = do { b \<leftarrow> get_noop; State_Monad.return (fst (sockets b)) }"

definition dispatch_background ::
    "kernel \<Rightarrow> 'a noop_os_scheme libseat_seat_listener \<Rightarrow> int \<Rightarrow> ('a noop_os_scheme, int) state" where
  "dispatch_background k l timeout = do {
     b \<leftarrow> get_noop;
     _ \<leftarrow> (if initial_setup b then do {
             State_Monad.update (\<lambda>w. w\<lparr>the_noop := Some (b\<lparr>initial_setup := False\<rparr>)\<rparr>);
             call_listener (enable_seat l)
           } else State_Monad.return ());
     b \<leftarrow> get_noop;
     r \<leftarrow> sys_val k (Sys_ipc (Poll_in (fst (sockets b)) timeout));
     e \<leftarrow> get_errno;
     State_Monad.return (if r < 0 then if e = EAGAIN \<or> e = EINTR then 0 else -1 else 0)
   }"

definition noop_open_seat :: "kernel \<Rightarrow> ('a noop_os_scheme, bool) state" where
  "noop_open_seat k = do {
     r \<leftarrow> sys_val k Sys_calloc;
     if r = -1 then State_Monad.return False
     else do {
       r \<leftarrow> sys k (Sys_ipc Socketpair);
       if sr_val r \<noteq> 0 then State_Monad.return False
       else do {
         State_Monad.update (\<lambda>w. w\<lparr>the_noop := Some \<lparr>initial_setup = True,
           sockets = (sr_ints r ! 0, sr_ints r ! 1)\<rparr>\<rparr>);
         State_Monad.return True
       }
     }
   }"

section \<open>Backends\<close>

text \<open>
  A table of operations. The backends keep the listener that \<open>open_seat\<close> was given; here it is
  an argument of the operations that call it.
\<close>

record 'w seat_impl =
  impl_open_seat :: "'w libseat_seat_listener \<Rightarrow> ('w, bool) state"
  impl_disable_seat :: "('w, int) state"
  impl_close_seat :: "'w libseat_seat_listener \<Rightarrow> ('w, int) state"
  impl_seat_name :: "('w, string) state"
  impl_open_device :: "string \<Rightarrow> ('w, int \<times> int option) state"
  impl_close_device :: "int \<Rightarrow> ('w, int) state"
  impl_switch_session :: "int \<Rightarrow> ('w, int) state"
  impl_get_fd :: "('w, int) state"
  impl_dispatch :: "'w libseat_seat_listener \<Rightarrow> int \<Rightarrow> ('w, int) state"

definition seatd_impl :: "kernel \<Rightarrow> string \<Rightarrow> 'a lib_os_scheme seat_impl" where
  "seatd_impl k default_path = \<lparr>impl_open_seat = lib_open_seat k default_path, impl_disable_seat = lib_disable_seat k,
     impl_close_seat = lib_close_seat k, impl_seat_name = lib_seat_name, impl_open_device = lib_open_device k,
     impl_close_device = lib_close_device k, impl_switch_session = lib_switch_session k, impl_get_fd = lib_get_fd,
     impl_dispatch = lib_dispatch k\<rparr>"

definition noop_impl :: "kernel \<Rightarrow> 'a noop_os_scheme seat_impl" where
  "noop_impl k = \<lparr>impl_open_seat = (\<lambda>_. noop_open_seat k), impl_disable_seat = noop_disable_seat,
     impl_close_seat = (\<lambda>_. noop_close_seat k), impl_seat_name = noop_seat_name, impl_open_device = noop_open_device k,
     impl_close_device = noop_close_device, impl_switch_session = noop_switch_session, impl_get_fd = noop_get_fd,
     impl_dispatch = dispatch_background k\<rparr>"

text \<open>The pointers to these tables, and the list of backends of a build.\<close>

datatype impl_ptr = Seatd_impl | Logind_impl | Builtin_impl | Noop_impl

type_synonym named_backend = "string \<times> impl_ptr"

definition impls :: "bool \<Rightarrow> bool \<Rightarrow> bool \<Rightarrow> named_backend list" where
  "impls seatd_enabled logind_enabled builtin_enabled =
     (if seatd_enabled then [(''seatd'', Seatd_impl)] else []) @
     (if logind_enabled then [(''logind'', Logind_impl)] else []) @
     (if builtin_enabled then [(''builtin'', Builtin_impl)] else []) @
     [(''noop'', Noop_impl)]"

section \<open>The interface\<close>

primrec first_backend ::
    "named_backend list \<Rightarrow> (impl_ptr \<Rightarrow> 'a os_scheme seat_impl) \<Rightarrow> 'a os_scheme libseat_seat_listener \<Rightarrow> ('a os_scheme, impl_ptr option) state" where
  "first_backend [] impl l = do { set_errno ENOSYS; State_Monad.return None }"
| "first_backend (nb # nbs) impl l =
     (if snd nb = Noop_impl then first_backend nbs impl l
      else do {
        backend \<leftarrow> impl_open_seat (impl (snd nb)) l;
        if backend then State_Monad.return (Some (snd nb)) else first_backend nbs impl l
      })"

text \<open>The result is the table of operations of the new seat; \<open>None\<close> is the null pointer.\<close>

definition libseat_open_seat ::
    "kernel \<Rightarrow> named_backend list \<Rightarrow> (impl_ptr \<Rightarrow> 'a os_scheme seat_impl) \<Rightarrow> 'a os_scheme libseat_seat_listener option \<Rightarrow>
     ('a os_scheme, impl_ptr option) state" where
  "libseat_open_seat k table impl listener = (case listener of
     None \<Rightarrow> do { set_errno EINVAL; State_Monad.return None }
   | Some l \<Rightarrow>
       if enable_seat l = None \<or> disable_seat l = None then do { set_errno EINVAL; State_Monad.return None }
       else do {
         backend_type \<leftarrow> sys k (Sys_getenv ''LIBSEAT_BACKEND'');
         if sr_val backend_type \<noteq> -1 then
           (case List.find (\<lambda>nb. fst nb = sr_str backend_type) table of
              None \<Rightarrow> do { set_errno EINVAL; State_Monad.return None }
            | Some nb \<Rightarrow> do {
                backend \<leftarrow> impl_open_seat (impl (snd nb)) l;
                State_Monad.return (if backend then Some (snd nb) else None)
              })
         else first_backend table impl l
       })"

text \<open>A call through the table of a seat; a null pointer fails the assertion.\<close>

definition with_impl :: "'a os_scheme seat_impl option \<Rightarrow> 'b \<Rightarrow> ('a os_scheme seat_impl \<Rightarrow> ('a os_scheme, 'b) state) \<Rightarrow> ('a os_scheme, 'b) state" where
  "with_impl seat none f = (case seat of None \<Rightarrow> do { abort_now; State_Monad.return none } | Some i \<Rightarrow> f i)"

definition libseat_disable_seat :: "'a os_scheme seat_impl option \<Rightarrow> ('a os_scheme, int) state" where
  "libseat_disable_seat seat = with_impl seat (-1) impl_disable_seat"

definition libseat_close_seat ::
    "'a os_scheme seat_impl option \<Rightarrow> 'a os_scheme libseat_seat_listener \<Rightarrow> ('a os_scheme, int) state" where
  "libseat_close_seat seat l = with_impl seat (-1) (\<lambda>i. impl_close_seat i l)"

definition libseat_seat_name :: "'a os_scheme seat_impl option \<Rightarrow> ('a os_scheme, string) state" where
  "libseat_seat_name seat = with_impl seat [] impl_seat_name"

definition libseat_open_device :: "'a os_scheme seat_impl option \<Rightarrow> string \<Rightarrow> ('a os_scheme, int \<times> int option) state" where
  "libseat_open_device seat path = with_impl seat (-1, None) (\<lambda>i. impl_open_device i path)"

definition libseat_close_device :: "'a os_scheme seat_impl option \<Rightarrow> int \<Rightarrow> ('a os_scheme, int) state" where
  "libseat_close_device seat device = with_impl seat (-1) (\<lambda>i. impl_close_device i device)"

definition libseat_get_fd :: "'a os_scheme seat_impl option \<Rightarrow> ('a os_scheme, int) state" where
  "libseat_get_fd seat = with_impl seat (-1) impl_get_fd"

definition libseat_dispatch ::
    "'a os_scheme seat_impl option \<Rightarrow> 'a os_scheme libseat_seat_listener \<Rightarrow> int \<Rightarrow> ('a os_scheme, int) state" where
  "libseat_dispatch seat l timeout = with_impl seat (-1) (\<lambda>i. impl_dispatch i l timeout)"

definition libseat_switch_session :: "'a os_scheme seat_impl option \<Rightarrow> int \<Rightarrow> ('a os_scheme, int) state" where
  "libseat_switch_session seat session = with_impl seat (-1) (\<lambda>i. impl_switch_session i session)"

section \<open>Choosing a backend\<close>

lemma noop_open_seat_wp:
  "wp (noop_open_seat k) (\<lambda>_ w'. aborted w' = aborted w \<and> the_backend w' = the_backend w) w"
  by (simp add: noop_open_seat_def wp_simps Let_def)


definition noop_demo :: noop_os where
  "noop_demo = \<lparr>errno = 0, trace = [], aborted = False, stuck = False, the_backend = None, the_noop = None\<rparr>"


end
