(* ===== verification/Launch.thy ===== *)
theory Launch
  imports Log Poller
begin

text \<open>
  \<open>seatd-launch/seatd-launch.c\<close>: the launcher starts the daemon, waits until it is ready, drops
  its privileges, runs the command and stops the daemon. The build sets the paths of the daemon
  and of its socket, so they are arguments. A process that was forked continues in the model
  as the branch where \<open>fork\<close> returns 0.
\<close>

section \<open>The program\<close>

text \<open>How a process ends: it exits, or another program takes its place.\<close>

datatype outcome = Exited int | Replaced

definition launch_option :: "char \<times> string \<Rightarrow> string \<Rightarrow> ('a os_scheme, int + string) state" where
  "launch_option oa loglevel = (let c = fst oa in
     if c = CHR ''l'' then State_Monad.return (Inr (strncpy 16 (snd oa)))
     else if c = CHR ''v'' \<or> c = CHR ''h'' then State_Monad.return (Inl 0)
     else if c = CHR ''?'' then State_Monad.return (Inl 1)
     else do { abort_now; State_Monad.return (Inl 1) })"

primrec launch_options :: "(char \<times> string) list \<Rightarrow> string \<Rightarrow> ('a os_scheme, int + string) state" where
  "launch_options [] loglevel = State_Monad.return (Inr loglevel)"
| "launch_options (oa # oas) loglevel = do {
     r \<leftarrow> launch_option oa loglevel;
     case r of Inl status \<Rightarrow> State_Monad.return (Inl status) | Inr loglevel \<Rightarrow> launch_options oas loglevel
   }"

abbreviation (input) "SIGTERM \<equiv> (15::int)"

definition error_seatd :: "kernel \<Rightarrow> int \<Rightarrow> ('a os_scheme, outcome) state" where
  "error_seatd k seatd_child = do {
     _ \<leftarrow> sys_val k (Sys_proc (Kill seatd_child SIGTERM));
     State_Monad.return (Exited 1)
   }"

text \<open>
  The loop that waits for the daemon: true once it is ready, false for \<open>goto error_seatd\<close>. The
  loop has no bound; the model gives up after the given number of rounds.
\<close>

primrec wait_ready :: "nat \<Rightarrow> kernel \<Rightarrow> int \<Rightarrow> int \<Rightarrow> ('a os_scheme, bool) state" where
  "wait_ready 0 k seatd_child fd = do { set_stuck; State_Monad.return False }"
| "wait_ready (Suc n) k seatd_child fd = do {
     p \<leftarrow> sys_val k (Sys_proc (Waitpid seatd_child True));
     e \<leftarrow> get_errno;
     if p = seatd_child then State_Monad.return False
     else if p = -1 \<and> (e \<noteq> EINTR \<and> e \<noteq> ECHILD) then State_Monad.return False
     else do {
       r \<leftarrow> sys k (Sys_ipc (Poll_in fd 1000));
       e \<leftarrow> get_errno;
       if sr_val r = -1 then
         (if e = EAGAIN \<or> e = EINTR then wait_ready n k seatd_child fd else State_Monad.return False)
       else if (of_int (sr_out r) :: u16) AND POLLIN \<noteq> 0 then do {
         m \<leftarrow> sys_val k (Sys_read fd 1);
         e \<leftarrow> get_errno;
         if m = -1 \<and> e \<noteq> EINTR then State_Monad.return False
         else if m > 0 then State_Monad.return True
         else wait_ready n k seatd_child fd
       }
       else wait_ready n k seatd_child fd
     }
   }"

text \<open>The loop that waits for the command: its status, or \<open>None\<close> for \<open>goto error_seatd\<close>.\<close>

primrec wait_child :: "nat \<Rightarrow> kernel \<Rightarrow> int \<Rightarrow> ('a os_scheme, int option) state" where
  "wait_child 0 k child = do { set_stuck; State_Monad.return None }"
| "wait_child (Suc n) k child = do {
     r \<leftarrow> sys k (Sys_proc (Waitpid child False));
     e \<leftarrow> get_errno;
     if sr_val r = child then State_Monad.return (Some (sr_out r))
     else if sr_val r = -1 \<and> e \<noteq> EINTR then State_Monad.return None
     else wait_child n k child
   }"

text \<open>\<open>WIFEXITED\<close>, \<open>WEXITSTATUS\<close>, \<open>WIFSIGNALED\<close> and \<open>WTERMSIG\<close> of Linux.\<close>

definition exit_status :: "int \<Rightarrow> ('a os_scheme, outcome) state" where
  "exit_status status =
     (let low = status AND 127 in
      if low = 0 then State_Monad.return (Exited (drop_bit 8 status AND 255))
      else if low \<noteq> 127 then State_Monad.return (Exited (128 + low))
      else do { abort_now; State_Monad.return (Exited 1) })"

definition run_command :: "kernel \<Rightarrow> string \<Rightarrow> string list \<Rightarrow> int \<Rightarrow> ('a os_scheme, outcome) state" where
  "run_command k default_path command seatd_child = do {
     child \<leftarrow> sys_val k (Sys_proc Fork);
     if child = -1 then error_seatd k seatd_child
     else if child = 0 then do {
       r \<leftarrow> sys_val k (Sys_proc (Execvp (hd command) command (''SEATD_SOCK'', default_path)));
       State_Monad.return (if r = -1 then Exited 1 else Replaced)
     }
     else do {
       status \<leftarrow> wait_child (retry_fuel k) k child;
       case status of
         None \<Rightarrow> error_seatd k seatd_child
       | Some status \<Rightarrow> do {
           _ \<leftarrow> sys_val k (Sys_proc (Kill seatd_child SIGTERM));
           exit_status status
         }
     }
   }"

definition drop_privileges :: "kernel \<Rightarrow> string \<Rightarrow> ('a os_scheme, bool) state" where
  "drop_privileges k default_path = do {
     uid \<leftarrow> sys_val k (Sys_proc Getuid);
     gid \<leftarrow> sys_val k (Sys_proc Getgid);
     r \<leftarrow> sys_val k (Sys_chown default_path uid gid);
     if r = -1 then State_Monad.return False
     else do {
       r \<leftarrow> sys_val k (Sys_chmod default_path 448);
       if r = -1 then State_Monad.return False
       else do {
         r \<leftarrow> sys_val k (Sys_proc (Setgid gid));
         if r = -1 then State_Monad.return False
         else do {
           r \<leftarrow> sys_val k (Sys_proc (Setuid uid));
           State_Monad.return (r \<noteq> -1)
         }
       }
     }
   }"

definition launch :: "kernel \<Rightarrow> string \<Rightarrow> string \<Rightarrow> string \<Rightarrow> string list \<Rightarrow> ('a os_scheme, outcome) state" where
  "launch k install_path default_path loglevel command = do {
     r \<leftarrow> sys k Sys_pipe;
     if sr_val r = -1 then State_Monad.return (Exited 1)
     else do {
       let (rd, wr) = (sr_ints r ! 0, sr_ints r ! 1);
       seatd_child \<leftarrow> sys_val k (Sys_proc Fork);
       if seatd_child = -1 then State_Monad.return (Exited 1)
       else if seatd_child = 0 then do {
         _ \<leftarrow> sys_val k (Sys_close rd);
         r \<leftarrow> sys_val k (Sys_proc (Execve install_path [''seatd'', ''-n'', take 15 (printf_d 0 wr), ''-l'', loglevel, ''-z'']));
         State_Monad.return (if r = -1 then Exited 1 else Replaced)
       }
       else do {
         _ \<leftarrow> sys_val k (Sys_close wr);
         ready \<leftarrow> wait_ready (retry_fuel k) k seatd_child rd;
         if \<not> ready then error_seatd k seatd_child
         else do {
           _ \<leftarrow> sys_val k (Sys_close rd);
           dropped \<leftarrow> drop_privileges k default_path;
           if \<not> dropped then error_seatd k seatd_child
           else run_command k default_path command seatd_child
         }
       }
     }
   }"

definition launch_main :: "kernel \<Rightarrow> string \<Rightarrow> string \<Rightarrow> string list \<Rightarrow> ('a os_scheme, outcome) state" where
  "launch_main k install_path default_path args = do {
     let (opts, operands) = getopt ''vhl:'' [] args;
     r \<leftarrow> launch_options opts ''info'';
     case r of
       Inl status \<Rightarrow> State_Monad.return (Exited status)
     | Inr loglevel \<Rightarrow>
         if operands = [] then State_Monad.return (Exited 1)
         else launch k install_path default_path loglevel operands
   }"

section \<open>Which calls a part makes\<close>

lemma wait_only:
  "(\<And>c. P (Sys_proc (Waitpid child c))) \<Longrightarrow> P (Sys_ipc (Poll_in fd 1000)) \<Longrightarrow> P (Sys_read fd 1) \<Longrightarrow>
     state_io_rel (only_calls P) (wait_ready n k child fd)"
  "(\<And>c. P (Sys_proc (Waitpid child c))) \<Longrightarrow> state_io_rel (only_calls P) (wait_child n k child)"
proof -
  show "(\<And>c. P (Sys_proc (Waitpid child c))) \<Longrightarrow> P (Sys_ipc (Poll_in fd 1000)) \<Longrightarrow> P (Sys_read fd 1) \<Longrightarrow>
     state_io_rel (only_calls P) (wait_ready n k child fd)"
    by (induction n) (auto intro!: only.rules only_sys only_other)
  show "(\<And>c. P (Sys_proc (Waitpid child c))) \<Longrightarrow> state_io_rel (only_calls P) (wait_child n k child)"
    by (induction n) (auto intro!: only.rules only_sys only_other)
qed

section \<open>Privileges\<close>

fun is_exec :: "syscall \<Rightarrow> bool" where
  "is_exec (Sys_proc (Execvp f args env)) = True"
| "is_exec _ = False"

text \<open>The last calls gave the socket to the caller and dropped the privileges, group first, each with success.\<close>

definition dropped :: "string \<Rightarrow> history \<Rightarrow> bool" where
  "dropped path h \<longleftrightarrow> (\<exists>uid gid ru rg rm ro rb ra t.
     h = (Sys_proc (Setuid uid), ru) # (Sys_proc (Setgid gid), rg) # (Sys_chmod path 448, rm) # (Sys_chown path uid gid, ro) #
       (Sys_proc Getgid, rb) # (Sys_proc Getuid, ra) # t \<and>
     sr_val ra = uid \<and> sr_val rb = gid \<and> sr_val ro \<noteq> -1 \<and> sr_val rm \<noteq> -1 \<and> sr_val rg \<noteq> -1 \<and> sr_val ru \<noteq> -1)"

lemma droppedI:
  "sr_val ra = uid \<Longrightarrow> sr_val rb = gid \<Longrightarrow> sr_val ro \<noteq> -1 \<Longrightarrow> sr_val rm \<noteq> -1 \<Longrightarrow> sr_val rg \<noteq> -1 \<Longrightarrow> sr_val ru \<noteq> -1 \<Longrightarrow>
     dropped path ((Sys_proc (Setuid uid), ru) # (Sys_proc (Setgid gid), rg) # (Sys_chmod path 448, rm) # (Sys_chown path uid gid, ro) #
       (Sys_proc Getgid, rb) # (Sys_proc Getuid, ra) # t)"
  unfolding dropped_def by blast

definition exec_after_drop :: "string \<Rightarrow> history \<Rightarrow> bool" where
  "exec_after_drop path h \<longleftrightarrow> (\<forall>h1 c r h2. h = h1 @ (c, r) # h2 \<and> is_exec c \<longrightarrow>
     (\<exists>rf t. h2 = (Sys_proc Fork, rf) # t \<and> dropped path t))"

definition no_exec :: "history \<Rightarrow> bool" where
  "no_exec h \<longleftrightarrow> (\<forall>(c, r) \<in> set h. \<not> is_exec c)"

lemma no_exec_simps [simp]: "no_exec []" "no_exec ((c, r) # h) = (\<not> is_exec c \<and> no_exec h)" "no_exec (h @ h') = (no_exec h \<and> no_exec h')"
  by (auto simp: no_exec_def)

lemma wp_no_exec:
  assumes "state_io_rel (only_calls (\<lambda>c. \<not> is_exec c)) m" and "no_exec (trace w)" and "\<And>r w'. no_exec (trace w') \<Longrightarrow> Q r w'"
  shows "wp m Q w"
  by (rule wp_only [OF assms(1)], rule assms(3)) (use assms(2) in \<open>simp add: no_exec_def ball_Un\<close>)

lemma exec_none: "no_exec h \<Longrightarrow> exec_after_drop path h"
  by (fastforce simp: exec_after_drop_def no_exec_def)

lemma exec_one:
  assumes "no_exec t" "dropped path t"
  shows "exec_after_drop path ((c, r) # (Sys_proc Fork, rf) # t)"
  using assms by (fastforce simp: exec_after_drop_def no_exec_def Cons_eq_append_conv)

lemma run_command_exec:
  assumes "no_exec (trace w)" "dropped path (trace w)"
  shows "wp (run_command k path command child) (\<lambda>_ w'. exec_after_drop path (trace w')) w"
proof (cases "sr_val (answer k (trace w) (Sys_proc Fork)) = 0")
  case True
  with assms show ?thesis by (simp add: run_command_def wp_simps Let_def exec_one)
next
  case False
  with assms show ?thesis
    by (auto simp: run_command_def error_seatd_def exit_status_def wp_simps Let_def intro!: exec_none wp_no_exec [OF wait_only(2)])
qed

lemma launch_exec:
  assumes "no_exec (trace w)"
  shows "wp (launch k install path level command) (\<lambda>_ w'. exec_after_drop path (trace w')) w"
proof -
  have drop: "wp (drop_privileges k path) Q v"
    if "no_exec (trace v)" "\<And>b w'. no_exec (trace w') \<Longrightarrow> (b \<Longrightarrow> dropped path (trace w')) \<Longrightarrow> Q b w'" for Q and v :: "'a os_scheme"
    unfolding drop_privileges_def by (auto simp: wp_bind wp_return wp_if that(1) intro!: wp_call that(2) droppedI)
  show ?thesis
    using assms
    by (auto simp: launch_def error_seatd_def wp_simps Let_def intro!: exec_none wp_no_exec [OF wait_only(1)] drop run_command_exec)
qed

lemma launch_options_calls: "set oas \<subseteq> {oa. fst oa = CHR ''?'' \<or> takes_arg ''vhl:'' (fst oa) \<noteq> None} \<Longrightarrow>
  wp (launch_options oas level) (\<lambda>_ w'. w' = w) w"
proof (induction oas arbitrary: level)
  case (Cons oa oas)
  have known: "fst oa = CHR ''?'' \<or> fst oa = CHR ''v'' \<or> fst oa = CHR ''h'' \<or> fst oa = CHR ''l''"
    using Cons.prems by (auto split: if_splits)
  then have "wp (launch_option oa level) (\<lambda>_ w'. w' = w) w"
    by (auto simp: launch_option_def wp_simps Let_def)
  then show ?case
    unfolding launch_options.simps wp_simps
    by (rule wp_mono) (use Cons in \<open>auto\<close>)
qed (simp add: wp_simps)

lemma launch_main_wp:
  assumes "\<And>level command. wp (launch k install_path default_path level command) Q w" and "\<And>status. Q (Exited status) w"
  shows "wp (launch_main k install_path default_path args) Q w"
proof -
  have opts: "wp (launch_options (fst (getopt ''vhl:'' [] args)) level) (\<lambda>_ w'. w' = w) w" for level
  proof (rule launch_options_calls, rule subsetI, rule CollectI)
    fix oa assume "oa \<in> set (fst (getopt ''vhl:'' [] args))"
    then show "fst oa = CHR ''?'' \<or> takes_arg ''vhl:'' (fst oa) \<noteq> None"
      by (intro getopt_known [where arg = "snd oa"]) (simp only: prod.collapse)
  qed
  show ?thesis
    unfolding launch_main_def wp_simps
    by (auto simp: wp_simps split: prod.split intro!: wp_mono [OF opts] assms)
qed

text \<open>A kernel that starts the daemon as process 100, ready at once; the second fork answers as given.\<close>

definition launch_kernel :: "int \<Rightarrow> kernel" where
  "launch_kernel child = sample_kernel (\<lambda>h c. case c of
       Sys_pipe \<Rightarrow> Some ((ret 0)\<lparr>sr_ints := [3, 4]\<rparr>)
     | Sys_proc Fork \<Rightarrow> Some (ret (if length h < 2 then 100 else child))
     | Sys_proc (Waitpid p nohang) \<Rightarrow> Some (ret (if nohang then 0 else p))
     | Sys_ipc (Poll_in fd t) \<Rightarrow> Some ((ret 1)\<lparr>sr_out := 1\<rparr>)
     | Sys_read fd n \<Rightarrow> Some (ret 1)
     | _ \<Rightarrow> None)"

lemmas launch_fuel = wait_ready.simps(2) [of 299, simplified] wait_child.simps(2) [of 299, simplified]

lemma launch_args: "getopt ''vhl:'' [] [''sway''] = ([], [''sway''])"
  by code_simp

lemmas launch_run = launch_main_def launch_args launch_def drop_privileges_def run_command_def exit_status_def
  launch_kernel_def start_os_def launch_fuel wp_simps Let_def

text \<open>C28:
  The launcher runs the command only without privileges: in every run, the call that starts
  the command directly follows the fork of its process, before which the launcher has set, with
  success, first the group and then the user to those of its caller, and has given the socket
  to them alone.
\<close>

theorem launch_drops_privileges:
  assumes "no_exec (trace w)"
  shows "wp (launch_main k install_path default_path args) (\<lambda>_ w'. exec_after_drop default_path (trace w')) w"
  by (rule launch_main_wp) (auto intro: launch_exec exec_none assms)

theorem launch_drops_privileges_witness:
  "case run_state (launch_main (launch_kernel 0) ''seatd'' ''sock'' [''sway'']) start_os of
     (r, w') \<Rightarrow> r = Replaced \<and> \<not> no_exec (trace w') \<and> exec_after_drop ''sock'' (trace w')"
proof -
  have "wp (launch_main (launch_kernel 0) ''seatd'' ''sock'' [''sway'']) (\<lambda>r w'. r = Replaced \<and> \<not> no_exec (trace w')) start_os"
    by (simp add: launch_run)
  then show ?thesis
    using launch_drops_privileges [of start_os "launch_kernel 0" "''seatd''" "''sock''" "[''sway'']"]
    by (simp add: wp_def start_os_def split: prod.splits)
qed

section \<open>The daemon is stopped\<close>

text \<open>\<open>daemon_started p w\<close>: the first calls of the launcher were the pipe and the fork that gave the daemon the number \<open>p\<close>.\<close>

definition daemon_started :: "int \<Rightarrow> 'a os_scheme \<Rightarrow> bool" where
  "daemon_started p w \<longleftrightarrow> (\<exists>t rf rp. trace w = t @ [(Sys_proc Fork, rf), (Sys_pipe, rp)] \<and> sr_val rf = p)"

definition daemon_stopped :: "int \<Rightarrow> 'a os_scheme \<Rightarrow> bool" where
  "daemon_stopped p w \<longleftrightarrow> Sys_proc (Kill p SIGTERM) \<in> fst ` set (trace w)"

lemma started_unique: "daemon_started p w \<Longrightarrow> daemon_started q w \<Longrightarrow> p = q"
  by (auto simp: daemon_started_def)

lemma started_more: "daemon_started p w \<Longrightarrow> trace w' = t @ trace w \<Longrightarrow> daemon_started p w'"
  unfolding daemon_started_def by (metis append.assoc)

lemma started_aborted [simp]: "daemon_started p (w\<lparr>aborted := b\<rparr>) = daemon_started p w" "daemon_stopped p (w\<lparr>aborted := b\<rparr>) = daemon_stopped p w"
  by (simp_all add: daemon_started_def daemon_stopped_def)

lemma wp_started:
  assumes "state_io_rel (only_calls (\<lambda>_. True)) m" and "daemon_started p w" and "\<And>r w'. daemon_started p w' \<Longrightarrow> Q r w'"
  shows "wp m Q w"
  by (rule wp_only [OF assms(1)], rule assms(3), rule started_more [OF assms(2)])

lemma run_command_stops:
  assumes "daemon_started p w"
  shows "wp (run_command k path command p) (\<lambda>r w'. daemon_started p w' \<and> (daemon_stopped p w' \<or> \<not> no_exec (trace w'))) w"
proof -
  have more: "daemon_started p w'" if "trace w' = x # trace v" "daemon_started p v" for x and v w' :: "'a os_scheme"
    by (rule started_more [OF that(2), of _ "[x]"]) (simp add: that(1))
  have wait: "wp (wait_child n k c) Q v" if "daemon_started p v" "\<And>r w'. daemon_started p w' \<Longrightarrow> Q r w'" for n c Q and v :: "'a os_scheme"
    by (rule wp_started [OF wait_only(2)]) (use that in auto)
  show ?thesis
    unfolding run_command_def error_seatd_def exit_status_def
    using assms
    by (auto simp: wp_bind wp_return wp_if wp_case_option wp_Let wp_abort_now daemon_stopped_def Let_def intro!: wp_call wait dest: more)
qed

lemma launch_stops:
  assumes "trace w = []"
  shows "wp (launch k install path level command) (\<lambda>r w'. \<forall>p. daemon_started p w' \<and> p \<noteq> 0 \<and> p \<noteq> -1 \<longrightarrow> daemon_stopped p w' \<or> \<not> no_exec (trace w')) w"
proof -
  define Q where "Q w' \<longleftrightarrow> (\<forall>p. daemon_started p w' \<and> p \<noteq> 0 \<and> p \<noteq> -1 \<longrightarrow> daemon_stopped p w' \<or> \<not> no_exec (trace w'))" for w' :: "'a os_scheme"
  have Q: "Q w'" if "daemon_started p w'" "p = 0 \<or> p = -1 \<or> daemon_stopped p w' \<or> \<not> no_exec (trace w')" for p w'
    using that started_unique unfolding Q_def by blast
  have none: "Q w'" if "length (trace w') < 2" for w'
    using that by (auto simp: Q_def daemon_started_def)
  define parent :: "int \<Rightarrow> int \<Rightarrow> ('a os_scheme, outcome) state" where "parent p rd = do {
         ready \<leftarrow> wait_ready (retry_fuel k) k p rd;
         if \<not> ready then error_seatd k p
         else do {
           _ \<leftarrow> sys_val k (Sys_close rd);
           dropped \<leftarrow> drop_privileges k path;
           if \<not> dropped then error_seatd k p else run_command k path command p
         }
       }" for p rd
  have more: "daemon_started p w'" if "trace w' = x # trace v" "daemon_started p v" for p x and v w' :: "'a os_scheme"
    by (rule started_more [OF that(2), of _ "[x]"]) (simp add: that(1))
  have err: "wp (error_seatd k p) (\<lambda>_. Q) v" if "daemon_started p v" for p v
    unfolding error_seatd_def using that by (auto simp: wp_bind wp_return daemon_stopped_def intro!: wp_call Q dest: more)
  have drop: "state_io_rel (only_calls (\<lambda>_. True)) (drop_privileges k path)"
    unfolding drop_privileges_def by (intro only.rules only_sys) simp_all
  have parent: "wp (parent p rd) (\<lambda>_. Q) v" if "daemon_started p v" for p rd v
    unfolding parent_def wp_bind
    by (rule wp_started [OF wait_only(1) that])
      (auto simp: wp_bind wp_if intro!: err wp_call wp_started [OF drop] wp_mono [OF run_command_stops] Q dest: more)
  have early: "Q v" if "trace v = t @ [(Sys_proc Fork, rf), (Sys_pipe, rp)]" "sr_val rf = 0 \<or> sr_val rf = -1" for v t rf rp
    by (rule Q [of "sr_val rf"]) (use that in \<open>auto simp: daemon_started_def\<close>)
  have ends: "trace v = [a] \<Longrightarrow> Q v"
    "trace v = [(Sys_proc Fork, rf), (Sys_pipe, rp)] \<Longrightarrow> sr_val rf = -1 \<Longrightarrow> Q v"
    "trace v = [a, b, (Sys_proc Fork, rf), (Sys_pipe, rp)] \<Longrightarrow> sr_val rf = 0 \<Longrightarrow> Q v" for v a b rf rp
    using none [of v] early [of v "[]" rf rp] early [of v "[a, b]" rf rp] by simp_all
  have follow: "trace v = [a, (Sys_proc Fork, rf), (Sys_pipe, rp)] \<Longrightarrow> wp (parent (sr_val rf) rd) (\<lambda>_. Q) v" for v a rf rp rd
    by (rule parent) (auto simp: daemon_started_def)
  show ?thesis
    unfolding launch_def Q_def [symmetric] parent_def [symmetric]
    by (auto simp: wp_bind wp_return wp_if wp_case_prod assms intro!: wp_call wp_call_sys intro: ends follow)
qed

text \<open>C29:
  The launcher leaves no daemon behind: in every run that forks it, the process that does not
  go on to be the daemon or the command has sent it \<open>SIGTERM\<close> when it ends, be it after the
  command or after a failure on the way.
\<close>

theorem launch_stops_daemon:
  assumes "trace w = []"
  shows "wp (launch_main k install_path default_path args)
    (\<lambda>_ w'. \<forall>p. daemon_started p w' \<and> p \<noteq> 0 \<and> p \<noteq> -1 \<longrightarrow> daemon_stopped p w' \<or> \<not> no_exec (trace w')) w"
  by (rule launch_main_wp, rule launch_stops [OF assms]) (simp add: daemon_started_def assms)

theorem launch_stops_daemon_witness:
  "case run_state (launch_main (launch_kernel 200) ''seatd'' ''sock'' [''sway'']) start_os of
     (r, w') \<Rightarrow> r = Exited 0 \<and> daemon_started 100 w' \<and> daemon_stopped 100 w'"
proof -
  have "wp (launch_main (launch_kernel 200) ''seatd'' ''sock'' [''sway''])
      (\<lambda>r w'. r = Exited 0 \<and> no_exec (trace w') \<and> daemon_started 100 w') start_os"
    by (simp add: launch_run ret_def daemon_started_def)
  then show ?thesis
    using launch_stops_daemon [of start_os "launch_kernel 200" "''seatd''" "''sock''" "[''sway'']"]
    by (simp add: wp_def start_os_def split: prod.splits)
qed

end
