(* ===== verification/Spec2Isabelle.thy ===== *)
theory Spec2Isabelle
  imports Linked_List Daemon_Spec Libseat Launch
begin

text \<open>
  A verification of the seat manager dde-seatd: the daemon \<open>seatd\<close>, the client library
  \<open>libseat\<close> with its backends for the daemon and without one, and the launcher \<open>seatd-launch\<close>.

  \<^bold>\<open>The program.\<close> The daemon listens on a socket. Clients (compositors) open a seat, get the
  descriptors of graphics and input devices, and give the seat up when they are told to; on a
  seat that is bound to virtual terminals the kernel's VT switches decide which client is
  active. A second socket lets the display manager create grouped VTs and switch between them.
  The daemon is one event loop over descriptors and signals; a thread reports VT changes through
  a pipe. Applications use \<open>libseat\<close>, which speaks the daemon's protocol.

  \<^bold>\<open>The model.\<close> Every C function is a definition of the same name where the name is free, in
  the state monad over records: \<open>os\<close> (errno, the history of system calls, and two flags), extended
  by the poller, the heaps and lists of the server (\<open>world\<close>), the library's backend (\<open>lib_os\<close>)
  or the log's variables (\<open>log_os\<close>). Objects that the code allocates live in maps from addresses;
  the lists that link them are lists of addresses. Integers that can wrap are words. A failed
  assertion, an \<open>abort\<close>, a null pointer or a freed object sets \<open>aborted\<close>, which nothing
  resets. The kernel, the allocator and the environment are a parameter: a \<open>kernel\<close> answers each call
  from the history of calls, so that theorems hold for every behaviour of it. Hypotheses on
  it state documented behaviour: \<open>send_ok\<close> and \<open>recv_ok\<close> (a transfer that succeeds is not empty
  and not longer than asked for), \<open>vt_pipe_ok\<close> (the thread reports VTs that exist), all
  three as \<open>kernel_ok\<close>, and \<open>patient\<close> (a call is not interrupted forever).

  \<^bold>\<open>Theories.\<close>
  \<^item> \<open>Prelude\<close>, \<open>Kernel\<close>: weakest preconditions \<open>wp\<close>, frames (locale \<open>frame_rel\<close>), words and lists;
    calls, errno, the retry loop on interruption.
  \<^item> \<open>Ring_Buffer\<close>, \<open>Connection\<close> (\<open>common/connection.c\<close>): ring buffers with 32-bit indices refine byte
    queues (locale \<open>byte_queue\<close>); reading, flushing and the passing of descriptors neither lose,
    duplicate nor leak.
  \<^item> \<open>Linked_List\<close> (\<open>common/linked_list.c\<close>): the pointer operations refine lists (locale
    \<open>intrusive_list\<close>). The other theories use the lists.
  \<^item> \<open>Terminal\<close> (\<open>common/terminal.c\<close>, \<open>drm.c\<close>, \<open>evdev.c\<close>, \<open>hidraw.c\<close>, \<open>wscons.c\<close>): the Linux
    variants.
  \<^item> \<open>Getopt\<close>, \<open>Log\<close> (\<open>common/log.c\<close>): what is used of the C library for the command line and
    numbers; log lines, which do not disturb errno.
  \<^item> \<open>Poller\<close>, \<open>Poller_Loop\<close> (\<open>seatd/poller.c\<close>): event sources and one round of the loop, which
    keeps every invariant that the handlers keep (locale \<open>event_handlers\<close>).
  \<^item> \<open>State\<close>, \<open>Messages\<close>, \<open>Seat\<close>, \<open>Client\<close>, \<open>Control\<close>, \<open>Server\<close> (\<open>include/seat.h\<close>, \<open>client.h\<close>, \<open>control.h\<close>,
    \<open>server.h\<close>, \<open>protocol.h\<close> and \<open>seatd/seat.c\<close>, \<open>client.c\<close>, \<open>control.c\<close>, \<open>server.c\<close>): the data and every
    operation of the server. \<open>call_fd\<close> and \<open>call_signal\<close> are the calls through the function pointers
    of the event sources.
  \<^item> \<open>Invariant\<close>, \<open>Transitions\<close>, \<open>Seat_Inv\<close>, \<open>Seat_Vt_Inv\<close>, \<open>Client_Inv\<close>, \<open>Control_Inv\<close>, \<open>Server_Inv\<close>,
    \<open>Lifecycle\<close>: the invariant of the server's data and that every operation keeps it and fails
    no assertion, from \<open>server_init\<close> to \<open>server_finish\<close>.
  \<^item> \<open>Daemon\<close>, \<open>Reach\<close> (\<open>seatd/seatd.c\<close>): \<open>main\<close>, and the daemon as a transition system whose steps are
    rounds of the loop and arriving signals.
  \<^item> \<open>Device_Spec\<close>, \<open>Seat_Spec\<close>, \<open>Wire_Spec\<close>, \<open>Daemon_Spec\<close>: what the parts promise: counted device
    references (locale \<open>refcount_table\<close>), revocation before a seat changes hands, sessions, the
    handing over of seats, encodings that can be decoded, admission to the control socket,
    termination of request handling, release of everything at the end.
  \<^item> \<open>Libseat_Seatd\<close>, \<open>Libseat_Inv\<close>, \<open>Libseat_Spec\<close>, \<open>Libseat\<close> (\<open>libseat/backend/seatd.c\<close>, \<open>noop.c\<close>,
    \<open>libseat/libseat.c\<close>): the library, for every listener that keeps to its operations (locale
    \<open>seat_listener\<close>): it never aborts, opens a seat completely or not at all, and is understood by the
    daemon; the choice of the backend.
  \<^item> \<open>Launch\<close> (\<open>seatd-launch/seatd-launch.c\<close>): the launcher drops its privileges before it runs the
    command, and stops the daemon.
  \<^item> this theory: safety of all reachable states of the daemon.

  \<^bold>\<open>Bounds.\<close> Loops over lists and buffers are structural or bounded by what they consume: 65 rounds
  are enough for the requests in a buffer of 256 bytes, as each takes a header of four
  (\<open>client_messages_terminates\<close>), the length of a list bounds the loops that empty it, and the
  sum of the reference counts bounds the loop that closes devices. Loops that only
  the kernel ends (interrupted calls, \<open>seatd-launch\<close> waiting) run \<open>retry_fuel\<close> rounds of the
  kernel parameter and set \<open>stuck\<close> if these are used up; \<open>connection_flush_terminates\<close> shows that
  257 rounds are enough for a patient kernel. The event loop itself runs along a schedule, or
  as steps without a bound.

  \<^bold>\<open>Simplifications.\<close> A signal handler runs between two rounds of the loop, and the
  signals of VT switching arrive only once the seat knows its VT. The VT event thread is the loop
  \<open>server_vt_event_loop\<close>; what it writes reaches the server as answers of \<open>read\<close>. Log calls are left
  out of the components: they do not change errno (\<open>logf_transparent\<close>). Allocation fails when the kernel parameter
  says so. A forked process is the branch in which \<open>fork\<close> returns 0.

  \<^bold>\<open>Not modelled.\<close> \<open>libseat/backend/logind.c\<close>: each operation is a call of sd-bus, a library that is not
  part of the sources. The builtin backend (\<open>libseat/backend/seatd.c\<close> after line 675): left out of the
  default build. The variants for other systems than Linux. The examples and tests.
\<close>

section \<open>Safety of the running daemon\<close>



text \<open>
  Mutual exclusion, as a predicate on states: two clients of one seat that are active, or have
  yet to acknowledge that they were disabled, are the same client, and it is the one that the
  seat calls active.
\<close>

definition exclusive :: "world \<Rightarrow> bool" where
  "exclusive w \<longleftrightarrow> (\<forall>c d x y. client_heap w c = Some x \<and> client_heap w d = Some y \<and> cl_seat x = cl_seat y \<and>
     on_duty x \<and> on_duty y \<longrightarrow> c = d \<and> (\<exists>s st. cl_seat x = Some s \<and> seat_heap w s = Some st \<and> active_client st = Some c))"

text \<open>C2:
  At most one client of a seat is in control of it at any time: in every reachable state, a
  client that is active or has yet to acknowledge its disabling is the active client of its
  seat, and no other client of the seat is in one of these states.
\<close>

theorem reachable_exclusive:
  assumes "kernel_ok k" and "reachable k w"
  shows "exclusive w"
  unfolding exclusive_def
proof (intro allI impI, elim conjE)
  note ok = reachable_steady [OF assms]
  fix c d x y
  assume c: "client_heap w c = Some x" "on_duty x" and d: "client_heap w d = Some y" "on_duty y" and same: "cl_seat x = cl_seat y"
  obtain s st where x: "cl_seat x = Some s" "seat_heap w s = Some st" "active_client st = Some c"
    using inv_duty [OF ok c] by auto
  obtain s' st' where y: "cl_seat y = Some s'" "seat_heap w s' = Some st'" "active_client st' = Some d"
    using inv_duty [OF ok d] by auto
  from x y same show "c = d \<and> (\<exists>s st. cl_seat x = Some s \<and> seat_heap w s = Some st \<and> active_client st = Some c)"
    by auto
qed

theorem reachable_exclusive_witness: "exclusive demo_world"
  using reachable_exclusive [OF demo_kernel_ok demo_reachable] .

text \<open>
  Pointers, as a predicate on states: every pointer that the server, a seat or a client holds
  leads to an object that exists and points back, and every client and control client has a
  live event source whose handler is its own.
\<close>

definition pointers_ok :: "world \<Rightarrow> bool" where
  "pointers_ok w \<longleftrightarrow>
     (\<forall>s \<in> set (seats (the_server w)). \<exists>st. seat_heap w s = Some st) \<and>
     (\<forall>c \<in> set (idle_clients (the_server w)). \<exists>x. client_heap w c = Some x \<and> cl_seat x = None) \<and>
     (\<forall>s st. seat_heap w s = Some st \<longrightarrow>
        (\<forall>c \<in> set (seat_clients st). \<exists>x. client_heap w c = Some x \<and> cl_seat x = Some s) \<and>
        (\<forall>c. active_client st = Some c \<or> next_client st = Some c \<longrightarrow> c \<in> set (seat_clients st)) \<and>
        (\<forall>g \<in> set (group_vts st). \<exists>c \<in> set (seat_clients st). gv_owner g = Some c)) \<and>
     (\<forall>c x. client_heap w c = Some x \<longrightarrow>
        (case cl_seat x of None \<Rightarrow> c \<in> set (idle_clients (the_server w))
         | Some s \<Rightarrow> \<exists>st. seat_heap w s = Some st \<and> c \<in> set (seat_clients st)) \<and>
        (\<exists>a. cl_event_source x = Some a \<and> live_source (the_poller w) a (Client_handle_connection c))) \<and>
     (\<forall>c y. control_heap w c = Some y \<longrightarrow> c \<in> set (control_clients (the_server w)) \<and>
        (\<exists>a. cc_event_source y = Some a \<and> live_source (the_poller w) a (Control_client_handle_connection c)))"

text \<open>C3:
  No dangling pointers: in every reachable state the lists and pointers of the server, its
  seats, clients, control clients and event sources lead to objects that exist and agree with
  each other.
\<close>

theorem reachable_pointers:
  assumes "kernel_ok k" and "reachable k w"
  shows "pointers_ok w"
proof -
  note ok = reachable_steady [OF assms]
  have seat: "seat_ok (vt_signal (signals (the_poller w))) (client_heap w) s st" if "seat_heap w s = Some st" for s st
    using invD(4) [OF ok that] by simp
  have linked: "linked_at (seat_heap w) (idle_clients (the_server w)) c x" if "client_heap w c = Some x" for c x
    using ok that by (auto simp: world_ok_def links_ok_def)
  have source: "\<exists>a. cl_event_source x = Some a \<and> live_source (the_poller w) a (Client_handle_connection c)"
    if "client_heap w c = Some x" for c x
    using inv_ready(2) [OF ok that] inv_source [OF ok that] by auto
  have control: "\<exists>a. cc_event_source y = Some a \<and> live_source (the_poller w) a (Control_client_handle_connection c)"
    if "control_heap w c = Some y" for c y
    using ok that by (auto simp: world_ok_def controls_ok_def)
  have lists: "set (seats (the_server w)) = dom (seat_heap w)" "set (control_clients (the_server w)) = dom (control_heap w)"
    "\<forall>c \<in> set (idle_clients (the_server w)). \<exists>x. client_heap w c = Some x \<and> cl_seat x = None"
    using ok by (auto simp: world_ok_def seats_ok_def controls_ok_def links_ok_def)
  show ?thesis
    unfolding pointers_ok_def
    using seat linked source control lists by (fastforce simp: seat_ok_def linked_at_def split: option.splits)
qed

theorem reachable_pointers_witness: "pointers_ok demo_world"
  using reachable_pointers [OF demo_kernel_ok demo_reachable] .

text \<open>
  The types that the code relies on, as a predicate on states: the buffers of a connection are
  sound, a client has at most 128 devices, with positive and distinct numbers, distinct paths,
  positive reference counts and a class that may be opened; a client without a seat has none and
  is new or closed; sessions are not negative.
\<close>

definition typed :: "world \<Rightarrow> bool" where
  "typed w \<longleftrightarrow> (\<forall>c x. client_heap w c = Some x \<longrightarrow> conn_ok (cl_connection x) \<and> pending (cl_connection x) \<le> 256 \<and>
       length (cl_devices x) \<le> 128 \<and> distinct (map device_id (cl_devices x)) \<and> distinct (map dev_path (cl_devices x)) \<and>
       (\<forall>d \<in> set (cl_devices x). 0 < device_id d \<and> 0 < ref_cnt d \<and> dev_type d \<noteq> SEAT_DEVICE_TYPE_NORMAL) \<and>
       (cl_seat x = None \<longrightarrow> cl_devices x = [] \<and> cl_state x \<in> {CLIENT_NEW, CLIENT_CLOSED}) \<and>
       (cl_seat x \<noteq> None \<longrightarrow> 0 \<le> cl_session x)) \<and>
     (\<forall>s st. seat_heap w s = Some st \<longrightarrow> -1 \<le> cur_vt st \<and> 0 \<le> pending_vt_switch st \<and>
       distinct (map gv_vt (group_vts st)) \<and> (\<forall>g \<in> set (group_vts st). 0 < gv_vt g) \<and>
       (vt_bound st \<and> seat_clients st \<noteq> [] \<longrightarrow> 0 \<le> cur_vt st)) \<and>
     (\<forall>c y. control_heap w c = Some y \<longrightarrow> conn_ok (cc_connection y) \<and> pending (cc_connection y) \<le> 256)"



end
